(* ===== verification/Egos_Prelude.thy ===== *)
theory Egos_Prelude
  imports Main "HOL-Library.Word" "HOL-Library.Multiset"
begin

text \<open>
  Shared vocabulary of the development: machine integers at their C widths, the fault type
  that stands for the code paths that never return (\<^verbatim>\<open>FATAL\<close>, \<^verbatim>\<open>panic\<close>, undefined
  behaviour), sequencing of fallible state-passing operations, little-endian access to the
  32-bit cells of a byte buffer, and the generic list, word and multiset facts that the
  component theories share.

  An operation of the program is a function \<open>state \<Rightarrow> fault + (result \<times> state)\<close>: \<open>Inl\<close> means
  that the C function does not return to its caller, \<open>Inr\<close> carries its result and the state
  after it.
\<close>

unbundle bit_operations_syntax

type_synonym byte = "8 word"
type_synonym u16 = "16 word"
type_synonym u32 = "32 word"
type_synonym u64 = "64 word"

named_theorems cell_simps \<open>reading and writing 32-bit cells of a byte buffer\<close>
named_theorems layout_simps \<open>values of the memory and disk layout constants\<close>
named_theorems step_simps \<open>unfolding of sequenced operations\<close>

section \<open>Faults and sequencing\<close>

text \<open>
  \<open>Fatal m\<close>: the code called \<^verbatim>\<open>FATAL\<close> (which prints and spins forever, \<^verbatim>\<open>earth/dev_tty.c\<close>) or
  \<^verbatim>\<open>panic\<close> (which does the same, or exits in \<^verbatim>\<open>mkfs\<close>). \<open>Undefined m\<close>: the C code has no defined
  behaviour on this path, such as an out-of-range array access.
\<close>

datatype fault = Fatal string | Undefined string

type_synonym 'a res = "fault + 'a"

definition bindE :: "'a res \<Rightarrow> ('a \<Rightarrow> 'b res) \<Rightarrow> 'b res" where
  "bindE m f = (case m of Inl e \<Rightarrow> Inl e | Inr a \<Rightarrow> f a)"

lemma bindE_Inr [simp]: "bindE (Inr a) f = f a"
  by (simp add: bindE_def)

lemma bindE_Inl [simp]: "bindE (Inl e) f = Inl e"
  by (simp add: bindE_def)

lemma bindE_eq_Inr_iff: "bindE m f = Inr b \<longleftrightarrow> (\<exists>a. m = Inr a \<and> f a = Inr b)"
  by (cases m) auto

lemma bindE_eq_Inl_iff:
  "bindE m f = Inl e \<longleftrightarrow> m = Inl e \<or> (\<exists>a. m = Inr a \<and> f a = Inl e)"
  by (cases m) auto

lemma bindE_assoc: "bindE (bindE m f) g = bindE m (\<lambda>a. bindE (f a) g)"
  by (cases m) auto

lemma bindE_InrE:
  assumes "bindE m f = Inr b"
  obtains a where "m = Inr a" and "f a = Inr b"
  using assms by (cases m) auto

text \<open>An operation that need not return at all: \<open>None\<close> is a loop that runs forever.\<close>

definition bindO :: "'a res option \<Rightarrow> ('a \<Rightarrow> 'b res option) \<Rightarrow> 'b res option" where
  "bindO m f = (case m of None \<Rightarrow> None | Some (Inl e) \<Rightarrow> Some (Inl e) | Some (Inr x) \<Rightarrow> f x)"

lemma bindO_simps [simp]: "bindO (Some (Inr x)) f = f x" "bindO (Some (Inl e)) f = Some (Inl e)"
  by (simp_all add: bindO_def)

lemma bindO_mono [partial_function_mono]:
  assumes "\<And>x. mono_option (\<lambda>f. C x f)"
  shows "mono_option (\<lambda>f. bindO m (\<lambda>x. C x f))"
  using assms by (cases m) (auto simp: bindO_def monotone_def flat_ord_def split: sum.splits)

text \<open>Writing a list of bytes into a buffer.\<close>

definition put_at :: "byte list \<Rightarrow> nat \<Rightarrow> byte list \<Rightarrow> byte list" where
  "put_at buf i xs = take i buf @ xs @ drop (i + length xs) buf"

lemma length_put_at: "i + length xs \<le> length buf \<Longrightarrow> length (put_at buf i xs) = length buf"
  by (simp add: put_at_def)

lemma nth_put_at:
  "i + length xs \<le> length buf \<Longrightarrow> put_at buf i xs ! j = (if i \<le> j \<and> j < i + length xs then xs ! (j - i) else buf ! j)"
  by (auto simp: put_at_def nth_append)

section \<open>Little-endian 32-bit cells\<close>

text \<open>
  The C code overlays arrays of \<^verbatim>\<open>unsigned int\<close> on byte buffers (unions and pointer casts);
  RISC-V is little-endian.
\<close>

definition u32_of_bytes :: "byte \<Rightarrow> byte \<Rightarrow> byte \<Rightarrow> byte \<Rightarrow> u32" where
  "u32_of_bytes a b c d =
     ucast a OR push_bit 8 (ucast b) OR push_bit 16 (ucast c) OR push_bit 24 (ucast d)"

definition byte_of :: "u32 \<Rightarrow> nat \<Rightarrow> byte" where
  "byte_of w k = ucast (drop_bit (8 * k) w)"

definition get32 :: "byte list \<Rightarrow> nat \<Rightarrow> u32" where
  "get32 bs i = u32_of_bytes (bs ! (4 * i)) (bs ! (4 * i + 1)) (bs ! (4 * i + 2)) (bs ! (4 * i + 3))"

definition put32 :: "byte list \<Rightarrow> nat \<Rightarrow> u32 \<Rightarrow> byte list" where
  "put32 bs i w =
     bs[4 * i := byte_of w 0, 4 * i + 1 := byte_of w 1,
        4 * i + 2 := byte_of w 2, 4 * i + 3 := byte_of w 3]"

lemma u32_of_byte_of [simp]:
  "u32_of_bytes (byte_of w 0) (byte_of w (Suc 0)) (byte_of w 2) (byte_of w 3) = w"
proof (rule bit_word_eqI)
  fix n assume "n < LENGTH(32)"
  then consider "n < 8" | "8 \<le> n" "n < 16" | "16 \<le> n" "n < 24" | "24 \<le> n" "n < 32" by fastforce
  then show "bit (u32_of_bytes (byte_of w 0) (byte_of w (Suc 0)) (byte_of w 2) (byte_of w 3)) n = bit w n"
    by cases (auto simp: u32_of_bytes_def byte_of_def bit_simps)
qed

lemma byte_of_u32 [simp]:
  "byte_of (u32_of_bytes a b c d) 0 = a"
  "byte_of (u32_of_bytes a b c d) (Suc 0) = b"
  "byte_of (u32_of_bytes a b c d) 2 = c"
  "byte_of (u32_of_bytes a b c d) 3 = d"
  by (rule bit_word_eqI; auto simp: u32_of_bytes_def byte_of_def bit_simps dest: bit_imp_le_length)+

lemma length_put32 [simp]: "length (put32 bs i w) = length bs"
  by (simp add: put32_def)

lemma nth_list_update_in: "k < length xs \<Longrightarrow> xs[i := x] ! k = (if i = k then x else xs ! k)"
  by simp

lemma nth_put32:
  assumes "k < length bs"
  shows "put32 bs i w ! k = (if k div 4 = i then byte_of w (k mod 4) else bs ! k)"
proof (cases "k div 4 = i")
  case True
  then have "k = 4 * i + k mod 4" by auto
  moreover have "k mod 4 = 0 \<or> k mod 4 = 1 \<or> k mod 4 = 2 \<or> k mod 4 = 3" by arith
  ultimately consider "k mod 4 = 0" "k = 4 * i" | "k mod 4 = 1" "k = 4 * i + 1"
    | "k mod 4 = 2" "k = 4 * i + 2" | "k mod 4 = 3" "k = 4 * i + 3" by fastforce
  then show ?thesis using assms True by cases (simp_all add: put32_def nth_list_update_in)
next
  case False
  then have "k \<noteq> 4 * i" "k \<noteq> 4 * i + 1" "k \<noteq> 4 * i + 2" "k \<noteq> 4 * i + 3" by auto
  then show ?thesis using False by (simp add: put32_def)
qed

lemma get32_put32_same [cell_simps]:
  assumes "4 * i + 3 < length bs"
  shows "get32 (put32 bs i w) i = w"
proof -
  have "put32 bs i w ! (4 * i + k) = byte_of w k" if "k < 4" for k
    using that assms by (simp add: nth_put32)
  from this [of 0] this [of 1] this [of 2] this [of 3] show ?thesis by (simp add: get32_def)
qed

lemma get32_put32_other [cell_simps]:
  assumes "i \<noteq> j"
  shows "get32 (put32 bs i w) j = get32 bs j"
proof -
  have "put32 bs i w ! (4 * j + k) = bs ! (4 * j + k)" if "k < 4" for k
  proof -
    have "4 * i + l \<noteq> 4 * j + k" if "l < 4" for l using that \<open>k < 4\<close> assms by arith
    from this [of 0] this [of 1] this [of 2] this [of 3] show ?thesis by (simp add: put32_def)
  qed
  from this [of 0] this [of 1] this [of 2] this [of 3] show ?thesis by (simp add: get32_def)
qed

lemma byte_of_get32: "k div 4 = i \<Longrightarrow> byte_of (get32 bs i) (k mod 4) = bs ! k"
proof -
  assume k: "k div 4 = i"
  then have "k = 4 * i + k mod 4" by auto
  moreover have "k mod 4 = 0 \<or> k mod 4 = 1 \<or> k mod 4 = 2 \<or> k mod 4 = 3" by arith
  ultimately consider "k mod 4 = 0" "k = 4 * i" | "k mod 4 = 1" "k = 4 * i + 1"
    | "k mod 4 = 2" "k = 4 * i + 2" | "k mod 4 = 3" "k = 4 * i + 3" by fastforce
  then show ?thesis by cases (simp_all add: get32_def)
qed

lemma put32_get32_id [cell_simps]: "put32 bs i (get32 bs i) = bs"
  by (rule nth_equalityI) (simp_all add: nth_put32 byte_of_get32)

lemma put32_put32 [cell_simps]: "put32 (put32 bs i v) i w = put32 bs i w"
  by (rule nth_equalityI) (simp_all add: nth_put32)

lemma u32_of_bytes_0 [simp]: "u32_of_bytes 0 0 0 0 = 0"
  by (simp add: u32_of_bytes_def)

lemma get32_replicate [cell_simps]: "4 * i + 3 < n \<Longrightarrow> get32 (replicate n 0) i = 0"
  by (simp add: get32_def)

section \<open>Words as naturals\<close>

lemma unat_less_of_nat_iff:
  fixes w :: "'a::len word"
  shows "n < 2 ^ LENGTH('a) \<Longrightarrow> w < word_of_nat n \<longleftrightarrow> unat w < n"
  by (simp add: word_less_nat_alt unat_of_nat take_bit_nat_eq_self)

lemma unat_Suc_word:
  fixes w :: "'a::len word"
  shows "w < v \<Longrightarrow> unat (w + 1) = Suc (unat w)"
proof -
  assume "w < v"
  then have "unat w < unat v" by (simp add: word_less_nat_alt)
  then have "unat w + 1 < 2 ^ LENGTH('a)" using unsigned_less [of v, where ?'a = nat] by linarith
  then show ?thesis by (simp add: unat_word_ariths)
qed

section \<open>Lists and multisets\<close>

lemma mset_concat_map_upt_update:
  assumes "i < n" and "\<And>j. j < n \<Longrightarrow> j \<noteq> i \<Longrightarrow> g j = f j"
  shows "mset (concat (map g [0..<n])) + mset (f i) = mset (concat (map f [0..<n])) + mset (g i)"
proof -
  have eq: "[0..<n] = [0..<i] @ i # [Suc i..<n]"
    using assms(1) by (metis add.left_neutral less_imp_le upt_add_eq_append upt_conv_Cons zero_le le_add_diff_inverse)
  have "map g [0..<i] = map f [0..<i]" and "map g [Suc i..<n] = map f [Suc i..<n]"
    using assms by auto
  then show ?thesis by (simp only: eq map_append list.map concat_append concat.simps mset_append) simp
qed

lemma concat_map_Nil: "(\<And>x. x \<in> set xs \<Longrightarrow> f x = []) \<Longrightarrow> concat (map f xs) = []"
  by (induction xs) auto

lemma map_upt_cong: "(\<And>i. i < n \<Longrightarrow> f i = g i) \<Longrightarrow> map f [0..<n] = map g [0..<n]"
  by simp

section \<open>Bit fields\<close>

lemma nat_or_add: "y < 2 ^ k \<Longrightarrow> push_bit k x OR y = x * 2 ^ k + (y :: nat)"
proof -
  assume y: "y < 2 ^ k"
  have "\<not> bit (push_bit k x) i \<or> \<not> bit y i" for i
  proof (cases "k \<le> i")
    case True
    then have "y < 2 ^ i" using y by (meson order_less_le_trans power_increasing one_le_numeral)
    then show ?thesis by (simp add: bit_iff_odd)
  qed (simp add: bit_push_bit_iff)
  then have "push_bit k x + y = push_bit k x OR y" by (rule disjunctive_add)
  then show ?thesis by (simp add: push_bit_eq_mult)
qed
lemma field_or:
  fixes a b :: u32
  assumes "unat a * 2 ^ k < 2 ^ 32" and "unat b < 2 ^ k"
  shows "unat (push_bit k a OR b) = unat a * 2 ^ k + unat b"
proof -
  have "unat (push_bit k a) = push_bit k (unat a)"
    unfolding unsigned_push_bit_eq using assms(1) by (simp add: push_bit_eq_mult take_bit_nat_eq_self)
  then show ?thesis unfolding unsigned_or_eq using nat_or_add [OF assms(2), of "unat a"] by simp
qed
lemma unat_and_mask: "unat ((w :: 'a::len word) AND mask n) = unat w mod 2 ^ n"
  unfolding take_bit_eq_mask [symmetric] unsigned_take_bit_eq by (simp add: take_bit_eq_mod)

lemma unat_drop_bit: "unat (drop_bit n (w :: 'a::len word)) = unat w div 2 ^ n"
  unfolding unat_drop_bit_eq by (simp add: drop_bit_eq_div)

lemma drop_bit_and_not_mask: "drop_bit n ((w :: 'a::len word) AND NOT (mask n)) = drop_bit n w"
  by (rule bit_word_eqI) (auto simp: bit_simps dest: bit_imp_le_length)

lemma unat_ucast_32: "unat (ucast (x :: u64) :: u32) = unat x mod 2 ^ 32"
  by (simp add: unsigned_ucast_eq take_bit_eq_mod)

lemma unat_ucast_64: "unat (ucast (x :: u32) :: u64) = unat x"
proof -
  have "unat x < 2 ^ 64" using unsigned_less [of x, where ?'a = nat] by simp
  then show ?thesis by (simp add: unsigned_ucast_eq take_bit_nat_eq_self)
qed

end
