(* ===== verification/Egos_Layout.thy ===== *)
theory Egos_Layout
  imports Egos_Prelude
begin

text \<open>
  The memory map of \<^verbatim>\<open>library/egos.h\<close> and the disk map of \<^verbatim>\<open>library/file/disk.h\<close>, as naturals,
  with their values collected in \<open>layout_simps\<close>; and the facts about them that the other
  components rely on (page alignment, disjoint regions).
\<close>

section \<open>Memory layout (egos.h)\<close>

definition PAGE_SIZE :: nat where "PAGE_SIZE = 4096"

definition PAGE_CNT :: "nat \<Rightarrow> nat" where "PAGE_CNT x = x div 4096"

definition MEM_START :: nat where "MEM_START = 0x40000000"
definition MEM_SIZE :: nat where "MEM_SIZE = 0x200000"
definition MEM_END :: nat where "MEM_END = MEM_START + MEM_SIZE"

definition FRAME_CACHE_SIZE :: nat where "FRAME_CACHE_SIZE = 1024 * 1024"
definition FRAME_CACHE_START :: nat where "FRAME_CACHE_START = MEM_END - FRAME_CACHE_SIZE"
definition FRAME_CACHE_END :: nat where "FRAME_CACHE_END = MEM_END"

definition EARTH_INTERFACE :: nat where "EARTH_INTERFACE = FRAME_CACHE_START - PAGE_SIZE + 256"
definition GRASS_INTERFACE :: nat where "GRASS_INTERFACE = EARTH_INTERFACE - 256"

definition GRASS_STACK_SIZE :: nat where "GRASS_STACK_SIZE = 8 * 1024"
definition GRASS_STACK_BOTTOM :: nat where "GRASS_STACK_BOTTOM = GRASS_INTERFACE - GRASS_STACK_SIZE"
definition GRASS_STACK_TOP :: nat where "GRASS_STACK_TOP = GRASS_STACK_BOTTOM + GRASS_STACK_SIZE - 16"

definition APPS_STACK_SIZE :: nat where "APPS_STACK_SIZE = 6 * 1024"
definition APPS_STACK_BOTTOM :: nat where "APPS_STACK_BOTTOM = GRASS_STACK_BOTTOM - APPS_STACK_SIZE"
definition APPS_STACK_TOP :: nat where "APPS_STACK_TOP = APPS_STACK_BOTTOM + APPS_STACK_SIZE - 16"
definition SYSCALL_ARG :: nat where "SYSCALL_ARG = APPS_STACK_BOTTOM - 1024"
definition APPS_ARG :: nat where "APPS_ARG = SYSCALL_ARG - 1024"

definition EARTH_ENTRY :: nat where "EARTH_ENTRY = MEM_START"
definition EARTH_SIZE :: nat where "EARTH_SIZE = (128 + 16) * 1024"
definition GRASS_ENTRY :: nat where "GRASS_ENTRY = EARTH_ENTRY + EARTH_SIZE"
definition GRASS_SIZE :: nat where "GRASS_SIZE = (8 + 4) * 1024"
definition APPS_ENTRY :: nat where "APPS_ENTRY = GRASS_ENTRY + GRASS_SIZE"
definition APPS_SIZE :: nat where "APPS_SIZE = 16 * 1024"

lemma memory_layout_values [layout_simps]:
  "PAGE_SIZE = 4096" "MEM_START = 0x40000000" "MEM_END = 0x40200000" "MEM_SIZE = 0x200000"
  "FRAME_CACHE_SIZE = 0x100000" "FRAME_CACHE_START = 0x40100000" "FRAME_CACHE_END = 0x40200000"
  "EARTH_INTERFACE = 0x400FF100" "GRASS_INTERFACE = 0x400FF000"
  "GRASS_STACK_SIZE = 0x2000" "GRASS_STACK_BOTTOM = 0x400FD000" "GRASS_STACK_TOP = 0x400FEFF0"
  "APPS_STACK_SIZE = 0x1800" "APPS_STACK_BOTTOM = 0x400FB800" "APPS_STACK_TOP = 0x400FCFF0"
  "SYSCALL_ARG = 0x400FB400" "APPS_ARG = 0x400FB000"
  "EARTH_ENTRY = 0x40000000" "EARTH_SIZE = 0x24000"
  "GRASS_ENTRY = 0x40024000" "GRASS_SIZE = 0x3000"
  "APPS_ENTRY = 0x40027000" "APPS_SIZE = 0x4000"
  by (simp_all add: PAGE_SIZE_def MEM_START_def MEM_SIZE_def MEM_END_def FRAME_CACHE_SIZE_def
      FRAME_CACHE_START_def FRAME_CACHE_END_def EARTH_INTERFACE_def GRASS_INTERFACE_def
      GRASS_STACK_SIZE_def GRASS_STACK_BOTTOM_def GRASS_STACK_TOP_def APPS_STACK_SIZE_def
      APPS_STACK_BOTTOM_def APPS_STACK_TOP_def SYSCALL_ARG_def APPS_ARG_def EARTH_ENTRY_def
      EARTH_SIZE_def GRASS_ENTRY_def GRASS_SIZE_def APPS_ENTRY_def APPS_SIZE_def)

section \<open>Disk layout (disk.h)\<close>

definition BLOCK_SIZE :: nat where "BLOCK_SIZE = 512"

definition GRASS_EXEC_START :: nat where "GRASS_EXEC_START = 1024 * 1024 div BLOCK_SIZE"
definition GRASS_EXEC_SIZE :: nat where "GRASS_EXEC_SIZE = 1024 * 1024"
definition GRASS_NEXEC :: nat where "GRASS_NEXEC = 8"
definition GRASS_EXEC_SEGMENT :: nat where
  "GRASS_EXEC_SEGMENT = GRASS_EXEC_SIZE div GRASS_NEXEC div BLOCK_SIZE"
definition SYS_PROC_EXEC_START :: nat where "SYS_PROC_EXEC_START = GRASS_EXEC_START + GRASS_EXEC_SEGMENT"
definition SYS_FILE_EXEC_START :: nat where "SYS_FILE_EXEC_START = GRASS_EXEC_START + GRASS_EXEC_SEGMENT * 2"
definition SYS_DIR_EXEC_START :: nat where "SYS_DIR_EXEC_START = GRASS_EXEC_START + GRASS_EXEC_SEGMENT * 3"
definition SYS_SHELL_EXEC_START :: nat where "SYS_SHELL_EXEC_START = GRASS_EXEC_START + GRASS_EXEC_SEGMENT * 4"

definition GRASS_FS_START :: nat where "GRASS_FS_START = 2 * 1024 * 1024 div BLOCK_SIZE"
definition FS_DISK_SIZE :: nat where "FS_DISK_SIZE = 2 * 1024 * 1024"
definition PAGING_DEV_START :: nat where "PAGING_DEV_START = 4 * 1024 * 1024 div BLOCK_SIZE"
definition PAGING_DEV_SIZE :: nat where "PAGING_DEV_SIZE = 1024 * 1024"

lemma disk_layout_values [layout_simps]:
  "BLOCK_SIZE = 512" "GRASS_EXEC_START = 2048" "GRASS_EXEC_SIZE = 1048576" "GRASS_NEXEC = 8"
  "GRASS_EXEC_SEGMENT = 256" "SYS_PROC_EXEC_START = 2304" "SYS_FILE_EXEC_START = 2560"
  "SYS_DIR_EXEC_START = 2816" "SYS_SHELL_EXEC_START = 3072" "GRASS_FS_START = 4096"
  "FS_DISK_SIZE = 2097152" "PAGING_DEV_START = 8192" "PAGING_DEV_SIZE = 1048576"
  by (simp_all add: BLOCK_SIZE_def GRASS_EXEC_START_def GRASS_EXEC_SIZE_def GRASS_NEXEC_def
      GRASS_EXEC_SEGMENT_def SYS_PROC_EXEC_START_def SYS_FILE_EXEC_START_def
      SYS_DIR_EXEC_START_def SYS_SHELL_EXEC_START_def GRASS_FS_START_def FS_DISK_SIZE_def
      PAGING_DEV_START_def PAGING_DEV_SIZE_def)

end
