(* ===== verification/Inode_Store.thy ===== *)
theory Inode_Store
  imports Egos_Layout
begin

text \<open>
  The inode store interface of \<^verbatim>\<open>library/file/inode.h\<close>: a record of function pointers through
  which every layer of the file system calls the layer below it, and the contracts its
  providers keep. A block is the 512 bytes of \<^verbatim>\<open>block_t\<close>.

  A read that returns a negative status is \<open>None\<close>; the C code never looks at the buffer of a
  failed read. \<open>setsize\<close>, \<open>getsize\<close> and \<open>write\<close> return the status integer itself.
\<close>

type_synonym block = "byte list"

record 's inode_store =
  getsize_fn :: "u32 \<Rightarrow> 's \<Rightarrow> (int \<times> 's) res"
  setsize_fn :: "u32 \<Rightarrow> u32 \<Rightarrow> 's \<Rightarrow> (int \<times> 's) res"
  read_fn :: "u32 \<Rightarrow> u32 \<Rightarrow> 's \<Rightarrow> (block option \<times> 's) res"
  write_fn :: "u32 \<Rightarrow> u32 \<Rightarrow> block \<Rightarrow> 's \<Rightarrow> (int \<times> 's) res"

definition null_block :: block where
  "null_block = replicate BLOCK_SIZE 0"

lemma length_null_block [simp]: "length null_block = 512"
  by (simp add: null_block_def layout_simps)

lemma get32_null_block [simp]: "i < 128 \<Longrightarrow> get32 null_block i = 0"
  by (simp add: null_block_def layout_simps get32_replicate)

text \<open>
  What a read-only client relies on: \<open>view s\<close> is the block array behind inode \<open>ino\<close>, \<open>nblk\<close> its
  length in blocks, \<open>ok\<close> the provider's own invariant.
\<close>

locale readable_store =
  fixes store :: "'s inode_store"
    and ino :: u32
    and ok :: "'s \<Rightarrow> bool"
    and nblk :: nat
    and view :: "'s \<Rightarrow> u32 \<Rightarrow> block"
  assumes nblk_bound: "nblk < 2 ^ 31"
    and getsize_ok: "ok s \<Longrightarrow> getsize_fn store ino s = Inr (int nblk, s)"
    and read_ok: "ok s \<Longrightarrow> unat off < nblk \<Longrightarrow> read_fn store ino off s = Inr (Some (view s off), s)"
    and view_length: "ok s \<Longrightarrow> unat off < nblk \<Longrightarrow> length (view s off) = 512"

text \<open>A writable provider in addition stores what it is given and nothing else.\<close>

locale writable_store = readable_store +
  assumes write_ok: "ok s \<Longrightarrow> unat off < nblk \<Longrightarrow> length b = 512 \<Longrightarrow>
      \<exists>s'. write_fn store ino off b s = Inr (0, s') \<and> ok s' \<and> view s' = (view s)(off := b)"

end
