(* ===== verification/Treedisk.thy ===== *)
theory Treedisk
  imports Inode_Store
begin

text \<open>
  The treedisk file system of \<^verbatim>\<open>library/file/file.c\<close> and \<^verbatim>\<open>library/file/file.h\<close>, as state-passing
  functions over the state of the inode store below. The views of the \<^verbatim>\<open>union treedisk_block\<close>
  are the 32-bit cells of the 512-byte block: the superblock keeps \<^verbatim>\<open>n_inodeblocks\<close> in cell 0 and
  \<^verbatim>\<open>free_list\<close> in cell 1; inode \<open>k\<close> of an inode block keeps \<^verbatim>\<open>root\<close> in cell \<open>2 * k\<close> and \<^verbatim>\<open>nblocks\<close>
  in cell \<open>2 * k + 1\<close>; freelist and indirect blocks are 128 cells of block numbers.
\<close>

section \<open>Layout (file.h)\<close>

definition REFS_PER_BLOCK :: nat where "REFS_PER_BLOCK = BLOCK_SIZE div 4"
definition INODES_PER_BLOCK :: nat where "INODES_PER_BLOCK = BLOCK_SIZE div 8"

lemma treedisk_layout_values [layout_simps]: "REFS_PER_BLOCK = 128" "INODES_PER_BLOCK = 64"
  by (simp_all add: REFS_PER_BLOCK_def INODES_PER_BLOCK_def layout_simps)

definition n_inodeblocks :: "block \<Rightarrow> u32" where "n_inodeblocks b = get32 b 0"
definition free_list :: "block \<Rightarrow> u32" where "free_list b = get32 b 1"
definition set_n_inodeblocks :: "block \<Rightarrow> u32 \<Rightarrow> block" where "set_n_inodeblocks b v = put32 b 0 v"
definition set_free_list :: "block \<Rightarrow> u32 \<Rightarrow> block" where "set_free_list b v = put32 b 1 v"

definition inode_root :: "block \<Rightarrow> nat \<Rightarrow> u32" where "inode_root b k = get32 b (2 * k)"
definition inode_nblocks :: "block \<Rightarrow> nat \<Rightarrow> u32" where "inode_nblocks b k = get32 b (2 * k + 1)"
definition set_inode_root :: "block \<Rightarrow> nat \<Rightarrow> u32 \<Rightarrow> block" where
  "set_inode_root b k v = put32 b (2 * k) v"
definition set_inode_nblocks :: "block \<Rightarrow> nat \<Rightarrow> u32 \<Rightarrow> block" where
  "set_inode_nblocks b k v = put32 b (2 * k + 1) v"

section \<open>State (file.c)\<close>

text \<open>
  \<^verbatim>\<open>struct treedisk_snapshot\<close>: the pointer \<^verbatim>\<open>inode\<close> into \<^verbatim>\<open>inodeblock\<close> is the index \<open>inode\<close>.
\<close>

record treedisk_snapshot =
  superblock :: block
  inodeblock :: block
  inode_blockno :: u32
  inode :: nat

record 's treedisk_state =
  below :: "'s inode_store"
  below_ino :: u32
  ninodes :: u32

definition treedisk_mk_state :: "'s inode_store \<Rightarrow> u32 \<Rightarrow> 's treedisk_state" where
  "treedisk_mk_state blw blw_ino = \<lparr>below = blw, below_ino = blw_ino, ninodes = 0\<rparr>"

definition below_read :: "'s treedisk_state \<Rightarrow> u32 \<Rightarrow> 's \<Rightarrow> (block option \<times> 's) res" where
  "below_read ts off s = read_fn (below ts) (below_ino ts) off s"

definition below_write :: "'s treedisk_state \<Rightarrow> u32 \<Rightarrow> block \<Rightarrow> 's \<Rightarrow> (int \<times> 's) res" where
  "below_write ts off b s = write_fn (below ts) (below_ino ts) off b s"

text \<open>A write whose negative status makes the caller panic.\<close>

definition below_write_or_panic :: "'s treedisk_state \<Rightarrow> string \<Rightarrow> u32 \<Rightarrow> block \<Rightarrow> 's \<Rightarrow> 's res" where
  "below_write_or_panic ts msg off b s =
     bindE (below_write ts off b s) (\<lambda>(r, s). if r < 0 then Inl (Fatal msg) else Inr s)"

section \<open>Levels of the block tree\<close>

text \<open>
  \<^verbatim>\<open>treedisk_init\<close> computes the static \<^verbatim>\<open>log_rpb\<close> once: a do-while loop that increments it until
  \<^verbatim>\<open>(REFS_PER_BLOCK - 1) >> log_rpb\<close> is zero. Every other operation runs after it.
\<close>

function log_rpb_loop :: "nat \<Rightarrow> nat" where
  "log_rpb_loop n =
     (if drop_bit (Suc n) (REFS_PER_BLOCK - 1) \<noteq> 0 then log_rpb_loop (Suc n) else Suc n)"
  by pat_completeness auto
termination
proof (relation "measure (\<lambda>n. 128 - n)")
  fix n :: nat
  assume "drop_bit (Suc n) (REFS_PER_BLOCK - 1) \<noteq> 0"
  then have "2 ^ Suc n \<le> (127::nat)"
    by (simp add: drop_bit_eq_div layout_simps div_eq_0_iff del: power_Suc)
  moreover have "n < 2 ^ Suc n" by (metis less_exp Suc_lessD)
  ultimately have "n < 127" by linarith
  then show "(Suc n, n) \<in> measure (\<lambda>n. 128 - n)" by simp
qed simp

declare log_rpb_loop.simps [simp del]

definition log_rpb :: nat where "log_rpb = log_rpb_loop 0"

lemma log_rpb_eq [layout_simps]: "log_rpb = 7"
  by (simp add: log_rpb_def log_rpb_loop.simps layout_simps drop_bit_eq_div)

definition log_shift_r :: "u32 \<Rightarrow> nat \<Rightarrow> u32" where
  "log_shift_r x nbits = (if nbits \<ge> 32 then 0 else drop_bit nbits x)"

text \<open>The counting loop that \<^verbatim>\<open>treedisk_read\<close> and \<^verbatim>\<open>treedisk_write\<close> share; it starts at 0.\<close>

function levels_loop :: "u32 \<Rightarrow> nat \<Rightarrow> nat" where
  "levels_loop x n = (if log_shift_r x (n * log_rpb) \<noteq> 0 then levels_loop x (Suc n) else n)"
  by pat_completeness auto
termination
  by (relation "measure (\<lambda>(x, n). 5 - n)")
    (auto simp: log_shift_r_def layout_simps split: if_splits)

declare levels_loop.simps [simp del]

definition nlevels_of :: "u32 \<Rightarrow> nat" where
  "nlevels_of nblocks = (if nblocks > 0 then levels_loop (nblocks - 1) 0 else 0)"

definition ref_index :: "u32 \<Rightarrow> nat \<Rightarrow> nat" where
  "ref_index offset nlevels = unat (log_shift_r offset (nlevels * log_rpb)) mod REFS_PER_BLOCK"

section \<open>Operations\<close>

definition treedisk_get_snapshot ::
    "'s treedisk_state \<Rightarrow> u32 \<Rightarrow> 's \<Rightarrow> (treedisk_snapshot option \<times> 's) res" where
  "treedisk_get_snapshot ts inode_no s =
     bindE (below_read ts 0 s) (\<lambda>(r, s). case r of None \<Rightarrow> Inr (None, s) | Some sb \<Rightarrow>
     if unat inode_no \<ge> unat (n_inodeblocks sb) * INODES_PER_BLOCK then Inr (None, s) else
     let blkno = 1 + word_of_nat (unat inode_no div INODES_PER_BLOCK) in
     bindE (below_read ts blkno s) (\<lambda>(r, s). case r of None \<Rightarrow> Inr (None, s) | Some ib \<Rightarrow>
     Inr (Some \<lparr>superblock = sb, inodeblock = ib, inode_blockno = blkno,
                inode = unat inode_no mod INODES_PER_BLOCK\<rparr>, s)))"

text \<open>
  \<^verbatim>\<open>for (i = REFS_PER_BLOCK; --i > 0;) if (refs[i] != 0) break;\<close> leaves the highest index with a
  nonzero reference, or 0.
\<close>

fun scan_refs :: "block \<Rightarrow> nat \<Rightarrow> nat" where
  "scan_refs b 0 = 0"
| "scan_refs b (Suc i) = (if i = 0 then 0 else if get32 b i \<noteq> 0 then i else scan_refs b i)"

text \<open>
  \<^verbatim>\<open>treedisk_alloc_block\<close> ignores the status of its read: after a failed read it would scan an
  uninitialised stack buffer.
\<close>

definition treedisk_alloc_block ::
    "'s treedisk_state \<Rightarrow> treedisk_snapshot \<Rightarrow> 's \<Rightarrow> ((u32 \<times> treedisk_snapshot) \<times> 's) res" where
  "treedisk_alloc_block ts snap s =
     (let b = free_list (superblock snap) in
      if b = 0 then Inl (Fatal ''treedisk_alloc_block: inode store is full'') else
      bindE (below_read ts b s) (\<lambda>(r, s). case r of
        None \<Rightarrow> Inl (Undefined ''treedisk_alloc_block: scan of an unread buffer'')
      | Some fb \<Rightarrow>
        let i = scan_refs fb REFS_PER_BLOCK in
        if i = 0 then
          let snap = snap\<lparr>superblock := set_free_list (superblock snap) (get32 fb 0)\<rparr> in
          bindE (below_write_or_panic ts ''treedisk_alloc_block: superblock'' 0 (superblock snap) s)
            (\<lambda>s. Inr ((b, snap), s))
        else
          bindE (below_write_or_panic ts ''treedisk_alloc_block: freelistblock'' b (put32 fb i 0) s)
            (\<lambda>s. Inr ((get32 fb i, snap), s))))"

definition treedisk_getsize :: "'s treedisk_state \<Rightarrow> u32 \<Rightarrow> 's \<Rightarrow> (int \<times> 's) res" where
  "treedisk_getsize ts ino s =
     bindE (treedisk_get_snapshot ts ino s) (\<lambda>(r, s). case r of None \<Rightarrow> Inr (-1, s)
     | Some snap \<Rightarrow> Inr (sint (inode_nblocks (inodeblock snap) (inode snap)), s))"

definition treedisk_setsize :: "'s treedisk_state \<Rightarrow> u32 \<Rightarrow> u32 \<Rightarrow> 's \<Rightarrow> (int \<times> 's) res" where
  "treedisk_setsize ts ino nblocks s = Inr (-1, s)"

text \<open>The walk down from the root block; the recursion is on the levels left.\<close>

fun treedisk_read_walk :: "'s treedisk_state \<Rightarrow> u32 \<Rightarrow> nat \<Rightarrow> u32 \<Rightarrow> 's \<Rightarrow> (block option \<times> 's) res" where
  "treedisk_read_walk ts offset nlevels b s =
     (if b = 0 then Inr (Some null_block, s) else
      bindE (below_read ts b s) (\<lambda>(r, s). case r of None \<Rightarrow> Inr (None, s) | Some blk \<Rightarrow>
        (case nlevels of 0 \<Rightarrow> Inr (Some blk, s)
         | Suc n \<Rightarrow> treedisk_read_walk ts offset n (get32 blk (ref_index offset n)) s)))"

declare treedisk_read_walk.simps [simp del]

definition treedisk_read :: "'s treedisk_state \<Rightarrow> u32 \<Rightarrow> u32 \<Rightarrow> 's \<Rightarrow> (block option \<times> 's) res" where
  "treedisk_read ts ino offset s =
     bindE (treedisk_get_snapshot ts ino s) (\<lambda>(r, s). case r of None \<Rightarrow> Inr (None, s)
     | Some snap \<Rightarrow>
       let nblocks = inode_nblocks (inodeblock snap) (inode snap) in
       if offset \<ge> nblocks then Inr (None, s)
       else treedisk_read_walk ts offset (nlevels_of nblocks)
              (inode_root (inodeblock snap) (inode snap)) s)"

text \<open>The loop of \<^verbatim>\<open>treedisk_write\<close> that inserts indirect blocks above the root, \<open>k\<close> times.\<close>

fun treedisk_grow ::
    "'s treedisk_state \<Rightarrow> nat \<Rightarrow> treedisk_snapshot \<Rightarrow> 's \<Rightarrow> (treedisk_snapshot \<times> 's) res" where
  "treedisk_grow ts 0 snap s = Inr (snap, s)"
| "treedisk_grow ts (Suc k) snap s =
     bindE (treedisk_alloc_block ts snap s) (\<lambda>((indir, snap), s).
     let tib = put32 null_block 0 (inode_root (inodeblock snap) (inode snap));
         snap = snap\<lparr>inodeblock := set_inode_root (inodeblock snap) (inode snap) indir\<rparr> in
     bindE (below_write_or_panic ts ''treedisk_write: indirect block'' indir tib s) (\<lambda>s.
     treedisk_grow ts k snap s))"

text \<open>
  The walk of \<^verbatim>\<open>treedisk_write\<close>: \<^verbatim>\<open>*parent_no\<close> is cell \<open>pidx\<close> of \<open>pblk\<close>, which is kept on disk as block
  \<open>poff\<close>. It returns the number of the data block.
\<close>

fun treedisk_write_walk ::
    "'s treedisk_state \<Rightarrow> u32 \<Rightarrow> nat \<Rightarrow> block \<Rightarrow> nat \<Rightarrow> u32 \<Rightarrow> treedisk_snapshot \<Rightarrow> 's
       \<Rightarrow> (u32 \<times> 's) res" where
  "treedisk_write_walk ts offset nlevels pblk pidx poff snap s =
     (let b = get32 pblk pidx in
      if b = 0 then
        bindE (treedisk_alloc_block ts snap s) (\<lambda>((b, snap), s).
        bindE (below_write_or_panic ts ''treedisk_write: parent'' poff (put32 pblk pidx b) s) (\<lambda>s.
        (case nlevels of 0 \<Rightarrow> Inr (b, s)
         | Suc n \<Rightarrow> treedisk_write_walk ts offset n null_block (ref_index offset n) b snap s)))
      else
        (case nlevels of 0 \<Rightarrow> Inr (b, s)
         | Suc n \<Rightarrow>
           bindE (below_read ts b s) (\<lambda>(r, s). case r of
             None \<Rightarrow> Inl (Fatal ''treedisk_write'')
           | Some tib \<Rightarrow> treedisk_write_walk ts offset n tib (ref_index offset n) b snap s)))"

declare treedisk_write_walk.simps [simp del]

definition treedisk_write ::
    "'s treedisk_state \<Rightarrow> u32 \<Rightarrow> u32 \<Rightarrow> block \<Rightarrow> 's \<Rightarrow> (int \<times> 's) res" where
  "treedisk_write ts ino offset blk s =
     bindE (treedisk_get_snapshot ts ino s) (\<lambda>(r, s). case r of None \<Rightarrow> Inr (-1, s)
     | Some snap \<Rightarrow>
       let nblocks = inode_nblocks (inodeblock snap) (inode snap);
           nlevels = nlevels_of nblocks;
           extends = (offset \<ge> nblocks);
           snap = (if extends
                   then snap\<lparr>inodeblock := set_inode_nblocks (inodeblock snap) (inode snap) (offset + 1)\<rparr>
                   else snap);
           nlevels_after = (if extends then levels_loop offset 0 else nlevels);
           wrapped = (inode_nblocks (inodeblock snap) (inode snap) = 0);
           grows = (\<not> wrapped \<and> nlevels_after > nlevels);
           dirty_inode = (extends \<or> grows) in
       bindE (if grows then treedisk_grow ts (nlevels_after - nlevels) snap s else Inr (snap, s))
         (\<lambda>(snap, s).
       bindE (if dirty_inode
              then below_write_or_panic ts ''treedisk_write: inode block'' (inode_blockno snap)
                     (inodeblock snap) s
              else Inr s) (\<lambda>s.
       bindE (treedisk_write_walk ts offset
                (if wrapped \<or> grows then nlevels_after else nlevels)
                (inodeblock snap) (2 * inode snap) (inode_blockno snap) snap s) (\<lambda>(b, s).
       bindE (below_write_or_panic ts ''treedisk_write: data block'' b blk s) (\<lambda>s.
       Inr (0, s))))))"

definition treedisk_ops :: "'s treedisk_state \<Rightarrow> 's inode_store" where
  "treedisk_ops ts =
     \<lparr>getsize_fn = treedisk_getsize ts, setsize_fn = treedisk_setsize ts,
      read_fn = treedisk_read ts, write_fn = treedisk_write ts\<rparr>"

definition treedisk_init :: "'s inode_store \<Rightarrow> u32 \<Rightarrow> 's inode_store" where
  "treedisk_init blw blw_ino = treedisk_ops (treedisk_mk_state blw blw_ino)"

section \<open>Creating a file system\<close>

text \<open>
  The inner loop of \<^verbatim>\<open>setup_freelist\<close> fills cells \<open>i ..< REFS_PER_BLOCK\<close> with consecutive block
  numbers while they last, and with 0 after that.
\<close>

fun fill_freelist :: "nat \<Rightarrow> u32 \<Rightarrow> u32 \<Rightarrow> block \<Rightarrow> block \<times> u32" where
  "fill_freelist 0 next_free nblocks b = (b, next_free)"
| "fill_freelist (Suc k) next_free nblocks b =
     (if next_free < nblocks
      then fill_freelist k (next_free + 1) nblocks
             (put32 b (REFS_PER_BLOCK - Suc k) next_free)
      else fill_freelist k next_free nblocks (put32 b (REFS_PER_BLOCK - Suc k) 0))"

lemma fill_freelist_le: "next_free \<le> snd (fill_freelist k next_free nblocks b)"
proof (induction k arbitrary: next_free b)
  case (Suc k)
  have "next_free \<le> next_free + 1" if "next_free < nblocks"
    using that unat_Suc_word [OF that] by (simp add: word_le_nat_alt)
  then show ?case using Suc.IH by (auto intro: order_trans)
qed simp

text \<open>
  The C array \<^verbatim>\<open>freelist_data\<close> is reused by every iteration; all its cells are rewritten in each.
\<close>

function setup_freelist ::
    "'s treedisk_state \<Rightarrow> u32 \<Rightarrow> u32 \<Rightarrow> u32 \<Rightarrow> 's \<Rightarrow> (u32 \<times> 's) res" where
  "setup_freelist ts next_free nblocks freelist_block s =
     (if next_free < nblocks then
        let filled = fill_freelist (REFS_PER_BLOCK - 1) (next_free + 1) nblocks
                       (put32 null_block 0 freelist_block) in
        bindE (below_write_or_panic ts ''treedisk_setup_freelist'' next_free (fst filled) s) (\<lambda>s.
        setup_freelist ts (snd filled) nblocks next_free s)
      else Inr (freelist_block, s))"
  by pat_completeness auto
termination
proof (relation "measure (\<lambda>(ts, next_free, nblocks, fb, s). unat nblocks - unat next_free)", goal_cases)
  case (2 ts next_free nblocks freelist_block s filled s')
  have "unat (next_free + 1) = Suc (unat next_free)" using 2(1) by (rule unat_Suc_word)
  moreover have "next_free + 1 \<le> snd filled" unfolding 2(2) by (rule fill_freelist_le)
  ultimately show ?case using 2(1) by (auto simp: word_le_nat_alt word_less_nat_alt)
qed simp

declare setup_freelist.simps [simp del]

text \<open>The loop that clears inode blocks \<open>i, i + 1, \<dots>\<close>; \<open>k\<close> of them are left.\<close>

fun clear_inodeblocks :: "'s treedisk_state \<Rightarrow> nat \<Rightarrow> u32 \<Rightarrow> 's \<Rightarrow> (int \<times> 's) res" where
  "clear_inodeblocks ts 0 i s = Inr (0, s)"
| "clear_inodeblocks ts (Suc k) i s =
     bindE (below_write ts i null_block s) (\<lambda>(r, s).
     if r < 0 then Inr (-1, s) else clear_inodeblocks ts k (i + 1) s)"

definition treedisk_create :: "'s inode_store \<Rightarrow> u32 \<Rightarrow> u32 \<Rightarrow> 's \<Rightarrow> (int \<times> 's) res" where
  "treedisk_create blw blw_ino n_inodes s =
     (let ts = treedisk_mk_state blw blw_ino;
          n_ib = (word_of_nat ((unat n_inodes + INODES_PER_BLOCK - 1) div INODES_PER_BLOCK) :: u32) in
      bindE (getsize_fn blw blw_ino s) (\<lambda>(size, s).
      let nblocks = (word_of_int size :: u32) in
      if nblocks < n_ib + 2 then Inr (-1, s) else
      bindE (below_read ts 0 s) (\<lambda>(r, s). case r of None \<Rightarrow> Inr (-1, s) | Some sb \<Rightarrow>
      if n_inodeblocks sb = 0 then
        let sb = set_n_inodeblocks null_block n_ib in
        bindE (setup_freelist ts (n_ib + 1) nblocks 0 s) (\<lambda>(fl, s).
        let sb = set_free_list sb fl in
        bindE (below_write ts 0 sb s) (\<lambda>(r, s).
        if r < 0 then Inr (-1, s) else
        clear_inodeblocks ts (unat n_ib) 1 s))
      else Inr (0, s))))"

end
