(* ===== verification/Treedisk_Tree.thy ===== *)
theory Treedisk_Tree
  imports Treedisk
begin

text \<open>
  The mathematics of the treedisk layout, on a disk seen as a function from block numbers to
  blocks: the free list, the block tree of an inode, and the file that a tree stores. The
  abstraction of an inode is its size and the map from block offsets to contents, in which
  holes are null blocks.
\<close>

section \<open>Digits of an offset\<close>

lemma unat_shift_7: "unat (drop_bit (k * 7) (x :: u32)) = unat x div 128 ^ k"
proof -
  have "(2::nat) ^ (k * 7) = 128 ^ k" by (simp add: power_mult mult.commute [of k])
  then show ?thesis unfolding unat_drop_bit_eq by (simp add: drop_bit_eq_div)
qed

lemma ref_index_eq: "ref_index off k = unat off div 128 ^ k mod 128"
proof (cases "k * 7 \<ge> 32")
  case True
  then have "5 \<le> k" by simp
  then have "(128::nat) ^ 5 \<le> 128 ^ k" by (rule power_increasing) simp
  moreover have "unat off < 2 ^ 32" using unsigned_less [of off, where ?'a = nat] by simp
  ultimately have "unat off < 128 ^ k" by simp
  then show ?thesis using True by (simp add: ref_index_def log_shift_r_def layout_simps)
next
  case False
  then show ?thesis by (simp add: ref_index_def log_shift_r_def layout_simps unat_shift_7)
qed

lemma ref_index_less [simp]: "ref_index off k < REFS_PER_BLOCK"
  by (simp add: ref_index_eq layout_simps)

definition same_path :: "nat \<Rightarrow> u32 \<Rightarrow> u32 \<Rightarrow> bool" where
  "same_path n a b \<longleftrightarrow> (\<forall>k<n. ref_index a k = ref_index b k)"

lemma same_path_Suc: "same_path (Suc n) a b \<longleftrightarrow> same_path n a b \<and> ref_index a n = ref_index b n"
  by (auto simp: same_path_def less_Suc_eq)

lemma same_path_mod: "same_path n a b \<Longrightarrow> unat a mod 128 ^ n = unat b mod 128 ^ n"
proof (induction n)
  case (Suc n)
  have *: "x mod 128 ^ Suc n = 128 ^ n * (x div 128 ^ n mod 128) + x mod 128 ^ n" for x :: nat
    using mod_mult2_eq [of x "128 ^ n" 128] by (simp add: mult.commute)
  from Suc show ?case by (simp add: * same_path_Suc ref_index_eq del: power_Suc)
qed simp

lemma same_path_inj:
  "same_path n a b \<Longrightarrow> unat a < 128 ^ n \<Longrightarrow> unat b < 128 ^ n \<Longrightarrow> a = b"
  by (drule same_path_mod) (simp add: word_unat_eq_iff)

lemma ref_index_0_iff: "unat off < 128 ^ Suc n \<Longrightarrow> ref_index off n = 0 \<longleftrightarrow> unat off < 128 ^ n"
  by (simp add: ref_index_eq div_less_iff_less_mult mult.commute div_eq_0_iff)

text \<open>The level count is the least that reaches every offset below the size.\<close>

lemma levels_loop_bound: "unat x < 128 ^ levels_loop x n"
proof (induction x n rule: levels_loop.induct)
  case (1 x n)
  show ?case
  proof (cases "log_shift_r x (n * log_rpb) \<noteq> 0")
    case True
    with 1 show ?thesis by (simp add: levels_loop.simps [of x n])
  next
    case False
    have "unat x < 128 ^ n"
    proof (cases "n * 7 \<ge> 32")
      case True
      then have "(128::nat) ^ 5 \<le> 128 ^ n" by (intro power_increasing) simp_all
      then show ?thesis using unsigned_less [of x, where ?'a = nat] by simp
    next
      case nb: False
      with False have "drop_bit (n * 7) x = 0" by (simp add: log_shift_r_def layout_simps)
      then have "unat x div 128 ^ n = 0" by (metis unat_shift_7 unsigned_0)
      then show ?thesis by (simp add: div_eq_0_iff)
    qed
    with False show ?thesis by (simp add: levels_loop.simps [of x n])
  qed
qed

lemma levels_loop_least: "n \<le> m \<Longrightarrow> unat x < 128 ^ m \<Longrightarrow> levels_loop x n \<le> m"
proof (induction x n rule: levels_loop.induct)
  case (1 x n)
  show ?case
  proof (cases "log_shift_r x (n * log_rpb) \<noteq> 0")
    case True
    then have "n * 7 < 32" and nz: "drop_bit (n * 7) x \<noteq> 0"
      by (auto simp: log_shift_r_def layout_simps split: if_splits)
    from nz have "unat x div 128 ^ n \<noteq> 0" by (metis unat_shift_7 unat_eq_0)
    then have "\<not> unat x < 128 ^ n" by (simp add: div_eq_0_iff)
    with 1(3) have "n \<noteq> m" by auto
    with 1 True have "levels_loop x (Suc n) \<le> m" by simp
    with True show ?thesis by (simp add: levels_loop.simps [of x n])
  next
    case False
    with 1 show ?thesis by (simp add: levels_loop.simps [of x n])
  qed
qed

lemma levels_loop_mono: "x \<le> y \<Longrightarrow> levels_loop x 0 \<le> levels_loop y 0"
  by (rule levels_loop_least) (auto simp: word_le_nat_alt intro: le_less_trans levels_loop_bound)

lemma levels_loop_le_5: "levels_loop x 0 \<le> 5"
  using unsigned_less [of x, where ?'a = nat] by (intro levels_loop_least) simp_all

lemma nlevels_of_bound: "off < nblocks \<Longrightarrow> unat off < 128 ^ nlevels_of nblocks"
proof -
  assume less: "off < nblocks"
  then have pos: "0 < nblocks" using word_neq_0_conv not_less0 by (metis word_not_simps(1))
  then have "unat (nblocks - 1) = unat nblocks - 1"
    by (metis unat_minus_one word_greater_zero_iff)
  moreover have "unat off < unat nblocks" using less by (simp add: word_less_nat_alt)
  ultimately have "unat off \<le> unat (nblocks - 1)" by simp
  then show ?thesis using pos levels_loop_bound [of "nblocks - 1" 0]
    by (simp add: nlevels_of_def le_less_trans)
qed

lemma nlevels_of_le_5: "nlevels_of nblocks \<le> 5"
  by (simp add: nlevels_of_def levels_loop_le_5)

lemma nlevels_of_plus_1: "offset + 1 \<noteq> 0 \<Longrightarrow> nlevels_of (offset + 1) = levels_loop offset 0"
  by (simp add: nlevels_of_def word_neq_0_conv)

lemma nlevels_of_extend:
  assumes "nblocks \<le> offset"
  shows "nlevels_of nblocks \<le> levels_loop offset 0"
proof (cases "nblocks = 0")
  case False
  then have "unat (nblocks - 1) = unat nblocks - 1" by (rule unat_minus_one)
  then have "nblocks - 1 \<le> offset" using assms by (simp add: word_le_nat_alt)
  then show ?thesis using False by (auto simp: nlevels_of_def intro: levels_loop_mono)
qed (simp add: nlevels_of_def)

section \<open>Block trees\<close>

type_synonym disk_fn = "u32 \<Rightarrow> block"

text \<open>All blocks of the tree of height \<open>n\<close> below reference \<open>r\<close>, in walk order.\<close>

primrec tree_blocks :: "disk_fn \<Rightarrow> nat \<Rightarrow> u32 \<Rightarrow> u32 list" where
  "tree_blocks d 0 r = (if r = 0 then [] else [r])"
| "tree_blocks d (Suc n) r =
     (if r = 0 then []
      else r # concat (map (\<lambda>i. tree_blocks d n (get32 (d r) i)) [0..<REFS_PER_BLOCK]))"

text \<open>What a walk to \<open>off\<close> finds: the number of the data block (0 for a hole), and its contents.\<close>

primrec tree_leaf :: "disk_fn \<Rightarrow> nat \<Rightarrow> u32 \<Rightarrow> u32 \<Rightarrow> u32" where
  "tree_leaf d 0 r off = r"
| "tree_leaf d (Suc n) r off = (if r = 0 then 0 else tree_leaf d n (get32 (d r) (ref_index off n)) off)"

definition tree_read :: "disk_fn \<Rightarrow> nat \<Rightarrow> u32 \<Rightarrow> u32 \<Rightarrow> block" where
  "tree_read d n r off = (if tree_leaf d n r off = 0 then null_block else d (tree_leaf d n r off))"

lemma tree_blocks_0 [simp]: "tree_blocks d n 0 = []"
  by (cases n) auto

lemma tree_leaf_0 [simp]: "tree_leaf d n 0 off = 0"
  by (cases n) auto

lemma tree_read_0 [simp]: "tree_read d n 0 off = null_block"
  by (simp add: tree_read_def)

lemma tree_read_Suc:
  "r \<noteq> 0 \<Longrightarrow> tree_read d (Suc n) r off = tree_read d n (get32 (d r) (ref_index off n)) off"
  by (simp add: tree_read_def)

lemma tree_blocks_child_subset:
  "r \<noteq> 0 \<Longrightarrow> i < REFS_PER_BLOCK \<Longrightarrow> set (tree_blocks d n (get32 (d r) i)) \<subseteq> set (tree_blocks d (Suc n) r)"
  by auto

lemma tree_root_in: "r \<noteq> 0 \<Longrightarrow> r \<in> set (tree_blocks d n r)"
  by (cases n) auto

lemma tree_leaf_in: "tree_leaf d n r off \<noteq> 0 \<Longrightarrow> tree_leaf d n r off \<in> set (tree_blocks d n r)"
proof (induction n arbitrary: r)
  case (Suc n)
  then have "r \<noteq> 0" by auto
  with Suc tree_blocks_child_subset [OF this, of "ref_index off n" d n] show ?case by auto
qed auto

lemma tree_blocks_nonzero: "0 \<notin> set (tree_blocks d n r)"
  by (induction n arbitrary: r) auto

lemma tree_blocks_cong:
  "(\<And>b. b \<in> set (tree_blocks d n r) \<Longrightarrow> d' b = d b) \<Longrightarrow> tree_blocks d' n r = tree_blocks d n r"
proof (induction n arbitrary: r)
  case (Suc n)
  show ?case
  proof (cases "r = 0")
    case False
    then have "d' r = d r" using Suc.prems by simp
    moreover have "tree_blocks d' n (get32 (d r) i) = tree_blocks d n (get32 (d r) i)" if "i < REFS_PER_BLOCK" for i
      using Suc.prems tree_blocks_child_subset [OF False that, of d n] by (intro Suc.IH) blast
    then have "map (\<lambda>i. tree_blocks d' n (get32 (d r) i)) [0..<REFS_PER_BLOCK]
        = map (\<lambda>i. tree_blocks d n (get32 (d r) i)) [0..<REFS_PER_BLOCK]"
      by (intro map_upt_cong)
    ultimately show ?thesis using False by (simp del: map_eq_conv)
  qed simp
qed simp

lemma tree_leaf_cong:
  "(\<And>b. b \<in> set (tree_blocks d n r) \<Longrightarrow> d' b = d b) \<Longrightarrow> tree_leaf d' n r off = tree_leaf d n r off"
proof (induction n arbitrary: r)
  case (Suc n)
  show ?case
  proof (cases "r = 0")
    case False
    then have "d' r = d r" using Suc.prems by simp
    moreover have "tree_leaf d' n (get32 (d r) (ref_index off n)) off
        = tree_leaf d n (get32 (d r) (ref_index off n)) off"
      using Suc.prems tree_blocks_child_subset [OF False ref_index_less, of d n]
      by (intro Suc.IH) blast
    ultimately show ?thesis using False by simp
  qed simp
qed simp

lemma tree_read_cong:
  assumes "\<And>b. b \<in> set (tree_blocks d n r) \<Longrightarrow> d' b = d b"
  shows "tree_read d' n r off = tree_read d n r off"
proof -
  have "tree_leaf d' n r off = tree_leaf d n r off" by (rule tree_leaf_cong) (rule assms)
  then show ?thesis using assms tree_leaf_in [of d n r off] by (simp add: tree_read_def)
qed

text \<open>Two children of a node whose tree has no repeated block are disjoint.\<close>

lemma distinct_concat_map_upt:
  "distinct (concat (map f [0..<n])) \<Longrightarrow> i < n \<Longrightarrow> j < n \<Longrightarrow> i \<noteq> j \<Longrightarrow> set (f i) \<inter> set (f j) = {}"
proof (induction n)
  case (Suc n)
  have last: "set (f k) \<inter> set (f n) = {}" if "k < n" for k
    using Suc.prems(1) that by fastforce
  consider "i < n" "j < n" | "i = n" "j < n" | "i < n" "j = n"
    using Suc.prems(2-4) by (auto simp: less_Suc_eq)
  then show ?case
  proof cases
    case 1
    with Suc show ?thesis by simp
  next
    case 2
    with last [of j] show ?thesis by blast
  next
    case 3
    with last [of i] show ?thesis by blast
  qed
qed simp

lemma distinct_concat_map_upt_each:
  "distinct (concat (map f [0..<n])) \<Longrightarrow> i < n \<Longrightarrow> distinct (f i)"
  by (auto simp: distinct_concat_iff)

lemma tree_child_distinct:
  assumes "distinct (tree_blocks d (Suc n) r)" and "r \<noteq> 0" and "i < REFS_PER_BLOCK"
  shows "distinct (tree_blocks d n (get32 (d r) i))" and "r \<notin> set (tree_blocks d n (get32 (d r) i))"
  using assms distinct_concat_map_upt_each [of "\<lambda>i. tree_blocks d n (get32 (d r) i)" REFS_PER_BLOCK i] by auto

lemma tree_path_facts:
  assumes "distinct (tree_blocks d (Suc n) r)" and "tree_leaf d (Suc n) r off = b" and "b \<noteq> 0"
  shows "r \<noteq> 0"
    and "tree_leaf d n (get32 (d r) (ref_index off n)) off = b"
    and "b \<noteq> r"
    and "\<And>j. j < REFS_PER_BLOCK \<Longrightarrow> j \<noteq> ref_index off n \<Longrightarrow> b \<notin> set (tree_blocks d n (get32 (d r) j))"
    and "distinct (tree_blocks d n (get32 (d r) (ref_index off n)))"
proof -
  let ?i = "ref_index off n"
  show r: "r \<noteq> 0" using assms by auto
  then show c: "tree_leaf d n (get32 (d r) ?i) off = b" using assms by simp
  then have b_in: "b \<in> set (tree_blocks d n (get32 (d r) ?i))"
    using tree_leaf_in \<open>b \<noteq> 0\<close> by metis
  then show "b \<noteq> r" using tree_child_distinct(2) [OF assms(1) r, of ?i] by auto
  have dist: "distinct (concat (map (\<lambda>j. tree_blocks d n (get32 (d r) j)) [0..<REFS_PER_BLOCK]))"
    using assms(1) r by simp
  show "b \<notin> set (tree_blocks d n (get32 (d r) j))" if "j < REFS_PER_BLOCK" "j \<noteq> ?i" for j
    using distinct_concat_map_upt [OF dist that(1) ref_index_less that(2)] b_in by blast
  show "distinct (tree_blocks d n (get32 (d r) ?i))"
    using tree_child_distinct(1) [OF assms(1) r] by simp
qed

text \<open>Storing into the data block that a walk reaches changes this one file block only.\<close>

lemma leaf_write_blocks:
  "distinct (tree_blocks d n r) \<Longrightarrow> tree_leaf d n r off = b \<Longrightarrow> b \<noteq> 0 \<Longrightarrow>
     tree_blocks (d(b := x)) n r = tree_blocks d n r"
proof (induction n arbitrary: r)
  case (Suc n)
  note f = tree_path_facts [OF Suc.prems]
  have "tree_blocks (d(b := x)) n (get32 (d r) j) = tree_blocks d n (get32 (d r) j)" if "j < REFS_PER_BLOCK" for j
  proof (cases "j = ref_index off n")
    case True
    show ?thesis unfolding True by (rule Suc.IH [OF f(5,2) Suc.prems(3)])
  next
    case False
    then show ?thesis using f(4) [OF that False] by (intro tree_blocks_cong) auto
  qed
  then have "map (\<lambda>j. tree_blocks (d(b := x)) n (get32 (d r) j)) [0..<REFS_PER_BLOCK]
      = map (\<lambda>j. tree_blocks d n (get32 (d r) j)) [0..<REFS_PER_BLOCK]"
    by (intro map_upt_cong)
  then show ?case using f(1,3) by (simp add: fun_upd_other del: map_eq_conv fun_upd_apply)
qed simp

lemma leaf_write_leaf:
  "distinct (tree_blocks d n r) \<Longrightarrow> tree_leaf d n r off = b \<Longrightarrow> b \<noteq> 0 \<Longrightarrow>
     tree_leaf (d(b := x)) n r off' = tree_leaf d n r off'"
proof (induction n arbitrary: r)
  case (Suc n)
  note f = tree_path_facts [OF Suc.prems]
  have "tree_leaf (d(b := x)) n (get32 (d r) (ref_index off' n)) off'
      = tree_leaf d n (get32 (d r) (ref_index off' n)) off'"
  proof (cases "ref_index off' n = ref_index off n")
    case True
    show ?thesis unfolding True by (rule Suc.IH [OF f(5,2) Suc.prems(3)])
  next
    case False
    then show ?thesis using f(4) [OF ref_index_less False] by (intro tree_leaf_cong) auto
  qed
  then show ?case using f(1,3) by (simp add: fun_upd_other del: fun_upd_apply)
qed simp

lemma leaf_other_path:
  "distinct (tree_blocks d n r) \<Longrightarrow> tree_leaf d n r off = b \<Longrightarrow> b \<noteq> 0 \<Longrightarrow>
     \<not> same_path n off' off \<Longrightarrow> tree_leaf d n r off' \<noteq> b"
proof (induction n arbitrary: r)
  case (Suc n)
  note f = tree_path_facts [OF Suc.prems(1-3)]
  show ?case
  proof (cases "ref_index off' n = ref_index off n")
    case True
    then have "\<not> same_path n off' off" using Suc.prems(4) by (simp add: same_path_Suc)
    then show ?thesis using True Suc.IH [OF f(5,2) Suc.prems(3)] f(1) by simp
  next
    case False
    note nin = f(4) [OF ref_index_less False]
    show ?thesis
    proof
      assume "tree_leaf d (Suc n) r off' = b"
      then have "tree_leaf d n (get32 (d r) (ref_index off' n)) off' = b" using f(1) by simp
      then show False using nin tree_leaf_in Suc.prems(3) by metis
    qed
  qed
qed (simp add: same_path_def)

lemma leaf_write_read:
  assumes "distinct (tree_blocks d n r)" and "tree_leaf d n r off = b" and "b \<noteq> 0"
  shows "tree_read (d(b := x)) n r off = x"
    and "\<not> same_path n off' off \<Longrightarrow> tree_read (d(b := x)) n r off' = tree_read d n r off'"
  using assms leaf_write_leaf [OF assms] leaf_other_path [OF assms]
  by (auto simp: tree_read_def)

text \<open>Replacing one reference of an indirect block replaces one subtree.\<close>

lemma tree_child_replace:
  assumes r: "r \<noteq> 0" and i: "i < REFS_PER_BLOCK" and len: "length (d r) = 512"
    and upd: "d' r = put32 (d r) i c"
    and keep: "\<And>b. b \<in> (\<Union>j \<in> {..<REFS_PER_BLOCK} - {i}. set (tree_blocks d n (get32 (d r) j))) \<Longrightarrow>
        d' b = d b"
  shows "mset (tree_blocks d' (Suc n) r) + mset (tree_blocks d n (get32 (d r) i))
      = mset (tree_blocks d (Suc n) r) + mset (tree_blocks d' n c)"
    and "tree_leaf d' (Suc n) r off =
      (if ref_index off n = i then tree_leaf d' n c off else tree_leaf d (Suc n) r off)"
    and "ref_index off n \<noteq> i \<Longrightarrow> tree_read d' (Suc n) r off = tree_read d (Suc n) r off"
proof -
  have frame: "d' b = d b"
    if "j < REFS_PER_BLOCK" "j \<noteq> i" "b \<in> set (tree_blocks d n (get32 (d r) j))" for j b
    using that by (intro keep) blast
  have ci: "get32 (d' r) i = c"
    using i len by (simp add: upd get32_put32_same layout_simps)
  have cj: "get32 (d' r) j = get32 (d r) j" if "j \<noteq> i" for j
    using that by (simp add: upd get32_put32_other)
  have same: "tree_blocks d' n (get32 (d' r) j) = tree_blocks d n (get32 (d r) j)"
    if "j < REFS_PER_BLOCK" "j \<noteq> i" for j
    unfolding cj [OF that(2)] by (rule tree_blocks_cong) (rule frame [OF that])
  from mset_concat_map_upt_update [OF i, of "\<lambda>j. tree_blocks d' n (get32 (d' r) j)"
      "\<lambda>j. tree_blocks d n (get32 (d r) j)", OF same]
  show "mset (tree_blocks d' (Suc n) r) + mset (tree_blocks d n (get32 (d r) i))
      = mset (tree_blocks d (Suc n) r) + mset (tree_blocks d' n c)"
    using r ci by simp
  have lj: "tree_leaf d' n (get32 (d r) (ref_index off n)) off
      = tree_leaf d n (get32 (d r) (ref_index off n)) off" if "ref_index off n \<noteq> i"
    by (rule tree_leaf_cong) (rule frame [OF ref_index_less that])
  then show "tree_leaf d' (Suc n) r off =
      (if ref_index off n = i then tree_leaf d' n c off else tree_leaf d (Suc n) r off)"
    using r ci cj by auto
  show "tree_read d' (Suc n) r off = tree_read d (Suc n) r off" if "ref_index off n \<noteq> i"
    unfolding tree_read_Suc [OF r] cj [OF that]
    by (rule tree_read_cong) (rule frame [OF ref_index_less that])
qed

text \<open>A root of null cells has no subtree.\<close>

lemma tree_null_root:
  assumes "r \<noteq> 0" and "d r = null_block"
  shows "tree_blocks d (Suc n) r = [r]" and "tree_leaf d (Suc n) r off = 0"
proof -
  have "get32 null_block i = 0" if "i < REFS_PER_BLOCK" for i
    using that by (simp add: layout_simps)
  then have "concat (map (\<lambda>i. tree_blocks d n (get32 null_block i)) [0..<REFS_PER_BLOCK]) = []"
    by (intro concat_map_Nil) simp
  then show "tree_blocks d (Suc n) r = [r]" using assms by simp
  show "tree_leaf d (Suc n) r off = 0" using assms by (simp add: layout_simps ref_index_eq)
qed

section \<open>The file of a tree\<close>

text \<open>
  The blocks of a file of any size: a tree of height \<open>n\<close> reaches the offsets below \<open>128 ^ n\<close>, and
  the others are holes.
\<close>

definition tree_file :: "disk_fn \<Rightarrow> nat \<Rightarrow> u32 \<Rightarrow> u32 \<Rightarrow> block" where
  "tree_file d n r off = (if unat off < 128 ^ n then tree_read d n r off else null_block)"

text \<open>A new root whose first reference is the old root stores the same file.\<close>

lemma tree_grow:
  assumes "indir \<noteq> 0" and "d' indir = put32 null_block 0 r"
    and frame: "\<And>b. b \<in> set (tree_blocks d n r) \<Longrightarrow> d' b = d b"
  shows "mset (tree_blocks d' (Suc n) indir) = add_mset indir (mset (tree_blocks d n r))"
    and "tree_file d' (Suc n) indir = tree_file d n r"
proof -
  let ?d = "d'(indir := null_block)"
  note null = tree_null_root [OF assms(1), of ?d n]
  have "get32 null_block j = 0" if "j < REFS_PER_BLOCK" for j
    using that by (simp add: layout_simps)
  then have hyps: "(0::nat) < REFS_PER_BLOCK" "length (?d indir) = 512" "d' indir = put32 (?d indir) 0 r"
    "\<And>b. b \<in> (\<Union>j \<in> {..<REFS_PER_BLOCK} - {0}. set (tree_blocks ?d n (get32 (?d indir) j))) \<Longrightarrow> d' b = ?d b"
    using assms(2) by (auto simp: layout_simps)
  note rep = tree_child_replace [where d = ?d and d' = d' and i = 0 and c = r and n = n,
      OF assms(1) hyps]
  have same: "tree_blocks d' n r = tree_blocks d n r" by (rule tree_blocks_cong) (rule frame)
  show "mset (tree_blocks d' (Suc n) indir) = add_mset indir (mset (tree_blocks d n r))"
    using rep(1) null(1) same by (simp add: layout_simps del: tree_blocks.simps)
  show "tree_file d' (Suc n) indir = tree_file d n r"
  proof
    fix off
    show "tree_file d' (Suc n) indir off = tree_file d n r off"
    proof (cases "unat off < 128 ^ n")
      case True
      then have "unat off < 128 ^ Suc n" by simp
      moreover from True this have "ref_index off n = 0" by (simp only: ref_index_0_iff)
      moreover have "tree_read d' n r off = tree_read d n r off" by (rule tree_read_cong) (rule frame)
      ultimately show ?thesis using True assms(2)
        by (simp add: tree_file_def tree_read_Suc [OF assms(1)] get32_put32_same layout_simps)
    next
      case False
      have "tree_read d' (Suc n) indir off = null_block" if "unat off < 128 ^ Suc n"
      proof -
        have "ref_index off n \<noteq> 0" using that False by (simp only: ref_index_0_iff) simp
        then have "tree_leaf d' (Suc n) indir off = 0" using rep(2) null(2) by (simp del: tree_leaf.simps)
        then show ?thesis by (simp add: tree_read_def del: tree_leaf.simps)
      qed
      then show ?thesis using False by (simp add: tree_file_def del: power_Suc)
    qed
  qed
qed

section \<open>The free list\<close>

primrec free_chain :: "disk_fn \<Rightarrow> u32 \<Rightarrow> u32 list \<Rightarrow> bool" where
  "free_chain d r [] \<longleftrightarrow> r = 0"
| "free_chain d r (b # bs) \<longleftrightarrow> r = b \<and> b \<noteq> 0 \<and> free_chain d (get32 (d b) 0) bs"

definition free_cells :: "block \<Rightarrow> u32 list" where
  "free_cells b = filter (\<lambda>x. x \<noteq> 0) (map (get32 b) [1..<REFS_PER_BLOCK])"

definition free_blocks :: "disk_fn \<Rightarrow> u32 list \<Rightarrow> u32 list" where
  "free_blocks d bs = concat (map (\<lambda>b. b # free_cells (d b)) bs)"

lemma free_blocks_simps [simp]:
  "free_blocks d [] = []"
  "free_blocks d (b # bs) = b # free_cells (d b) @ free_blocks d bs"
  by (simp_all add: free_blocks_def)

lemma free_chain_subset: "set bs \<subseteq> set (free_blocks d bs)"
  by (induction bs) auto

lemma free_chain_cong:
  "(\<And>b. b \<in> set bs \<Longrightarrow> d' b = d b) \<Longrightarrow> free_chain d' r bs = free_chain d r bs"
  by (induction bs arbitrary: r) auto

lemma free_blocks_cong:
  "(\<And>b. b \<in> set bs \<Longrightarrow> d' b = d b) \<Longrightarrow> free_blocks d' bs = free_blocks d bs"
  by (induction bs) auto

lemma free_chain_nonzero: "free_chain d r bs \<Longrightarrow> 0 \<notin> set bs"
  by (induction bs arbitrary: r) auto

lemma free_blocks_nonzero: "free_chain d r bs \<Longrightarrow> 0 \<notin> set (free_blocks d bs)"
  by (induction bs arbitrary: r) (auto simp: free_cells_def)

lemma free_blocks_Nil_iff: "free_blocks d bs = [] \<longleftrightarrow> bs = []"
  by (cases bs) auto

lemma scan_refs_zero: "scan_refs b n = 0 \<Longrightarrow> 0 < i \<Longrightarrow> i < n \<Longrightarrow> get32 b i = 0"
  by (induction n) (auto split: if_splits simp: less_Suc_eq)

lemma scan_refs_found:
  "scan_refs b n \<noteq> 0 \<Longrightarrow> scan_refs b n < n \<and> get32 b (scan_refs b n) \<noteq> 0"
  by (induction n) (auto split: if_splits)

lemma scan_none_cells: "scan_refs b REFS_PER_BLOCK = 0 \<Longrightarrow> free_cells b = []"
  by (auto simp: free_cells_def filter_empty_conv Suc_le_eq dest: scan_refs_zero)

lemma take_free_cell:
  assumes "0 < i" and "i < REFS_PER_BLOCK" and "get32 b i \<noteq> 0" and "length b = 512"
  shows "mset (free_cells b) = add_mset (get32 b i) (mset (free_cells (put32 b i 0)))"
proof -
  have split: "[1..<REFS_PER_BLOCK] = [1..<i] @ i # [Suc i..<REFS_PER_BLOCK]"
    using assms(1,2) upt_add_eq_append [of 1 i "REFS_PER_BLOCK - i"] by (simp add: upt_conv_Cons)
  have "map (get32 (put32 b i 0)) [1..<i] = map (get32 b) [1..<i]"
    and "map (get32 (put32 b i 0)) [Suc i..<REFS_PER_BLOCK] = map (get32 b) [Suc i..<REFS_PER_BLOCK]"
    by (simp_all add: get32_put32_other)
  moreover have "get32 (put32 b i 0) i = 0"
    using assms by (simp add: get32_put32_same layout_simps)
  ultimately show ?thesis using assms(3) unfolding free_cells_def split
    by (simp del: map_eq_conv)
qed

lemma put32_next_kept: "0 < i \<Longrightarrow> get32 (put32 b i v) 0 = get32 b 0"
  by (simp add: get32_put32_other)

end
