(* ===== verification/Treedisk_Correct.thy ===== *)
theory Treedisk_Correct
  imports Treedisk_Tree
begin

text \<open>
  Correctness of treedisk on any store that keeps the writable-store contract. The invariant
  \<open>fs_ok\<close> says that the free list and the block trees of all inodes never share a block; under
  it \<open>treedisk_read\<close> and \<open>treedisk_write\<close> implement an array of files, each a size and a map from
  offsets to blocks.
\<close>

section \<open>Invariants\<close>

text \<open>
  The free list chained through \<open>bs\<close> is disjoint from the blocks \<open>us\<close> in use, without repetition,
  and every block number is in range.
\<close>

definition heap_ok :: "nat \<Rightarrow> disk_fn \<Rightarrow> u32 list \<Rightarrow> u32 list \<Rightarrow> bool" where
  "heap_ok N d bs us \<longleftrightarrow>
     free_chain d (free_list (d 0)) bs \<and> distinct (free_blocks d bs @ us) \<and>
     (\<forall>b \<in> set (free_blocks d bs) \<union> set us. b \<noteq> 0 \<and> unat b < N)"

lemma heap_ok_perm: "mset us = mset us' \<Longrightarrow> heap_ok N d bs us \<longleftrightarrow> heap_ok N d bs us'"
  unfolding heap_ok_def
  by (metis mset_append mset_eq_setD mset_eq_imp_distinct_iff)

text \<open>Moving blocks between the free list and the blocks in use keeps the invariant.\<close>

lemma heap_ok_mset:
  assumes "heap_ok N d bs us" and "free_chain d' (free_list (d' 0)) bs'"
    and "mset (free_blocks d' bs') + mset us' = mset (free_blocks d bs) + mset us"
  shows "heap_ok N d' bs' us'"
proof -
  have m: "mset (free_blocks d bs @ us) = mset (free_blocks d' bs' @ us')" using assms(3) by simp
  then have "set (free_blocks d bs) \<union> set us = set (free_blocks d' bs') \<union> set us'"
    by (metis mset_eq_setD set_append)
  then show ?thesis
    using assms(1,2) mset_eq_imp_distinct_iff [OF m] unfolding heap_ok_def by metis
qed

lemma mset_exchange:
  fixes T T' F F' C C' :: "'a multiset"
  assumes "T' + C = T + C'" and "F' + C' = F + C"
  shows "F' + T' = F + T"
proof -
  have "(F' + T') + C = F' + (T + C')" using assms(1) by (simp only: add.assoc)
  also have "\<dots> = (F' + C') + T" by (simp only: ac_simps)
  also have "\<dots> = (F + T) + C" unfolding assms(2) by (simp only: ac_simps)
  finally show ?thesis by (rule add_right_imp_eq)
qed

lemma heap_okD:
  assumes "heap_ok N d bs us"
  shows "free_chain d (free_list (d 0)) bs" and "distinct (free_blocks d bs)" and "distinct us"
    and "\<And>b. b \<in> set us \<Longrightarrow> b \<notin> set (free_blocks d bs)"
    and "\<And>b. b \<in> set (free_blocks d bs) \<Longrightarrow> b \<noteq> 0 \<and> unat b < N"
    and "\<And>b. b \<in> set us \<Longrightarrow> b \<noteq> 0 \<and> unat b < N"
  using assms by (auto simp: heap_ok_def)

text \<open>Writing a block that is neither the superblock nor on the free list keeps the free list.\<close>

lemma heap_ok_frame:
  assumes "heap_ok N d bs us" and "d' 0 = d 0" and "\<And>b. b \<in> set (free_blocks d bs) \<Longrightarrow> d' b = d b"
  shows "heap_ok N d' bs us" and "free_blocks d' bs = free_blocks d bs"
proof -
  have eq: "d' b = d b" if "b \<in> set bs" for b using that assms(3) free_chain_subset by blast
  have "free_chain d' r bs = free_chain d r bs" for r using eq by (rule free_chain_cong)
  moreover show fb: "free_blocks d' bs = free_blocks d bs" using eq by (rule free_blocks_cong)
  ultimately show "heap_ok N d' bs us" using assms(1,2) by (simp add: heap_ok_def)
qed

section \<open>The effect of a walk that writes\<close>

text \<open>
  What the walk of a write leaves behind: reference \<open>idx\<close> of the parent \<open>P\<close> (kept at block \<open>p\<close>) now
  leads to the leaf \<open>b\<close>, blocks only moved from the free list into the subtree, and every other
  block and every other path of the subtree is as before.
\<close>

definition subtree_written ::
    "nat \<Rightarrow> u32 \<Rightarrow> u32 \<Rightarrow> block \<Rightarrow> nat \<Rightarrow> disk_fn \<Rightarrow> u32 list \<Rightarrow> disk_fn \<Rightarrow> u32 list \<Rightarrow> u32 \<Rightarrow> bool" where
  "subtree_written n off p P idx d bs d' bs' b \<longleftrightarrow>
     (\<exists>r. r \<noteq> 0 \<and> d' p = put32 P idx r \<and> b \<noteq> 0 \<and> tree_leaf d' n r off = b \<and>
        free_chain d' (free_list (d' 0)) bs' \<and>
        mset (free_blocks d' bs') + mset (tree_blocks d' n r)
          = mset (free_blocks d bs) + mset (tree_blocks d n (get32 P idx)) \<and>
        (\<forall>x. x \<noteq> 0 \<longrightarrow> x \<noteq> p \<longrightarrow> x \<notin> set (free_blocks d bs) \<longrightarrow>
           x \<notin> set (tree_blocks d n (get32 P idx)) \<longrightarrow> d' x = d x) \<and>
        (\<forall>off'. \<not> same_path n off' off \<longrightarrow>
           tree_read d' n r off' = tree_read d n (get32 P idx) off') \<and>
        n_inodeblocks (d' 0) = n_inodeblocks (d 0) \<and>
        length (free_blocks d bs) \<le> length (free_blocks d' bs') + Suc n)"

text \<open>An existing indirect block \<open>r\<close> whose subtree on the path was written.\<close>

lemma subtree_written_step:
  assumes heap: "heap_ok N d bs (tree_blocks d (Suc n) r @ us)"
    and r: "r \<noteq> 0" "get32 P idx = r" and p: "p \<in> set us" "d p = P" and len: "length (d r) = 512"
    and sub: "subtree_written n off r (d r) (ref_index off n) d bs d' bs' b"
  shows "subtree_written (Suc n) off p P idx d bs d' bs' b"
proof -
  let ?i = "ref_index off n"
  let ?ch = "\<lambda>j. tree_blocks d n (get32 (d r) j)"
  obtain c where c: "c \<noteq> 0" "d' r = put32 (d r) ?i c" "b \<noteq> 0" "tree_leaf d' n c off = b"
    "free_chain d' (free_list (d' 0)) bs'"
    "mset (free_blocks d' bs') + mset (tree_blocks d' n c) = mset (free_blocks d bs) + mset (?ch ?i)"
    "\<And>x. x \<noteq> 0 \<Longrightarrow> x \<noteq> r \<Longrightarrow> x \<notin> set (free_blocks d bs) \<Longrightarrow> x \<notin> set (?ch ?i) \<Longrightarrow> d' x = d x"
    "\<And>off'. \<not> same_path n off' off \<Longrightarrow> tree_read d' n c off' = tree_read d n (get32 (d r) ?i) off'"
    "n_inodeblocks (d' 0) = n_inodeblocks (d 0)"
    "length (free_blocks d bs) \<le> length (free_blocks d' bs') + Suc n"
    using sub unfolding subtree_written_def by blast
  note h = heap_okD [OF heap]
  have dist: "distinct (r # concat (map ?ch [0..<REFS_PER_BLOCK]))" using h(3) r(1) by simp
  have frame: "d' x = d x" if "x \<in> (\<Union>j \<in> {..<REFS_PER_BLOCK} - {?i}. set (?ch j))" (is ?x) for x
  proof (rule c(7))
    obtain j where j: "j < REFS_PER_BLOCK" "j \<noteq> ?i" and x: "x \<in> set (?ch j)" using \<open>?x\<close> by blast
    have "x \<in> set (tree_blocks d (Suc n) r)" using tree_blocks_child_subset [OF r(1) j(1)] x by blast
    then show "x \<notin> set (free_blocks d bs)" using h(4) [of x] by simp
    show "x \<noteq> 0" using x tree_blocks_nonzero by metis
    show "x \<noteq> r" using tree_child_distinct(2) [OF _ r(1) j(1)] dist r(1) x by auto
    show "x \<notin> set (?ch ?i)"
      using distinct_concat_map_upt [of ?ch REFS_PER_BLOCK j ?i] dist j x by auto
  qed
  note rep = tree_child_replace [where d = d and d' = d' and n = n, OF r(1) ref_index_less len c(2) frame]
  have p_same: "d' p = d p"
  proof (rule c(7))
    have "p \<in> set (tree_blocks d (Suc n) r @ us)" using p(1) by simp
    then show "p \<noteq> 0" "p \<notin> set (free_blocks d bs)" using h(4) h(6) by blast+
    have "set (?ch ?i) \<subseteq> set (tree_blocks d (Suc n) r)" by (rule tree_blocks_child_subset [OF r(1)]) simp
    moreover have "set (tree_blocks d (Suc n) r) \<inter> set us = {}" using h(3) by (simp only: distinct_append)
    ultimately show "p \<notin> set (?ch ?i)" "p \<noteq> r"
      using p(1) tree_root_in [OF r(1), of d "Suc n"] by blast+
  qed
  show ?thesis
    unfolding subtree_written_def r(2)
  proof (intro exI [of _ r] conjI allI impI)
    show "d' p = put32 P idx r" using p_same p(2) put32_get32_id [of P idx] r(2) by simp
    show "tree_leaf d' (Suc n) r off = b" using rep(2) [where off = off] c(4) by simp
    show "mset (free_blocks d' bs') + mset (tree_blocks d' (Suc n) r)
        = mset (free_blocks d bs) + mset (tree_blocks d (Suc n) r)"
      by (rule mset_exchange [OF rep(1) c(6)])
    show "d' x = d x" if "x \<noteq> 0" "x \<noteq> p" "x \<notin> set (free_blocks d bs)"
      "x \<notin> set (tree_blocks d (Suc n) r)" for x
      using that tree_blocks_child_subset [OF r(1) ref_index_less, of d n off n]
        tree_root_in [OF r(1), of d "Suc n"] by (intro c(7)) blast+
    show "tree_read d' (Suc n) r off' = tree_read d (Suc n) r off'" if "\<not> same_path (Suc n) off' off" for off'
    proof (cases "ref_index off' n = ?i")
      case True
      then have "\<not> same_path n off' off" using that by (simp add: same_path_Suc)
      from c(8) [OF this] show ?thesis
        using True len by (simp add: tree_read_Suc [OF r(1)] c(2) get32_put32_same layout_simps ref_index_eq)
    next
      case False
      show ?thesis using rep(3) [where off = off'] False by simp
    qed
  qed (use r(1) c in auto)
qed

text \<open>A fresh indirect block \<open>r\<close>, still null in memory, whose subtree on the path was written.\<close>

lemma subtree_written_new:
  assumes heap: "heap_ok N d1 bs1 (r # us)" and r: "get32 P idx = 0" and p: "p \<in> set us" "d1 p = put32 P idx r"
    and d1: "mset (free_blocks d bs) = add_mset r (mset (free_blocks d1 bs1))"
      "\<And>x. x \<noteq> 0 \<Longrightarrow> x \<noteq> p \<Longrightarrow> x \<notin> set (free_blocks d bs) \<Longrightarrow> d1 x = d x"
      "n_inodeblocks (d1 0) = n_inodeblocks (d 0)"
    and sub: "subtree_written n off r null_block (ref_index off n) d1 bs1 d' bs' b"
  shows "subtree_written (Suc n) off p P idx d bs d' bs' b"
proof -
  let ?i = "ref_index off n"
  have i0 [simp]: "get32 null_block (ref_index x n) = 0" for x by (simp add: layout_simps ref_index_eq)
  obtain c where c: "c \<noteq> 0" "d' r = put32 null_block ?i c" "b \<noteq> 0" "tree_leaf d' n c off = b"
    "free_chain d' (free_list (d' 0)) bs'"
    "mset (free_blocks d' bs') + mset (tree_blocks d' n c) = mset (free_blocks d1 bs1)"
    "\<And>x. x \<noteq> 0 \<Longrightarrow> x \<noteq> r \<Longrightarrow> x \<notin> set (free_blocks d1 bs1) \<Longrightarrow> d' x = d1 x"
    "\<And>off'. \<not> same_path n off' off \<Longrightarrow> tree_read d' n c off' = null_block"
    "n_inodeblocks (d' 0) = n_inodeblocks (d1 0)"
    "length (free_blocks d1 bs1) \<le> length (free_blocks d' bs') + Suc n"
    using sub unfolding subtree_written_def by auto
  have "r \<noteq> 0" using heap_okD(6) [OF heap, of r] by simp
  let ?dn = "d'(r := null_block)"
  have dn: "?dn r = null_block" "length (?dn r) = 512" "d' r = put32 (?dn r) ?i c" using c(2) by simp_all
  have frame: "d' x = ?dn x" if "x \<in> (\<Union>j \<in> {..<REFS_PER_BLOCK} - {?i}. set (tree_blocks ?dn n (get32 (?dn r) j)))" for x
    using that by (auto simp: layout_simps)
  note rep = tree_child_replace [where d = ?dn and d' = d' and n = n, OF \<open>r \<noteq> 0\<close> ref_index_less dn(2,3) frame]
  note null = tree_null_root [of r ?dn n, OF \<open>r \<noteq> 0\<close> dn(1)]
  have "set (free_blocks d bs) = insert r (set (free_blocks d1 bs1))" using d1(1) by (metis set_mset_mset set_mset_add_mset_insert)
  moreover have "length (free_blocks d bs) = Suc (length (free_blocks d1 bs1))"
    using arg_cong [where f = size, OF d1(1)] by simp
  moreover have "d' p = d1 p" using p(1) heap by (intro c(7)) (auto simp: heap_ok_def)
  ultimately show ?thesis
    unfolding subtree_written_def r
  proof (intro exI [of _ r] conjI allI impI)
    show "tree_leaf d' (Suc n) r off = b" using rep(2) [where off = off] c(4) by simp
    have "mset (tree_blocks d' (Suc n) r) = add_mset r (mset (tree_blocks d' n c))"
      using rep(1) null(1) by (simp del: tree_blocks.simps)
    then show "mset (free_blocks d' bs') + mset (tree_blocks d' (Suc n) r)
        = mset (free_blocks d bs) + mset (tree_blocks d (Suc n) 0)"
      using c(6) d1(1) by (simp del: tree_blocks.simps)
    show "tree_read d' (Suc n) r off' = tree_read d (Suc n) 0 off'" if "\<not> same_path (Suc n) off' off" for off'
    proof (cases "ref_index off' n = ?i")
      case True
      then have "\<not> same_path n off' off" using that by (simp add: same_path_Suc)
      from c(8) [OF this] show ?thesis
        using True by (simp add: tree_read_Suc [OF \<open>r \<noteq> 0\<close>] c(2) get32_put32_same layout_simps ref_index_eq)
    next
      case False
      then show ?thesis using rep(3) [where off = off'] null(2) [of off'] by (simp add: tree_read_def del: tree_leaf.simps)
    qed
  qed (use \<open>r \<noteq> 0\<close> c d1 p in auto)
qed

section \<open>Operations on a writable store\<close>

context writable_store
begin

lemma below_read_ok:
  "ok s \<Longrightarrow> unat off < nblk \<Longrightarrow>
     below_read (treedisk_mk_state store ino) off s = Inr (Some (view s off), s)"
  by (simp add: below_read_def treedisk_mk_state_def read_ok)

lemma below_write_ok:
  assumes "ok s" and "unat off < nblk" and "length b = 512"
  obtains s' where "below_write (treedisk_mk_state store ino) off b s = Inr (0, s')"
    and "below_write_or_panic (treedisk_mk_state store ino) msg off b s = Inr s'"
    and "ok s'" and "view s' = (view s)(off := b)"
  using write_ok [OF assms]
  by (auto simp: below_write_or_panic_def below_write_def treedisk_mk_state_def)

text \<open>Allocation takes one block off the free list and touches nothing else.\<close>

lemma treedisk_alloc_block_ok:
  assumes "ok s" and sb: "superblock snap = view s 0" and heap: "heap_ok nblk (view s) bs us"
    and "bs \<noteq> []"
  obtains b s' bs' where
    "treedisk_alloc_block (treedisk_mk_state store ino) snap s
       = Inr ((b, snap\<lparr>superblock := view s' 0\<rparr>), s')"
    and "ok s'" and "heap_ok nblk (view s') bs' (b # us)"
    and "mset (free_blocks (view s) bs) = add_mset b (mset (free_blocks (view s') bs'))"
    and "\<And>x. x \<noteq> 0 \<Longrightarrow> x \<notin> set (free_blocks (view s) bs) \<Longrightarrow> view s' x = view s x"
    and "n_inodeblocks (view s' 0) = n_inodeblocks (view s 0)"
proof -
  let ?ts = "treedisk_mk_state store ino"
  let ?d = "view s"
  note h = heap_okD [OF heap]
  obtain hd bs0 where bs: "bs = hd # bs0" using \<open>bs \<noteq> []\<close> by (cases bs) auto
  have hd: "free_list (?d 0) = hd" "hd \<noteq> 0" and chain: "free_chain ?d (get32 (?d hd) 0) bs0"
    using h(1) bs by auto
  have hd_N: "unat hd < nblk" using h(5) [of hd] bs by simp
  then have zero_N: "unat (0::u32) < nblk" by simp
  have len_hd: "length (?d hd) = 512" and len_sb: "length (?d 0) = 512"
    using view_length [OF \<open>ok s\<close> hd_N] view_length [OF \<open>ok s\<close> zero_N] by auto
  have read: "below_read ?ts hd s = Inr (Some (?d hd), s)" by (rule below_read_ok [OF \<open>ok s\<close> hd_N])
  have in_free: "b \<in> set (free_blocks ?d bs)" if "b \<in> set (free_blocks ?d bs0)" for b
    using that bs by simp
  show thesis
  proof (cases "scan_refs (?d hd) REFS_PER_BLOCK = 0")
    case True
    let ?sb = "set_free_list (?d 0) (get32 (?d hd) 0)"
    obtain s' where w: "below_write_or_panic ?ts ''treedisk_alloc_block: superblock'' 0 ?sb s = Inr s'"
      and s': "ok s'" "view s' = ?d(0 := ?sb)"
      using below_write_ok [OF \<open>ok s\<close> zero_N, of ?sb] len_sb by (auto simp: set_free_list_def)
    have cells: "free_cells (?d hd) = []" using True by (rule scan_none_cells)
    have fl: "free_list (view s' 0) = get32 (?d hd) 0"
      using len_sb s'(2) by (simp add: free_list_def set_free_list_def get32_put32_same)
    have heap0: "heap_ok nblk (?d(0 := ?sb)) bs0 (hd # us)"
    proof -
      have eq: "(?d(0 := ?sb)) b = ?d b" if "b \<in> set bs0" for b
        using that free_chain_nonzero [OF chain] by auto
      have "free_blocks (?d(0 := ?sb)) bs0 = free_blocks ?d bs0" by (rule free_blocks_cong) (rule eq)
      moreover have "free_chain (?d(0 := ?sb)) (get32 (?d hd) 0) bs0"
        using chain free_chain_cong [of bs0 "?d(0 := ?sb)" ?d] eq by simp
      ultimately show ?thesis using heap fl s'(2) unfolding heap_ok_def bs by (auto simp: cells)
    qed
    have fb0: "free_blocks (view s') bs0 = free_blocks ?d bs0"
      unfolding s'(2) using free_chain_nonzero [OF chain] by (intro free_blocks_cong) auto
    show thesis
    proof (rule that [of hd s' bs0])
      show "treedisk_alloc_block ?ts snap s = Inr ((hd, snap\<lparr>superblock := view s' 0\<rparr>), s')"
        using hd read True w s'(2) by (simp add: treedisk_alloc_block_def sb Let_def)
      show "mset (free_blocks ?d bs) = add_mset hd (mset (free_blocks (view s') bs0))"
        by (simp add: bs cells fb0)
      show "n_inodeblocks (view s' 0) = n_inodeblocks (?d 0)"
        by (simp add: s'(2) n_inodeblocks_def set_free_list_def get32_put32_other)
    qed (use s' heap0 in auto)
  next
    case False
    let ?i = "scan_refs (?d hd) REFS_PER_BLOCK"
    let ?fb = "put32 (?d hd) ?i 0"
    have i: "0 < ?i" "?i < REFS_PER_BLOCK" "get32 (?d hd) ?i \<noteq> 0"
      using False scan_refs_found by auto
    obtain s' where w: "below_write_or_panic ?ts ''treedisk_alloc_block: freelistblock'' hd ?fb s = Inr s'"
      and s': "ok s'" "view s' = ?d(hd := ?fb)"
      using below_write_ok [OF \<open>ok s\<close> hd_N, of ?fb] len_hd by auto
    have hd0: "hd \<notin> set bs0" using h(2) bs free_chain_subset by fastforce
    have eq: "view s' b = ?d b" if "b \<in> set bs0" for b using that hd0 s'(2) by auto
    have fb0: "free_blocks (view s') bs0 = free_blocks ?d bs0" by (rule free_blocks_cong) (rule eq)
    have "free_chain (view s') (get32 (?d hd) 0) bs0"
      using chain free_chain_cong [of bs0 "view s'" ?d, OF eq] by simp
    then have chain': "free_chain (view s') (free_list (view s' 0)) bs"
      using hd i(1) s'(2) bs by (simp add: put32_next_kept)
    have m: "mset (free_blocks ?d bs) = add_mset (get32 (?d hd) ?i) (mset (free_blocks (view s') bs))"
      using take_free_cell [OF i len_hd] fb0 by (simp add: bs s'(2))
    have "heap_ok nblk (view s') bs (get32 (?d hd) ?i # us)"
      by (rule heap_ok_mset [OF heap chain']) (use m in simp)
    then show thesis
    proof (intro that [of "get32 (?d hd) ?i" s' bs])
      show "treedisk_alloc_block ?ts snap s
          = Inr ((get32 (?d hd) ?i, snap\<lparr>superblock := view s' 0\<rparr>), s')"
        using hd read False w s'(2) sb by (simp add: treedisk_alloc_block_def Let_def)
      show "n_inodeblocks (view s' 0) = n_inodeblocks (?d 0)" using hd(2) s'(2) by simp
    qed (use s' m bs in auto)
  qed
qed

lemma free_nonempty: "n < length (free_blocks d bs) \<Longrightarrow> bs \<noteq> []"
  by auto

text \<open>Allocating a block and storing a block of its own choice at a used place \<open>p\<close>.\<close>

lemma treedisk_alloc_link_ok:
  assumes "ok s" and "superblock snap = view s 0" and "heap_ok nblk (view s) bs us" and "bs \<noteq> []"
    and "p \<in> set us" and "\<And>b. length (f b) = 512"
  obtains b snap' s1 s2 bs' where
    "treedisk_alloc_block (treedisk_mk_state store ino) snap s = Inr ((b, snap'), s1)"
    and "snap' = snap\<lparr>superblock := view s2 0\<rparr>"
    and "below_write_or_panic (treedisk_mk_state store ino) msg p (f b) s1 = Inr s2"
    and "ok s2" and "heap_ok nblk (view s2) bs' (b # us)"
    and "mset (free_blocks (view s) bs) = add_mset b (mset (free_blocks (view s2) bs'))"
    and "\<And>x. x \<noteq> 0 \<Longrightarrow> x \<noteq> p \<Longrightarrow> x \<notin> set (free_blocks (view s) bs) \<Longrightarrow> view s2 x = view s x"
    and "n_inodeblocks (view s2 0) = n_inodeblocks (view s 0)" and "view s2 p = f b"
proof -
  obtain b s1 bs1 where a: "treedisk_alloc_block (treedisk_mk_state store ino) snap s
        = Inr ((b, snap\<lparr>superblock := view s1 0\<rparr>), s1)" "ok s1" "heap_ok nblk (view s1) bs1 (b # us)"
      "mset (free_blocks (view s) bs) = add_mset b (mset (free_blocks (view s1) bs1))"
      "\<And>x. x \<noteq> 0 \<Longrightarrow> x \<notin> set (free_blocks (view s) bs) \<Longrightarrow> view s1 x = view s x"
      "n_inodeblocks (view s1 0) = n_inodeblocks (view s 0)"
    using treedisk_alloc_block_ok [OF assms(1-4)] by metis
  note h1 = heap_okD [OF a(3)]
  have p: "p \<noteq> 0" "unat p < nblk" "p \<notin> set (free_blocks (view s1) bs1)"
    using \<open>p \<in> set us\<close> h1(4) [of p] h1(6) [of p] by auto
  obtain s2 where w: "below_write_or_panic (treedisk_mk_state store ino) msg p (f b) s1 = Inr s2"
    and s2: "ok s2" "view s2 = (view s1)(p := f b)"
    using below_write_ok [OF a(2) p(2)] assms(6) by metis
  have fr: "heap_ok nblk (view s2) bs1 (b # us)" "free_blocks (view s2) bs1 = free_blocks (view s1) bs1"
    using heap_ok_frame [where d' = "view s2", OF a(3)] p s2(2) by fastforce+
  show thesis
    by (rule that [OF a(1) _ w s2(1) fr(1)]) (use a(4-6) fr(2) p s2(2) in auto)
qed

text \<open>The walk of a write finds or allocates every block on the path.\<close>

lemma treedisk_write_walk_ok:
  assumes "ok s" and "superblock snap = view s 0"
    and "heap_ok nblk (view s) bs (tree_blocks (view s) n (get32 P idx) @ us)"
    and "p \<in> set us" and "length P = 512" and "get32 P idx \<noteq> 0 \<Longrightarrow> view s p = P"
    and "n < length (free_blocks (view s) bs)"
  shows "\<exists>b s' bs'. treedisk_write_walk (treedisk_mk_state store ino) off n P idx p snap s = Inr (b, s') \<and>
    ok s' \<and> subtree_written n off p P idx (view s) bs (view s') bs' b"
  using assms
proof (induction n arbitrary: s snap bs us P idx p)
  case 0
  note h = heap_okD [OF "0.prems"(3)]
  show ?case
  proof (cases "get32 P idx = 0")
    case False
    have "subtree_written 0 off p P idx (view s) bs (view s) bs (get32 P idx)"
      using False "0.prems"(6) put32_get32_id [of P idx] h(1)
      by (simp add: subtree_written_def same_path_def)
    then show ?thesis using False 0
      by (auto simp: treedisk_write_walk.simps [of _ _ 0])
  next
    case True
    with "0.prems"(3) have heap: "heap_ok nblk (view s) bs us" by simp
    obtain b snap' s1 s2 bs' where a:
      "treedisk_alloc_block (treedisk_mk_state store ino) snap s = Inr ((b, snap'), s1)"
      "below_write_or_panic (treedisk_mk_state store ino) ''treedisk_write: parent'' p (put32 P idx b) s1 = Inr s2"
      "ok s2" "heap_ok nblk (view s2) bs' (b # us)"
      "mset (free_blocks (view s) bs) = add_mset b (mset (free_blocks (view s2) bs'))"
      "\<And>x. x \<noteq> 0 \<Longrightarrow> x \<noteq> p \<Longrightarrow> x \<notin> set (free_blocks (view s) bs) \<Longrightarrow> view s2 x = view s x"
      "n_inodeblocks (view s2 0) = n_inodeblocks (view s 0)" "view s2 p = put32 P idx b"
      using treedisk_alloc_link_ok [where f = "put32 P idx" and msg = "''treedisk_write: parent''",
          OF "0.prems"(1,2) heap free_nonempty [OF "0.prems"(7)] "0.prems"(4)] "0.prems"(5)
      by (metis length_put32)
    have "b \<noteq> 0" using heap_okD(6) [OF a(4), of b] by simp
    moreover have "length (free_blocks (view s) bs) = Suc (length (free_blocks (view s2) bs'))"
      using arg_cong [where f = size, OF a(5)] by simp
    ultimately have "subtree_written 0 off p P idx (view s) bs (view s2) bs' b"
      using True a(5-8) heap_okD(1) [OF a(4)]
      by (auto simp: subtree_written_def same_path_def)
    then show ?thesis
      using True a(1-3) by (auto simp: treedisk_write_walk.simps [of _ _ 0])
  qed
next
  case (Suc n)
  let ?i = "ref_index off n" and ?r = "get32 P idx"
  show ?case
  proof (cases "?r = 0")
    case False
    let ?T = "tree_blocks (view s) (Suc n) ?r"
    have r_N: "unat ?r < nblk"
      using heap_okD(6) [OF Suc.prems(3), of ?r] tree_root_in [OF False, of "view s" "Suc n"] by auto
    have len: "length (view s ?r) = 512" using Suc.prems(1) r_N by (rule view_length)
    define us' where "us' = ?r # concat (map ((\<lambda>j. tree_blocks (view s) n (get32 (view s ?r) j))(?i := [])) [0..<REFS_PER_BLOCK]) @ us"
    have "mset (?T @ us) = mset (tree_blocks (view s) n (get32 (view s ?r) ?i) @ us')"
      using False mset_concat_map_upt_update [where i = ?i and n = REFS_PER_BLOCK and g = "(\<lambda>j. tree_blocks (view s) n (get32 (view s ?r) j))(?i := [])"
            and f = "\<lambda>j. tree_blocks (view s) n (get32 (view s ?r) j)", OF ref_index_less]
      by (simp add: us'_def ac_simps)
    then have "heap_ok nblk (view s) bs (tree_blocks (view s) n (get32 (view s ?r) ?i) @ us')"
      using Suc.prems(3) heap_ok_perm by blast
    moreover have "?r \<in> set us'" by (simp add: us'_def)
    ultimately obtain b s' bs' where w: "treedisk_write_walk (treedisk_mk_state store ino) off n (view s ?r) ?i ?r snap s = Inr (b, s')"
        "ok s'" and sub: "subtree_written n off ?r (view s ?r) ?i (view s) bs (view s') bs' b"
      using Suc.IH [OF Suc.prems(1,2) _ _ len refl] Suc.prems(7) Suc_lessD by blast
    have "subtree_written (Suc n) off p P idx (view s) bs (view s') bs' b"
      by (rule subtree_written_step [OF Suc.prems(3) False refl Suc.prems(4) _ len sub])
        (use Suc.prems(6) False in simp)
    then show ?thesis
      using False w below_read_ok [OF Suc.prems(1) r_N]
      by (auto simp: treedisk_write_walk.simps [of _ _ "Suc n"] Let_def)
  next
    case True
    with Suc.prems(3) have heap: "heap_ok nblk (view s) bs us" by simp
    obtain b snap' s1 s2 bs1 where a:
      "treedisk_alloc_block (treedisk_mk_state store ino) snap s = Inr ((b, snap'), s1)"
      "snap' = snap\<lparr>superblock := view s2 0\<rparr>"
      "below_write_or_panic (treedisk_mk_state store ino) ''treedisk_write: parent'' p (put32 P idx b) s1 = Inr s2"
      "ok s2" "heap_ok nblk (view s2) bs1 (b # us)"
      "mset (free_blocks (view s) bs) = add_mset b (mset (free_blocks (view s2) bs1))"
      "\<And>x. x \<noteq> 0 \<Longrightarrow> x \<noteq> p \<Longrightarrow> x \<notin> set (free_blocks (view s) bs) \<Longrightarrow> view s2 x = view s x"
      "n_inodeblocks (view s2 0) = n_inodeblocks (view s 0)" "view s2 p = put32 P idx b"
      using treedisk_alloc_link_ok [where f = "put32 P idx" and msg = "''treedisk_write: parent''",
          OF Suc.prems(1,2) heap free_nonempty [OF Suc.prems(7)] Suc.prems(4)] Suc.prems(5)
      by (metis length_put32)
    have null: "get32 null_block ?i = 0" by (simp add: ref_index_eq)
    have len: "length (free_blocks (view s) bs) = Suc (length (free_blocks (view s2) bs1))"
      using arg_cong [where f = size, OF a(6)] by simp
    have "\<exists>lf s' bs'. treedisk_write_walk (treedisk_mk_state store ino) off n null_block ?i b snap' s2 = Inr (lf, s') \<and>
        ok s' \<and> subtree_written n off b null_block ?i (view s2) bs1 (view s') bs' lf"
      by (rule Suc.IH [of s2 snap' bs1 null_block ?i "b # us" b]) (use a(2,4,5) null len Suc.prems(7) in simp_all)
    then obtain lf s' bs' where w: "treedisk_write_walk (treedisk_mk_state store ino) off n null_block ?i b snap' s2 = Inr (lf, s')"
        "ok s'" and sub: "subtree_written n off b null_block ?i (view s2) bs1 (view s') bs' lf"
      by blast
    have "subtree_written (Suc n) off p P idx (view s) bs (view s') bs' lf"
      by (rule subtree_written_new [OF a(5) True Suc.prems(4) a(9) a(6) a(7) a(8) sub])
    then show ?thesis
      using True a(1,3) w by (auto simp: treedisk_write_walk.simps [of _ _ "Suc n"] Let_def)
  qed
qed

lemma treedisk_read_walk_ok:
  assumes "ok s" and "\<And>b. b \<in> set (tree_blocks (view s) n r) \<Longrightarrow> unat b < nblk"
  shows "treedisk_read_walk (treedisk_mk_state store ino) off n r s
    = Inr (Some (tree_read (view s) n r off), s)"
  using assms(2)
proof (induction n arbitrary: r)
  case 0
  then show ?case
    using below_read_ok [OF assms(1), of r]
    by (auto simp: treedisk_read_walk.simps [of _ _ 0] tree_read_def)
next
  case (Suc n)
  show ?case
  proof (cases "r = 0")
    case False
    have "unat r < nblk" using Suc.prems tree_root_in [OF False] by blast
    moreover have "treedisk_read_walk (treedisk_mk_state store ino) off n (get32 (view s r) (ref_index off n)) s
        = Inr (Some (tree_read (view s) n (get32 (view s r) (ref_index off n)) off), s)"
      using Suc.prems tree_blocks_child_subset [OF False ref_index_less]
      by (intro Suc.IH) (meson subsetD)
    ultimately show ?thesis
      using False below_read_ok [OF assms(1)]
      by (simp add: treedisk_read_walk.simps [of _ _ "Suc n"] tree_read_Suc)
  qed (simp add: treedisk_read_walk.simps)
qed

text \<open>Every new root inserted above the old one keeps the file.\<close>

lemma treedisk_grow_ok:
  assumes "ok s" and "superblock snap = view s 0" and "length (inodeblock snap) = 512"
    and "inode snap < INODES_PER_BLOCK"
    and "heap_ok nblk (view s) bs (tree_blocks (view s) n (inode_root (inodeblock snap) (inode snap)) @ us)"
    and "k \<le> length (free_blocks (view s) bs)"
  shows "\<exists>r' s' bs'. treedisk_grow (treedisk_mk_state store ino) k snap s
      = Inr (snap\<lparr>superblock := view s' 0,
               inodeblock := set_inode_root (inodeblock snap) (inode snap) r'\<rparr>, s') \<and>
    ok s' \<and> heap_ok nblk (view s') bs' (tree_blocks (view s') (n + k) r' @ us) \<and>
    tree_file (view s') (n + k) r'
      = tree_file (view s) n (inode_root (inodeblock snap) (inode snap)) \<and>
    mset (free_blocks (view s') bs') + mset (tree_blocks (view s') (n + k) r')
      = mset (free_blocks (view s) bs) +
        mset (tree_blocks (view s) n (inode_root (inodeblock snap) (inode snap))) \<and>
    (\<forall>x. x \<noteq> 0 \<longrightarrow> x \<notin> set (free_blocks (view s) bs) \<longrightarrow> view s' x = view s x) \<and>
    n_inodeblocks (view s' 0) = n_inodeblocks (view s 0) \<and>
    length (free_blocks (view s) bs) = length (free_blocks (view s') bs') + k \<and>
    (k = 0 \<longrightarrow> s' = s \<and> r' = inode_root (inodeblock snap) (inode snap))"
  using assms
proof (induction k arbitrary: s snap bs n)
  case 0
  let ?r = "inode_root (inodeblock snap) (inode snap)"
  have "snap = snap\<lparr>superblock := view s 0, inodeblock := set_inode_root (inodeblock snap) (inode snap) ?r\<rparr>"
    using "0.prems"(2) by (cases snap) (simp add: set_inode_root_def inode_root_def put32_get32_id)
  with 0 show ?case by (intro exI [of _ ?r] exI [of _ s] exI [of _ bs]) simp
next
  case (Suc k)
  let ?ts = "treedisk_mk_state store ino" and ?r = "inode_root (inodeblock snap) (inode snap)"
  let ?T = "tree_blocks (view s) n ?r"
  obtain b s1 bs1 where a: "treedisk_alloc_block ?ts snap s = Inr ((b, snap\<lparr>superblock := view s1 0\<rparr>), s1)"
      "ok s1" "heap_ok nblk (view s1) bs1 (b # ?T @ us)"
      "mset (free_blocks (view s) bs) = add_mset b (mset (free_blocks (view s1) bs1))"
      "\<And>x. x \<noteq> 0 \<Longrightarrow> x \<notin> set (free_blocks (view s) bs) \<Longrightarrow> view s1 x = view s x"
      "n_inodeblocks (view s1 0) = n_inodeblocks (view s 0)"
    using treedisk_alloc_block_ok [OF Suc.prems(1,2,5)] Suc.prems(6) by (metis free_nonempty Suc_le_lessD)
  note h = heap_okD [OF Suc.prems(5)] and h1 = heap_okD [OF a(3)]
  have b: "b \<noteq> 0" "unat b < nblk" "b \<notin> set (free_blocks (view s1) bs1)" "b \<notin> set ?T"
    using h1(3) h1(4) [of b] h1(6) [of b] by auto
  obtain s2 where w: "below_write_or_panic ?ts ''treedisk_write: indirect block'' b (put32 null_block 0 ?r) s1 = Inr s2"
    and s2: "ok s2" "view s2 = (view s1)(b := put32 null_block 0 ?r)"
    using below_write_ok [OF a(2) b(2), of "put32 null_block 0 ?r"] by (metis length_put32 length_null_block)
  have s2_b: "view s2 b = put32 null_block 0 ?r" using s2(2) by simp
  have T_same: "view s2 x = view s x" if "x \<in> set ?T" for x
    using that b(4) h(4) [of x] h(6) [of x] a(5) [of x] s2(2) by auto
  note tg = tree_grow [where d = "view s" and d' = "view s2" and n = n, OF b(1) s2_b T_same]
  have fr: "heap_ok nblk (view s2) bs1 (b # ?T @ us)" "free_blocks (view s2) bs1 = free_blocks (view s1) bs1"
    using heap_ok_frame [where d' = "view s2", OF a(3)] b s2(2) by fastforce+
  let ?snap = "snap\<lparr>superblock := view s2 0, inodeblock := set_inode_root (inodeblock snap) (inode snap) b\<rparr>"
  have root: "inode_root (inodeblock ?snap) (inode ?snap) = b"
    using Suc.prems(3,4) by (simp add: inode_root_def set_inode_root_def get32_put32_same layout_simps)
  have "heap_ok nblk (view s2) bs1 (tree_blocks (view s2) (Suc n) b @ us)"
    by (rule iffD1 [OF heap_ok_perm fr(1)]) (use tg(1) in \<open>simp del: tree_blocks.simps\<close>)
  moreover have len: "length (free_blocks (view s) bs) = Suc (length (free_blocks (view s2) bs1))"
    using arg_cong [where f = size, OF a(4)] fr(2) by simp
  ultimately have "\<exists>r' s' bs'. treedisk_grow ?ts k ?snap s2
      = Inr (?snap\<lparr>superblock := view s' 0,
               inodeblock := set_inode_root (inodeblock ?snap) (inode ?snap) r'\<rparr>, s') \<and>
    ok s' \<and> heap_ok nblk (view s') bs' (tree_blocks (view s') (Suc n + k) r' @ us) \<and>
    tree_file (view s') (Suc n + k) r' = tree_file (view s2) (Suc n) b \<and>
    mset (free_blocks (view s') bs') + mset (tree_blocks (view s') (Suc n + k) r')
      = mset (free_blocks (view s2) bs1) + mset (tree_blocks (view s2) (Suc n) b) \<and>
    (\<forall>x. x \<noteq> 0 \<longrightarrow> x \<notin> set (free_blocks (view s2) bs1) \<longrightarrow> view s' x = view s2 x) \<and>
    n_inodeblocks (view s' 0) = n_inodeblocks (view s2 0) \<and>
    length (free_blocks (view s2) bs1) = length (free_blocks (view s') bs') + k \<and>
    (k = 0 \<longrightarrow> s' = s2 \<and> r' = b)"
    using Suc.IH [of s2 ?snap bs1 "Suc n"] s2(1) Suc.prems(3,4,6) root
    by (simp add: set_inode_root_def del: tree_blocks.simps)
  then obtain r' s' bs' where g: "treedisk_grow ?ts k ?snap s2
      = Inr (?snap\<lparr>superblock := view s' 0,
               inodeblock := set_inode_root (inodeblock ?snap) (inode ?snap) r'\<rparr>, s')"
    "ok s'" "heap_ok nblk (view s') bs' (tree_blocks (view s') (n + Suc k) r' @ us)"
    "tree_file (view s') (n + Suc k) r' = tree_file (view s2) (Suc n) b"
    "mset (free_blocks (view s') bs') + mset (tree_blocks (view s') (n + Suc k) r')
      = mset (free_blocks (view s2) bs1) + mset (tree_blocks (view s2) (Suc n) b)"
    "\<And>x. x \<noteq> 0 \<Longrightarrow> x \<notin> set (free_blocks (view s2) bs1) \<Longrightarrow> view s' x = view s2 x"
    "n_inodeblocks (view s' 0) = n_inodeblocks (view s2 0)"
    "length (free_blocks (view s2) bs1) = length (free_blocks (view s') bs') + k"
    by auto
  have "treedisk_grow ?ts (Suc k) snap s = Inr (snap\<lparr>superblock := view s' 0,
               inodeblock := set_inode_root (inodeblock snap) (inode snap) r'\<rparr>, s')"
    using a(1) w g(1) s2(2) b(1) by (simp add: set_inode_root_def put32_put32 Let_def)
  moreover have "view s' x = view s x" if "x \<noteq> 0" "x \<notin> set (free_blocks (view s) bs)" for x
  proof -
    have "set (free_blocks (view s) bs) = insert b (set (free_blocks (view s1) bs1))"
      using a(4) by (metis set_mset_mset set_mset_add_mset_insert)
    then have "x \<noteq> b" "x \<notin> set (free_blocks (view s2) bs1)" using that(2) fr(2) by auto
    then show ?thesis using that g(6) [of x] a(5) [of x] s2(2) by simp
  qed
  moreover have "mset (free_blocks (view s') bs') + mset (tree_blocks (view s') (n + Suc k) r')
      = mset (free_blocks (view s) bs) + mset ?T"
    using g(5) tg(1) a(4) fr(2) by (simp del: tree_blocks.simps)
  ultimately show ?case using g a(6) tg(2) len s2(2) b(1) by (intro exI [of _ r'] exI [of _ s'] exI [of _ bs']) auto
qed

end

end
