(* ===== verification/Treedisk_Files.thy ===== *)
theory Treedisk_Files
  imports Treedisk_Correct
begin

text \<open>
  The files that a treedisk holds: the abstraction \<open>fs_files\<close> from disk contents to a map from inode
  numbers to files, the invariant \<open>fs_ok\<close>, and the refinement lemmas that \<open>treedisk_getsize\<close>,
  \<open>treedisk_read\<close>, \<open>treedisk_write\<close> and \<open>treedisk_create\<close> implement file operations on that map.
\<close>

section \<open>Abstraction\<close>

record afile =
  asize :: u32
  adata :: "u32 \<Rightarrow> block"

definition afile_empty :: afile where
  "afile_empty = \<lparr>asize = 0, adata = (\<lambda>_. null_block)\<rparr>"

definition afile_read :: "u32 \<Rightarrow> afile \<Rightarrow> block option" where
  "afile_read off f = (if off < asize f then Some (adata f off) else None)"

definition afile_write :: "u32 \<Rightarrow> block \<Rightarrow> afile \<Rightarrow> afile" where
  "afile_write off b f = \<lparr>asize = max (asize f) (off + 1), adata = (adata f)(off := b)\<rparr>"

lemma afile_read_write:
  assumes "off + 1 \<noteq> 0" and "\<And>x. asize f \<le> x \<Longrightarrow> adata f x = null_block"
  shows "afile_read x (afile_write off b f) =
    (if x = off then Some b else if x < asize f then Some (adata f x)
     else if x < off then Some null_block else None)"
proof -
  have "unat (off + 1) = Suc (unat off)" using unatSuc [of off] assms(1) by (simp add: add.commute)
  then have "x < off + 1 \<longleftrightarrow> x \<le> off" by (simp add: word_less_nat_alt word_le_nat_alt less_Suc_eq_le)
  then show ?thesis using assms(2) [of x] by (auto simp: afile_read_def afile_write_def less_max_iff_disj)
qed

definition fs_inodes :: "disk_fn \<Rightarrow> nat" where
  "fs_inodes d = unat (n_inodeblocks (d 0)) * INODES_PER_BLOCK"

definition fs_blkno :: "u32 \<Rightarrow> u32" where
  "fs_blkno ino = 1 + word_of_nat (unat ino div INODES_PER_BLOCK)"

definition fs_size :: "disk_fn \<Rightarrow> u32 \<Rightarrow> u32" where
  "fs_size d ino = inode_nblocks (d (fs_blkno ino)) (unat ino mod INODES_PER_BLOCK)"

definition fs_root :: "disk_fn \<Rightarrow> u32 \<Rightarrow> u32" where
  "fs_root d ino = inode_root (d (fs_blkno ino)) (unat ino mod INODES_PER_BLOCK)"

definition fs_tree :: "disk_fn \<Rightarrow> u32 \<Rightarrow> u32 list" where
  "fs_tree d ino = tree_blocks d (nlevels_of (fs_size d ino)) (fs_root d ino)"

definition fs_data :: "disk_fn \<Rightarrow> u32 \<Rightarrow> u32 \<Rightarrow> block" where
  "fs_data d ino = tree_file d (nlevels_of (fs_size d ino)) (fs_root d ino)"

definition fs_used :: "disk_fn \<Rightarrow> u32 list" where
  "fs_used d = concat (map (\<lambda>k. fs_tree d (word_of_nat k)) [0..<fs_inodes d])"

definition fs_meta :: "disk_fn \<Rightarrow> u32 list" where
  "fs_meta d = map word_of_nat [1..<Suc (unat (n_inodeblocks (d 0)))]"

definition fs_ok :: "nat \<Rightarrow> disk_fn \<Rightarrow> u32 list \<Rightarrow> bool" where
  "fs_ok N d bs \<longleftrightarrow> 0 < N \<and> unat (n_inodeblocks (d 0)) \<le> 2 ^ 26 \<and>
     heap_ok N d bs (fs_meta d @ fs_used d) \<and>
     (\<forall>ino off. unat ino < fs_inodes d \<longrightarrow> fs_size d ino \<le> off \<longrightarrow> fs_data d ino off = null_block)"

text \<open>The file system with \<open>room\<close> free blocks.\<close>

definition fs_ready :: "nat \<Rightarrow> nat \<Rightarrow> disk_fn \<Rightarrow> bool" where
  "fs_ready N room d \<longleftrightarrow> (\<exists>bs. fs_ok N d bs \<and> length (free_blocks d bs) = room)"

definition fs_files :: "disk_fn \<Rightarrow> u32 \<Rightarrow> afile option" where
  "fs_files d ino = (if unat ino < fs_inodes d
     then Some \<lparr>asize = fs_size d ino, adata = fs_data d ino\<rparr> else None)"

section \<open>Inode numbers and inode blocks\<close>

lemma unat_fs_blkno: "unat (fs_blkno ino) = Suc (unat ino div INODES_PER_BLOCK)"
proof -
  have "unat ino < 2 ^ 32" using unsigned_less [of ino, where ?'a = nat] by simp
  then have "unat ino div INODES_PER_BLOCK < 2 ^ 26" by (simp add: layout_simps div_less_iff_less_mult)
  then show ?thesis by (simp add: fs_blkno_def unat_word_ariths unat_of_nat)
qed

lemma fs_blkno_nonzero: "fs_blkno ino \<noteq> 0"
  using unat_fs_blkno [of ino] by (metis unat_0 nat.distinct(1))

lemma fs_blkno_inj:
  "fs_blkno a = fs_blkno b \<Longrightarrow> unat a mod INODES_PER_BLOCK = unat b mod INODES_PER_BLOCK \<Longrightarrow> a = b"
  using unat_fs_blkno [of a] unat_fs_blkno [of b]
  by (metis mod_div_decomp nat.inject word_unat_eq_iff)

lemma fs_blkno_meta: "unat ino < fs_inodes d \<Longrightarrow> fs_blkno ino \<in> set (fs_meta d)"
proof -
  assume "unat ino < fs_inodes d"
  then have "unat ino div INODES_PER_BLOCK < unat (n_inodeblocks (d 0))"
    by (simp add: fs_inodes_def layout_simps div_less_iff_less_mult)
  then have "Suc (unat ino div INODES_PER_BLOCK) \<in> {1..<Suc (unat (n_inodeblocks (d 0)))}" by simp
  moreover have "fs_blkno ino = word_of_nat (Suc (unat ino div INODES_PER_BLOCK))"
    by (simp add: fs_blkno_def)
  ultimately show ?thesis unfolding fs_meta_def set_map set_upt by blast
qed

lemma fs_okD:
  assumes "fs_ok N d bs"
  shows "0 < N" and "unat (n_inodeblocks (d 0)) \<le> 2 ^ 26" and "heap_ok N d bs (fs_meta d @ fs_used d)"
    and "\<And>ino off. unat ino < fs_inodes d \<Longrightarrow> fs_size d ino \<le> off \<Longrightarrow> fs_data d ino off = null_block"
  using assms by (auto simp: fs_ok_def)

lemma fs_inodes_bound: "fs_ok N d bs \<Longrightarrow> fs_inodes d \<le> 2 ^ 32"
  using fs_okD(2) [of N d bs] by (simp add: fs_inodes_def layout_simps)

lemma fs_blkno_range: "fs_ok N d bs \<Longrightarrow> unat ino < fs_inodes d \<Longrightarrow> unat (fs_blkno ino) < N"
  using heap_okD(6) [OF fs_okD(3)] fs_blkno_meta [of ino d] by (metis UnI1 set_append)

text \<open>The trees of the other inodes.\<close>

definition fs_others :: "disk_fn \<Rightarrow> u32 \<Rightarrow> u32 list" where
  "fs_others d ino = concat (map ((\<lambda>k. fs_tree d (word_of_nat k))(unat ino := [])) [0..<fs_inodes d])"

lemma fs_used_split:
  "unat ino < fs_inodes d \<Longrightarrow> mset (fs_used d) = mset (fs_tree d ino) + mset (fs_others d ino)"
  using mset_concat_map_upt_update [of "unat ino" "fs_inodes d"
      "(\<lambda>k. fs_tree d (word_of_nat k))(unat ino := [])" "\<lambda>k. fs_tree d (word_of_nat k)"]
  by (simp add: fs_used_def fs_others_def add.commute)

lemma fs_tree_others:
  assumes "unat j < fs_inodes d" and "j \<noteq> ino"
  shows "set (fs_tree d j) \<subseteq> set (fs_others d ino)"
proof -
  have "unat j \<noteq> unat ino" using assms(2) by (simp add: word_unat_eq_iff)
  then show ?thesis using assms(1) by (force simp: fs_others_def)
qed

lemma fs_heap_split:
  "fs_ok N d bs \<Longrightarrow> unat ino < fs_inodes d \<Longrightarrow>
     heap_ok N d bs (fs_tree d ino @ fs_meta d @ fs_others d ino)"
  using heap_ok_perm [of "fs_meta d @ fs_used d" "fs_tree d ino @ fs_meta d @ fs_others d ino"]
    fs_okD(3) [of N d bs] by (simp add: fs_used_split)

section \<open>How a write changes the abstraction\<close>

text \<open>
  The disk \<open>d'\<close> differs from \<open>d\<close> in the inode \<open>ino\<close>, in its tree and in blocks taken from the free
  list: then every other inode has the same tree and the same file.
\<close>

lemma fs_other_inode:
  assumes "heap_ok N d bs (fs_tree d ino @ fs_meta d @ fs_others d ino)"
    and frame: "\<And>x. x \<noteq> 0 \<Longrightarrow> x \<noteq> fs_blkno ino \<Longrightarrow> x \<notin> set (free_blocks d bs) \<Longrightarrow>
        x \<notin> set (fs_tree d ino) \<Longrightarrow> d' x = d x"
    and cells: "\<And>c. c \<noteq> 2 * (unat ino mod INODES_PER_BLOCK) \<Longrightarrow> c \<noteq> 2 * (unat ino mod INODES_PER_BLOCK) + 1 \<Longrightarrow>
        get32 (d' (fs_blkno ino)) c = get32 (d (fs_blkno ino)) c"
    and ino: "unat ino < fs_inodes d" and j: "unat j < fs_inodes d" "j \<noteq> ino"
  shows "fs_size d' j = fs_size d j" and "fs_root d' j = fs_root d j"
    and "fs_tree d' j = fs_tree d j" and "fs_data d' j = fs_data d j"
proof -
  note h = heap_okD [OF assms(1)]
  have same: "d' x = d x" if "x \<in> set (fs_meta d @ fs_others d ino)" "x \<noteq> fs_blkno ino" for x
    using h(3) h(4) [of x] h(6) [of x] that by (intro frame) auto
  have sz_root: "fs_size d' j = fs_size d j \<and> fs_root d' j = fs_root d j"
  proof (cases "fs_blkno j = fs_blkno ino")
    case True
    then have "unat j mod INODES_PER_BLOCK \<noteq> unat ino mod INODES_PER_BLOCK"
      using j(2) fs_blkno_inj by blast
    then show ?thesis using True cells
      by (simp add: fs_size_def fs_root_def inode_nblocks_def inode_root_def double_not_eq_Suc_double)
  next
    case False
    then have "d' (fs_blkno j) = d (fs_blkno j)" using fs_blkno_meta [OF j(1)] by (intro same) auto
    then show ?thesis by (simp add: fs_size_def fs_root_def)
  qed
  then show "fs_size d' j = fs_size d j" "fs_root d' j = fs_root d j" by auto
  have tree: "d' x = d x" if "x \<in> set (fs_tree d j)" for x
  proof (rule same)
    have x: "x \<in> set (fs_others d ino)" using fs_tree_others [OF j] that by blast
    then show "x \<in> set (fs_meta d @ fs_others d ino)" by simp
    show "x \<noteq> fs_blkno ino" using h(3) x fs_blkno_meta [OF ino] by auto
  qed
  let ?n = "nlevels_of (fs_size d j)" and ?r = "fs_root d j"
  have "tree_blocks d' ?n ?r = tree_blocks d ?n ?r"
    by (rule tree_blocks_cong) (rule tree [unfolded fs_tree_def])
  then show "fs_tree d' j = fs_tree d j" using sz_root by (simp only: fs_tree_def)
  have "tree_read d' ?n ?r off = tree_read d ?n ?r off" for off
    by (rule tree_read_cong) (rule tree [unfolded fs_tree_def])
  then show "fs_data d' j = fs_data d j" using sz_root by (simp add: fs_data_def tree_file_def fun_eq_iff)
qed

lemma fs_write_abs:
  assumes ok: "fs_ok N d bs" and ino: "unat ino < fs_inodes d" and off: "off + 1 \<noteq> 0"
    and n: "n_inodeblocks (d' 0) = n_inodeblocks (d 0)"
    and frame: "\<And>x. x \<noteq> 0 \<Longrightarrow> x \<noteq> fs_blkno ino \<Longrightarrow> x \<notin> set (free_blocks d bs) \<Longrightarrow>
        x \<notin> set (fs_tree d ino) \<Longrightarrow> d' x = d x"
    and cells: "\<And>c. c \<noteq> 2 * (unat ino mod INODES_PER_BLOCK) \<Longrightarrow> c \<noteq> 2 * (unat ino mod INODES_PER_BLOCK) + 1 \<Longrightarrow>
        get32 (d' (fs_blkno ino)) c = get32 (d (fs_blkno ino)) c"
    and size: "fs_size d' ino = max (fs_size d ino) (off + 1)"
    and data: "fs_data d' ino = (fs_data d ino)(off := b)"
    and heap: "heap_ok N d' bs' (fs_tree d' ino @ fs_meta d @ fs_others d ino)"
  shows "fs_ok N d' bs'" and "fs_files d' = (fs_files d)(ino \<mapsto> afile_write off b (the (fs_files d ino)))"
proof -
  note split = fs_heap_split [OF ok ino]
  note o = fs_other_inode [OF split frame cells ino]
  have inodes: "fs_inodes d' = fs_inodes d" and meta: "fs_meta d' = fs_meta d"
    using n by (simp_all add: fs_inodes_def fs_meta_def)
  have "map ((\<lambda>k. fs_tree d' (word_of_nat k))(unat ino := [])) [0..<fs_inodes d]
      = map ((\<lambda>k. fs_tree d (word_of_nat k))(unat ino := [])) [0..<fs_inodes d]"
  proof (rule map_upt_cong)
    fix k assume k: "k < fs_inodes d"
    have "k < 2 ^ 32" using k fs_inodes_bound [OF ok] by linarith
    then have "unat (word_of_nat k :: u32) = k" by (simp add: unat_of_nat)
    then show "((\<lambda>k. fs_tree d' (word_of_nat k))(unat ino := [])) k
        = ((\<lambda>k. fs_tree d (word_of_nat k))(unat ino := [])) k"
      using k o(3) [of "word_of_nat k"] by (cases "word_of_nat k = ino") auto
  qed
  then have others: "fs_others d' ino = fs_others d ino" by (simp only: fs_others_def inodes)
  have "heap_ok N d' bs' (fs_meta d' @ fs_used d')"
    using heap heap_ok_perm [of "fs_meta d' @ fs_used d'" "fs_tree d' ino @ fs_meta d @ fs_others d ino"]
      fs_used_split [of ino d'] ino inodes meta others by simp
  moreover have "fs_data d' j x = null_block" if "unat j < fs_inodes d'" "fs_size d' j \<le> x" for j x
  proof (cases "j = ino")
    case True
    have "unat (off + 1) = Suc (unat off)" using unatSuc [of off] off by (simp add: add.commute)
    then have "off < off + 1" by (simp add: word_less_nat_alt)
    then have "x \<noteq> off" "fs_size d ino \<le> x" using that(2) True size by auto
    then show ?thesis using True data fs_okD(4) [OF ok ino] by simp
  next
    case False
    then show ?thesis using that o(1) [of j] o(4) [of j] fs_okD(4) [OF ok, of j x] inodes by simp
  qed
  ultimately show "fs_ok N d' bs'" using fs_okD(1,2) [OF ok] n by (simp add: fs_ok_def)
  show "fs_files d' = (fs_files d)(ino \<mapsto> afile_write off b (the (fs_files d ino)))"
  proof
    fix j
    show "fs_files d' j = ((fs_files d)(ino \<mapsto> afile_write off b (the (fs_files d ino)))) j"
      using o(1) [of j] o(4) [of j] ino inodes size data by (simp add: fs_files_def afile_write_def)
  qed
qed

section \<open>Refinement\<close>

context writable_store
begin

lemma treedisk_get_snapshot_ok:
  assumes "ok s" and "fs_ok nblk (view s) bs"
  shows "treedisk_get_snapshot (treedisk_mk_state store ino) i s =
    Inr (if unat i < fs_inodes (view s)
         then Some \<lparr>superblock = view s 0, inodeblock = view s (fs_blkno i), inode_blockno = fs_blkno i,
                     inode = unat i mod INODES_PER_BLOCK\<rparr>
         else None, s)"
  using below_read_ok [OF assms(1), of 0] below_read_ok [OF assms(1), of "fs_blkno i"]
    fs_blkno_range [OF assms(2), of i] fs_okD(1) [OF assms(2)]
  by (simp add: treedisk_get_snapshot_def fs_inodes_def fs_blkno_def [symmetric] Let_def)

lemma treedisk_getsize_ok:
  assumes "ok s" and "fs_ok nblk (view s) bs"
  shows "treedisk_getsize (treedisk_mk_state store ino) i s =
    Inr (case fs_files (view s) i of None \<Rightarrow> -1 | Some f \<Rightarrow> sint (asize f), s)"
  by (simp add: treedisk_getsize_def treedisk_get_snapshot_ok [OF assms] fs_files_def fs_size_def)

lemma treedisk_read_ok:
  assumes "ok s" and "fs_ok nblk (view s) bs"
  shows "treedisk_read (treedisk_mk_state store ino) i off s =
    Inr (Option.bind (fs_files (view s) i) (afile_read off), s)"
proof (cases "unat i < fs_inodes (view s)")
  case True
  have "unat b < nblk" if "b \<in> set (fs_tree (view s) i)" for b
    using heap_okD(6) [OF fs_heap_split [OF assms(2) True]] that by simp
  then have walk: "treedisk_read_walk (treedisk_mk_state store ino) off
      (nlevels_of (fs_size (view s) i)) (fs_root (view s) i) s
      = Inr (Some (tree_read (view s) (nlevels_of (fs_size (view s) i)) (fs_root (view s) i) off), s)"
    unfolding fs_tree_def by (rule treedisk_read_walk_ok [OF assms(1)])
  show ?thesis
    using True walk nlevels_of_bound [of off "fs_size (view s) i"]
    by (simp add: treedisk_read_def treedisk_get_snapshot_ok [OF assms] fs_files_def afile_read_def
        fs_data_def tree_file_def Let_def not_less not_le fs_size_def [symmetric] fs_root_def [symmetric])
next
  case False
  then show ?thesis
    by (simp add: treedisk_read_def treedisk_get_snapshot_ok [OF assms] fs_files_def)
qed

lemma treedisk_write_bad_inode:
  assumes "ok s" and "fs_ok nblk (view s) bs" and "fs_files (view s) i = None"
  shows "treedisk_write (treedisk_mk_state store ino) i off b s = Inr (-1, s)"
  using assms(3)
  by (simp add: treedisk_write_def treedisk_get_snapshot_ok [OF assms(1,2)] fs_files_def split: if_splits)

lemma treedisk_write_steps:
  assumes "ok s" and "fs_ok nblk (view s) bs" and i: "unat i < fs_inodes (view s)" and off: "off + 1 \<noteq> 0"
  defines "sz \<equiv> fs_size (view s) i"
  defines "sz' \<equiv> max (fs_size (view s) i) (off + 1)"
  defines "k \<equiv> unat i mod INODES_PER_BLOCK"
  shows "treedisk_write (treedisk_mk_state store ino) i off b s =
    bindE (treedisk_grow (treedisk_mk_state store ino) (nlevels_of sz' - nlevels_of sz)
             \<lparr>superblock = view s 0, inodeblock = set_inode_nblocks (view s (fs_blkno i)) k sz',
              inode_blockno = fs_blkno i, inode = k\<rparr> s) (\<lambda>(snap, s).
    bindE (if sz \<le> off then below_write_or_panic (treedisk_mk_state store ino)
               ''treedisk_write: inode block'' (inode_blockno snap) (inodeblock snap) s else Inr s) (\<lambda>s.
    bindE (treedisk_write_walk (treedisk_mk_state store ino) off (nlevels_of sz') (inodeblock snap)
             (2 * inode snap) (inode_blockno snap) snap s) (\<lambda>(lf, s).
    bindE (below_write_or_panic (treedisk_mk_state store ino) ''treedisk_write: data block'' lf b s) (\<lambda>s.
    Inr (0, s)))))" (is ?steps)
    and "nlevels_of sz \<le> nlevels_of sz'"
proof -
  let ?P = "view s (fs_blkno i)"
  have k: "k < 64" by (simp add: k_def layout_simps)
  have len: "length ?P = 512" using assms(1) fs_blkno_range [OF assms(2) i] by (rule view_length)
  have sz: "inode_nblocks ?P k = sz" by (simp add: sz_def k_def fs_size_def)
  have "unat (off + 1) = Suc (unat off)" using unatSuc [of off] off by (simp add: add.commute)
  then have less: "off < sz \<longleftrightarrow> off + 1 \<le> sz" by (simp add: word_less_nat_alt word_le_nat_alt Suc_le_eq)
  show "nlevels_of sz \<le> nlevels_of sz'"
    using nlevels_of_extend [of sz off] nlevels_of_plus_1 [OF off] less
    by (auto simp: sz'_def sz_def max_def)
  show ?steps
  proof (cases "sz \<le> off")
    case True
    then have "\<not> off + 1 \<le> sz" using less by auto
    then have sz': "sz' = off + 1" unfolding sz'_def sz_def [symmetric] by (simp add: max_absorb2)
    have nb: "inode_nblocks (set_inode_nblocks ?P k (off + 1)) k = off + 1"
      using k len by (simp add: inode_nblocks_def set_inode_nblocks_def get32_put32_same)
    have lv: "nlevels_of (off + 1) = levels_loop off 0" using off by (rule nlevels_of_plus_1)
    have "nlevels_of sz \<le> levels_loop off 0" using True by (rule nlevels_of_extend)
    then show ?thesis
      using True off
      by (cases "nlevels_of sz = levels_loop off 0")
        (simp_all add: treedisk_write_def treedisk_get_snapshot_ok [OF assms(1,2)] i sz' nb lv Let_def
          sz k_def [symmetric])
  next
    case False
    then have "off + 1 \<le> sz" "sz \<noteq> 0" using less by (auto simp: not_le)
    then have sz': "sz' = sz" unfolding sz'_def sz_def [symmetric] by (simp add: max_absorb1)
    have same: "set_inode_nblocks ?P k sz = ?P"
      using put32_get32_id [of ?P "2 * k + 1"] sz by (simp add: set_inode_nblocks_def inode_nblocks_def)
    show ?thesis
      using False \<open>sz \<noteq> 0\<close>
      by (simp add: treedisk_write_def treedisk_get_snapshot_ok [OF assms(1,2)] i sz' same Let_def
          sz k_def [symmetric])
  qed
qed

text \<open>
  The first half of a write: new roots are inserted and the inode block is written. Block \<open>fs_blkno i\<close>
  then holds the new size and a root whose tree stores the old file.
\<close>

lemma treedisk_write_inode_ok:
  assumes "ok s" and "fs_ok nblk (view s) bs" and i: "unat i < fs_inodes (view s)" and "off + 1 \<noteq> 0"
    and room: "nlevels_of sz' - nlevels_of (fs_size (view s) i) \<le> length (free_blocks (view s) bs)"
    and le: "nlevels_of (fs_size (view s) i) \<le> nlevels_of sz'" and k: "k = unat i mod INODES_PER_BLOCK"
    and sz': "\<not> fs_size (view s) i \<le> off \<Longrightarrow> sz' = fs_size (view s) i"
  obtains s1 snap s2 bs2 r where
    "treedisk_grow (treedisk_mk_state store ino) (nlevels_of sz' - nlevels_of (fs_size (view s) i))
       \<lparr>superblock = view s 0, inodeblock = set_inode_nblocks (view s (fs_blkno i)) k sz',
        inode_blockno = fs_blkno i, inode = k\<rparr> s = Inr (snap, s1)"
    and "snap = \<lparr>superblock = view s2 0, inodeblock = view s2 (fs_blkno i),
                  inode_blockno = fs_blkno i, inode = k\<rparr>"
    and "(if fs_size (view s) i \<le> off then below_write_or_panic (treedisk_mk_state store ino)
            ''treedisk_write: inode block'' (fs_blkno i) (inodeblock snap) s1 else Inr s1) = Inr s2"
    and "ok s2"
    and "view s2 (fs_blkno i) = set_inode_root (set_inode_nblocks (view s (fs_blkno i)) k sz') k r"
    and "heap_ok nblk (view s2) bs2 (tree_blocks (view s2) (nlevels_of sz') r @
           fs_meta (view s) @ fs_others (view s) i)"
    and "tree_file (view s2) (nlevels_of sz') r = fs_data (view s) i"
    and "mset (free_blocks (view s2) bs2) + mset (tree_blocks (view s2) (nlevels_of sz') r)
      = mset (free_blocks (view s) bs) + mset (fs_tree (view s) i)"
    and "\<And>x. x \<noteq> 0 \<Longrightarrow> x \<noteq> fs_blkno i \<Longrightarrow> x \<notin> set (free_blocks (view s) bs) \<Longrightarrow> view s2 x = view s x"
    and "n_inodeblocks (view s2 0) = n_inodeblocks (view s 0)"
    and "length (free_blocks (view s) bs) = length (free_blocks (view s2) bs2) +
           (nlevels_of sz' - nlevels_of (fs_size (view s) i))"
proof -
  let ?ts = "treedisk_mk_state store ino" and ?P = "view s (fs_blkno i)" and ?sz = "fs_size (view s) i"
  let ?us = "fs_meta (view s) @ fs_others (view s) i"
  let ?n0 = "nlevels_of ?sz" and ?n1 = "nlevels_of sz'"
  let ?snap = "\<lparr>superblock = view s 0, inodeblock = set_inode_nblocks ?P k sz',
        inode_blockno = fs_blkno i, inode = k\<rparr>"
  have lenP: "length ?P = 512" using assms(1) fs_blkno_range [OF assms(2) i] by (rule view_length)
  have root: "inode_root (inodeblock ?snap) (inode ?snap) = fs_root (view s) i"
    by (simp add: inode_root_def set_inode_nblocks_def fs_root_def k get32_put32_other double_not_eq_Suc_double)
  have "heap_ok nblk (view s) bs (tree_blocks (view s) ?n0 (fs_root (view s) i) @ ?us)"
    using fs_heap_split [OF assms(2) i] by (simp add: fs_tree_def)
  then obtain r s1 bs1 where g: "treedisk_grow ?ts (?n1 - ?n0) ?snap s
      = Inr (?snap\<lparr>superblock := view s1 0, inodeblock := set_inode_root (set_inode_nblocks ?P k sz') k r\<rparr>, s1)"
    "ok s1" "heap_ok nblk (view s1) bs1 (tree_blocks (view s1) ?n1 r @ ?us)"
    "tree_file (view s1) ?n1 r = fs_data (view s) i"
    "mset (free_blocks (view s1) bs1) + mset (tree_blocks (view s1) ?n1 r)
      = mset (free_blocks (view s) bs) + mset (fs_tree (view s) i)"
    "\<And>x. x \<noteq> 0 \<Longrightarrow> x \<notin> set (free_blocks (view s) bs) \<Longrightarrow> view s1 x = view s x"
    "n_inodeblocks (view s1 0) = n_inodeblocks (view s 0)"
    "length (free_blocks (view s) bs) = length (free_blocks (view s1) bs1) + (?n1 - ?n0)"
    "?n1 - ?n0 = 0 \<longrightarrow> s1 = s \<and> r = fs_root (view s) i"
    using treedisk_grow_ok [of s ?snap bs ?n0 ?us "?n1 - ?n0"] assms(1) room le lenP root
    by (auto simp: set_inode_nblocks_def k layout_simps fs_data_def fs_tree_def)
  let ?P2 = "set_inode_root (set_inode_nblocks ?P k sz') k r"
  note h = heap_okD [OF g(3)]
  have p: "fs_blkno i \<in> set ?us" "fs_blkno i \<notin> set (tree_blocks (view s1) ?n1 r)"
    using fs_blkno_meta [OF i] h(3) by auto
  then have pf: "fs_blkno i \<notin> set (free_blocks (view s1) bs1)" using h(4) by simp
  have "\<exists>s2. (if ?sz \<le> off then below_write_or_panic ?ts ''treedisk_write: inode block'' (fs_blkno i) ?P2 s1
      else Inr s1) = Inr s2 \<and> ok s2 \<and> view s2 = (view s1)(fs_blkno i := ?P2)"
  proof (cases "?sz \<le> off")
    case True
    then show ?thesis
      using below_write_ok [OF g(2) fs_blkno_range [OF assms(2) i], of ?P2] lenP
      by (simp add: set_inode_root_def set_inode_nblocks_def) metis
  next
    case False
    then have "s1 = s" "r = fs_root (view s) i" using g(9) sz' by auto
    moreover have "set_inode_root (set_inode_nblocks ?P k sz') k (fs_root (view s) i) = ?P"
      using sz' [OF False] put32_get32_id [of ?P "2 * k + 1"] put32_get32_id [of ?P "2 * k"]
      by (simp add: set_inode_nblocks_def set_inode_root_def fs_size_def fs_root_def inode_nblocks_def
          inode_root_def k)
    ultimately show ?thesis using False g(2) by simp
  qed
  then obtain s2 where s2: "(if ?sz \<le> off then below_write_or_panic ?ts ''treedisk_write: inode block''
      (fs_blkno i) ?P2 s1 else Inr s1) = Inr s2" "ok s2" "view s2 = (view s1)(fs_blkno i := ?P2)" by blast
  have tree: "view s2 x = view s1 x" if "x \<in> set (tree_blocks (view s1) ?n1 r)" for x
    using that p(2) s2(3) by auto
  have fr: "heap_ok nblk (view s2) bs1 (tree_blocks (view s1) ?n1 r @ ?us)"
    "free_blocks (view s2) bs1 = free_blocks (view s1) bs1"
    using heap_ok_frame [where d' = "view s2", OF g(3)] pf s2(3) fs_blkno_nonzero [of i] by fastforce+
  have T: "tree_blocks (view s2) ?n1 r = tree_blocks (view s1) ?n1 r" by (rule tree_blocks_cong) (rule tree)
  have "tree_read (view s2) ?n1 r x = tree_read (view s1) ?n1 r x" for x by (rule tree_read_cong) (rule tree)
  then have F: "tree_file (view s2) ?n1 r = fs_data (view s) i"
    unfolding g(4) [symmetric] by (simp add: tree_file_def fun_eq_iff)
  show thesis
  proof (rule that [OF g(1)])
    show "?snap\<lparr>superblock := view s1 0, inodeblock := ?P2\<rparr> = \<lparr>superblock = view s2 0,
        inodeblock = view s2 (fs_blkno i), inode_blockno = fs_blkno i, inode = k\<rparr>"
      using s2(3) fs_blkno_nonzero [of i] by simp
    show "view s2 (fs_blkno i) = ?P2" using s2(3) by simp
    show "heap_ok nblk (view s2) bs1 (tree_blocks (view s2) ?n1 r @ ?us)" using fr(1) T by simp
  qed (use s2 g(5-8) fr(2) T F fs_blkno_nonzero [of i] in \<open>auto simp: fun_upd_other\<close>)
qed

text \<open>The blocks that a write of \<open>off\<close> can take off the free list.\<close>

lemma treedisk_write_ok:
  assumes "ok s" and fs: "fs_ok nblk (view s) bs" and i: "unat i < fs_inodes (view s)"
    and off: "off + 1 \<noteq> 0" and b: "length b = 512"
    and room: "nlevels_of (max (fs_size (view s) i) (off + 1)) - nlevels_of (fs_size (view s) i)
        + Suc (nlevels_of (max (fs_size (view s) i) (off + 1))) \<le> length (free_blocks (view s) bs)"
  shows "\<exists>s' bs'. treedisk_write (treedisk_mk_state store ino) i off b s = Inr (0, s') \<and> ok s' \<and>
    fs_ok nblk (view s') bs' \<and>
    fs_files (view s') = (fs_files (view s))(i \<mapsto> afile_write off b (the (fs_files (view s) i))) \<and>
    length (free_blocks (view s) bs) \<le> length (free_blocks (view s') bs') +
      (nlevels_of (max (fs_size (view s) i) (off + 1)) - nlevels_of (fs_size (view s) i)
        + Suc (nlevels_of (max (fs_size (view s) i) (off + 1))))"
proof -
  let ?ts = "treedisk_mk_state store ino" and ?d = "view s" and ?p = "fs_blkno i"
  let ?k = "unat i mod INODES_PER_BLOCK"
  define sz' where "sz' = max (fs_size ?d i) (off + 1)"
  let ?n0 = "nlevels_of (fs_size ?d i)" and ?n1 = "nlevels_of sz'"
  let ?us = "fs_meta ?d @ fs_others ?d i"
  note steps = treedisk_write_steps [OF assms(1) fs i off, folded sz'_def]
  have unat1: "unat (off + 1) = Suc (unat off)" using unatSuc [of off] off by (simp add: add.commute)
  then have "\<not> fs_size ?d i \<le> off \<Longrightarrow> sz' = fs_size ?d i"
    unfolding sz'_def by (intro max_absorb1) (simp add: word_le_nat_alt)
  then obtain s1 snap s2 bs2 r where
    e: "treedisk_grow ?ts (?n1 - ?n0) \<lparr>superblock = ?d 0, inodeblock = set_inode_nblocks (?d ?p) ?k sz',
        inode_blockno = ?p, inode = ?k\<rparr> s = Inr (snap, s1)"
      "snap = \<lparr>superblock = view s2 0, inodeblock = view s2 ?p, inode_blockno = ?p, inode = ?k\<rparr>"
      "(if fs_size ?d i \<le> off then below_write_or_panic ?ts ''treedisk_write: inode block'' ?p
          (inodeblock snap) s1 else Inr s1) = Inr s2" "ok s2"
    and P2: "view s2 ?p = set_inode_root (set_inode_nblocks (?d ?p) ?k sz') ?k r"
    and heap2: "heap_ok nblk (view s2) bs2 (tree_blocks (view s2) ?n1 r @ ?us)"
    and file2: "tree_file (view s2) ?n1 r = fs_data ?d i"
    and m2: "mset (free_blocks (view s2) bs2) + mset (tree_blocks (view s2) ?n1 r)
        = mset (free_blocks ?d bs) + mset (fs_tree ?d i)"
    and fr2: "\<And>x. x \<noteq> 0 \<Longrightarrow> x \<noteq> ?p \<Longrightarrow> x \<notin> set (free_blocks ?d bs) \<Longrightarrow> view s2 x = ?d x"
    and n2: "n_inodeblocks (view s2 0) = n_inodeblocks (?d 0)"
    and len2: "length (free_blocks ?d bs) = length (free_blocks (view s2) bs2) + (?n1 - ?n0)"
    using treedisk_write_inode_ok [OF assms(1) fs i off _ steps(2) refl] room unfolding sz'_def [symmetric]
    by (metis add_leD1)
  have lenP: "length (?d ?p) = 512" using assms(1) fs_blkno_range [OF fs i] by (rule view_length)
  have k: "?k < 64" by (simp add: layout_simps)
  have root2: "get32 (view s2 ?p) (2 * ?k) = r" and lenP2: "length (view s2 ?p) = 512"
    using P2 lenP k by (simp_all add: set_inode_root_def set_inode_nblocks_def get32_put32_same)
  have p_us: "?p \<in> set ?us" using fs_blkno_meta [OF i] by simp
  have "?n1 < length (free_blocks (view s2) bs2)" using room len2 unfolding sz'_def [symmetric] by linarith
  then obtain lf s3 bs3 where w: "treedisk_write_walk ?ts off ?n1 (view s2 ?p) (2 * ?k) ?p snap s2 = Inr (lf, s3)"
      "ok s3" "subtree_written ?n1 off ?p (view s2 ?p) (2 * ?k) (view s2) bs2 (view s3) bs3 lf"
    using treedisk_write_walk_ok [of s2 snap bs2 ?n1 "view s2 ?p" "2 * ?k" ?us ?p off] e(2,4) heap2 root2
      p_us lenP2 by auto
  obtain r3 where c: "r3 \<noteq> 0" "view s3 ?p = put32 (view s2 ?p) (2 * ?k) r3" "lf \<noteq> 0"
    "tree_leaf (view s3) ?n1 r3 off = lf" "free_chain (view s3) (free_list (view s3 0)) bs3"
    "mset (free_blocks (view s3) bs3) + mset (tree_blocks (view s3) ?n1 r3)
      = mset (free_blocks (view s2) bs2) + mset (tree_blocks (view s2) ?n1 r)"
    "\<And>x. x \<noteq> 0 \<Longrightarrow> x \<noteq> ?p \<Longrightarrow> x \<notin> set (free_blocks (view s2) bs2) \<Longrightarrow>
       x \<notin> set (tree_blocks (view s2) ?n1 r) \<Longrightarrow> view s3 x = view s2 x"
    "\<And>x. \<not> same_path ?n1 x off \<Longrightarrow> tree_read (view s3) ?n1 r3 x = tree_read (view s2) ?n1 r x"
    "n_inodeblocks (view s3 0) = n_inodeblocks (view s2 0)"
    "length (free_blocks (view s2) bs2) \<le> length (free_blocks (view s3) bs3) + Suc ?n1"
    using w(3) unfolding subtree_written_def root2 by blast
  have heap3: "heap_ok nblk (view s3) bs3 (tree_blocks (view s3) ?n1 r3 @ ?us)"
    by (rule heap_ok_mset [OF heap2 c(5)]) (use c(6) in \<open>simp add: add.assoc [symmetric]\<close>)
  note h3 = heap_okD [OF heap3]
  have lf_in: "lf \<in> set (tree_blocks (view s3) ?n1 r3)" using tree_leaf_in c(3,4) by blast
  then have lf: "unat lf < nblk" "lf \<notin> set (free_blocks (view s3) bs3)" "lf \<noteq> ?p"
    using h3(3) h3(4) [of lf] h3(6) [of lf] p_us by auto
  obtain s4 where s4: "below_write_or_panic ?ts ''treedisk_write: data block'' lf b s3 = Inr s4"
    "ok s4" "view s4 = (view s3)(lf := b)"
    using below_write_ok [OF w(2) lf(1) b] by metis
  have dist: "distinct (tree_blocks (view s3) ?n1 r3)" using h3(3) by simp
  have T4: "tree_blocks (view s4) ?n1 r3 = tree_blocks (view s3) ?n1 r3"
    unfolding s4(3) by (rule leaf_write_blocks [OF dist c(4,3)])
  have p4: "view s4 ?p = put32 (view s2 ?p) (2 * ?k) r3" using s4(3) lf(3) c(2) by simp
  have size4: "fs_size (view s4) i = sz'"
    using lenP k unfolding fs_size_def inode_nblocks_def p4 P2 set_inode_root_def set_inode_nblocks_def
    by (simp add: get32_put32_other get32_put32_same)
  have root4: "fs_root (view s4) i = r3"
    using lenP2 k unfolding fs_root_def inode_root_def p4 by (simp add: get32_put32_same)
  have tree4: "fs_tree (view s4) i = tree_blocks (view s3) ?n1 r3"
    using size4 root4 T4 by (simp add: fs_tree_def)
  have blocks: "set (free_blocks (view s2) bs2) \<union> set (tree_blocks (view s2) ?n1 r)
      = set (free_blocks ?d bs) \<union> set (fs_tree ?d i)"
    "set (free_blocks (view s3) bs3) \<union> set (tree_blocks (view s3) ?n1 r3)
      = set (free_blocks ?d bs) \<union> set (fs_tree ?d i)"
    using arg_cong [where f = set_mset, OF m2] arg_cong [where f = set_mset, OF c(6)] by auto
  have frame4: "view s4 x = ?d x" if "x \<noteq> 0" "x \<noteq> ?p" "x \<notin> set (free_blocks ?d bs)" "x \<notin> set (fs_tree ?d i)" for x
  proof -
    have "x \<notin> set (free_blocks (view s2) bs2)" "x \<notin> set (tree_blocks (view s2) ?n1 r)" "x \<noteq> lf"
      using that(3,4) blocks lf_in by blast+
    then show ?thesis using c(7) [OF that(1,2)] fr2 [OF that(1-3)] s4(3) by simp
  qed
  have cells4: "get32 (view s4 ?p) j = get32 (?d ?p) j" if "j \<noteq> 2 * ?k" "j \<noteq> 2 * ?k + 1" for j
    using that unfolding p4 P2 set_inode_root_def set_inode_nblocks_def by (simp add: get32_put32_other)
  have "off < off + 1" using unat1 by (simp add: word_less_nat_alt)
  then have "off < sz'" unfolding sz'_def less_max_iff_disj by (rule disjI2)
  then have off_n1: "unat off < 128 ^ ?n1" by (rule nlevels_of_bound)
  note lw = leaf_write_read [OF dist c(4,3), where x = b, folded s4(3)]
  have data4: "fs_data (view s4) i = (fs_data ?d i)(off := b)"
  proof
    fix x
    have "tree_read (view s4) ?n1 r3 x = tree_read (view s2) ?n1 r x" if "x \<noteq> off" "unat x < 128 ^ ?n1"
      using that lw(2) c(8) same_path_inj [of ?n1 x off] off_n1 by metis
    then have "tree_file (view s4) ?n1 r3 x = (if x = off then b else tree_file (view s2) ?n1 r x)"
      using lw(1) off_n1 by (simp add: tree_file_def)
    then show "fs_data (view s4) i x = ((fs_data ?d i)(off := b)) x"
      using size4 root4 file2 by (simp add: fs_data_def)
  qed
  have fr4: "heap_ok nblk (view s4) bs3 (tree_blocks (view s3) ?n1 r3 @ ?us)"
    "free_blocks (view s4) bs3 = free_blocks (view s3) bs3"
    using heap_ok_frame [where d' = "view s4", OF heap3] lf(2) c(3) s4(3) by fastforce+
  have n4: "n_inodeblocks (view s4 0) = n_inodeblocks (?d 0)" using s4(3) c(3) c(9) n2 by simp
  note abs = fs_write_abs [OF fs i off n4 frame4 cells4 size4 [unfolded sz'_def] data4 fr4(1) [folded tree4]]
  have "treedisk_write ?ts i off b s = Inr (0, s4)"
    using steps(1) e w(1) s4(1) by (cases "fs_size ?d i \<le> off") simp_all
  moreover have "length (free_blocks ?d bs) \<le> length (free_blocks (view s4) bs3) + (?n1 - ?n0 + Suc ?n1)"
    using len2 c(10) fr4(2) by simp
  ultimately show ?thesis using s4(2) abs unfolding sz'_def by blast
qed

end

end
