(* ===== verification/Treedisk_Create.thy ===== *)
theory Treedisk_Create
  imports Treedisk_Files
begin

text \<open>
  \<open>treedisk_create\<close> on a store without a file system: the free list it builds holds every block
  after the inode blocks exactly once, and every inode is an empty file.
\<close>

section \<open>The free list\<close>

abbreviation blocks_between :: "nat \<Rightarrow> nat \<Rightarrow> u32 list" where
  "blocks_between lo hi \<equiv> map word_of_nat [lo..<hi]"

lemma fill_freelist_ok:
  assumes "length b = 512" and "k < REFS_PER_BLOCK" and "0 < unat nf" and "unat nf \<le> unat N"
  shows "length (fst (fill_freelist k nf N b)) = 512 \<and>
    (\<forall>i < REFS_PER_BLOCK - k. get32 (fst (fill_freelist k nf N b)) i = get32 b i) \<and>
    unat (snd (fill_freelist k nf N b)) = min (unat N) (unat nf + k) \<and>
    filter (\<lambda>x. x \<noteq> 0) (map (get32 (fst (fill_freelist k nf N b))) [REFS_PER_BLOCK - k..<REFS_PER_BLOCK])
      = blocks_between (unat nf) (min (unat N) (unat nf + k))"
  using assms
proof (induction k arbitrary: nf b)
  case (Suc k)
  let ?i = "REFS_PER_BLOCK - Suc k"
  have i: "?i < REFS_PER_BLOCK" "REFS_PER_BLOCK - k = Suc ?i" using Suc.prems(2) by (auto simp: layout_simps)
  have upt: "[?i..<REFS_PER_BLOCK] = ?i # [REFS_PER_BLOCK - k..<REFS_PER_BLOCK]"
    unfolding i(2) using i(1) by (rule upt_conv_Cons)
  define v where "v = (if nf < N then nf else 0)"
  define nf' where "nf' = (if nf < N then nf + 1 else nf)"
  have len: "length (put32 b ?i v) = 512" using Suc.prems(1) by simp
  have nf': "unat nf' = (if nf < N then Suc (unat nf) else unat nf)"
    using unat_Suc_word [of nf N] by (simp add: nf'_def)
  have eq: "fill_freelist (Suc k) nf N b = fill_freelist k nf' N (put32 b ?i v)"
    by (simp add: v_def nf'_def)
  have "k < REFS_PER_BLOCK" "0 < unat nf'" "unat nf' \<le> unat N"
    using Suc.prems(2-4) nf' by (auto simp: word_less_nat_alt)
  note IH = Suc.IH [OF len this]
  let ?r = "fst (fill_freelist k nf' N (put32 b ?i v))"
  have cell: "get32 ?r ?i = v" using IH i Suc.prems(1) by (simp add: get32_put32_same layout_simps)
  have keep: "\<forall>j < ?i. get32 ?r j = get32 b j" using IH i by (simp add: get32_put32_other)
  have mn: "min (unat N) (unat nf' + k) = min (unat N) (unat nf + Suc k)"
    using Suc.prems(4) nf' by (auto simp: word_less_nat_alt)
  have "nf \<noteq> 0" using Suc.prems(3) by auto
  then have "filter (\<lambda>x. x \<noteq> 0) (map (get32 ?r) [?i..<REFS_PER_BLOCK])
      = blocks_between (unat nf) (min (unat N) (unat nf + Suc k))"
    unfolding upt using IH cell mn nf' Suc.prems(4)
    by (auto simp: v_def word_less_nat_alt upt_conv_Cons)
  then show ?case unfolding eq using IH keep mn by simp
qed (use assms in auto)

lemma blocks_between_append:
  "lo \<le> mid \<Longrightarrow> mid \<le> hi \<Longrightarrow> blocks_between lo hi = blocks_between lo mid @ blocks_between mid hi"
  using upt_add_eq_append [of lo mid "hi - mid"] by (simp flip: map_append)

lemma in_blocks_between:
  "hi \<le> 2 ^ 32 \<Longrightarrow> x \<in> set (blocks_between lo hi) \<longleftrightarrow> lo \<le> unat x \<and> unat x < hi"
proof -
  assume "hi \<le> 2 ^ 32"
  then have "unat (word_of_nat k :: u32) = k" if "k < hi" for k using that by (simp add: unat_of_nat)
  moreover have "x = word_of_nat (unat x)" by simp
  ultimately show ?thesis by (auto simp: image_iff intro!: bexI [of _ "unat x"])
qed

lemma distinct_blocks_between: "hi \<le> 2 ^ 32 \<Longrightarrow> distinct (blocks_between lo hi)"
  by (auto simp: distinct_map inj_on_def word_of_nat_eq_iff take_bit_nat_eq_self)

context writable_store
begin

lemma setup_freelist_ok:
  assumes "ok s" and "free_chain (view s) fb bs" and "0 < lo" and "lo \<le> unat nf" and "unat nf \<le> unat N"
    and "unat N \<le> nblk" and "mset (free_blocks (view s) bs) = mset (blocks_between lo (unat nf))"
  shows "\<exists>fl s' bs'. setup_freelist (treedisk_mk_state store ino) nf N fb s = Inr (fl, s') \<and> ok s' \<and>
    free_chain (view s') fl bs' \<and> mset (free_blocks (view s') bs') = mset (blocks_between lo (unat N)) \<and>
    (\<forall>x. unat x < lo \<longrightarrow> view s' x = view s x)"
  using assms
proof (induction "treedisk_mk_state store ino" nf N fb s arbitrary: bs rule: setup_freelist.induct)
  case (1 nf N fb s)
  show ?case
  proof (cases "nf < N")
    case False
    then have "unat nf = unat N" using "1.prems"(5) by (simp add: word_less_nat_alt)
    then show ?thesis using 1 False by (auto simp: setup_freelist.simps [of _ nf] word_less_nat_alt)
  next
    case True
    let ?fill = "fill_freelist (REFS_PER_BLOCK - 1) (nf + 1) N (put32 null_block 0 fb)"
    have nf1: "unat (nf + 1) = Suc (unat nf)" using True by (rule unat_Suc_word)
    have F: "length (fst ?fill) = 512 \<and> (\<forall>i < REFS_PER_BLOCK - (REFS_PER_BLOCK - 1).
          get32 (fst ?fill) i = get32 (put32 null_block 0 fb) i) \<and>
        unat (snd ?fill) = min (unat N) (unat (nf + 1) + (REFS_PER_BLOCK - 1)) \<and>
        filter (\<lambda>x. x \<noteq> 0) (map (get32 (fst ?fill)) [REFS_PER_BLOCK - (REFS_PER_BLOCK - 1)..<REFS_PER_BLOCK])
        = blocks_between (unat (nf + 1)) (min (unat N) (unat (nf + 1) + (REFS_PER_BLOCK - 1)))"
      by (rule fill_freelist_ok) (use True nf1 in \<open>simp_all add: layout_simps word_less_nat_alt\<close>)
    have r1: "REFS_PER_BLOCK - (REFS_PER_BLOCK - 1) = 1" by (simp add: layout_simps)
    let ?hi = "unat (snd ?fill)"
    have fill: "length (fst ?fill) = 512" "get32 (fst ?fill) 0 = fb"
      "free_cells (fst ?fill) = blocks_between (Suc (unat nf)) ?hi"
      "Suc (unat nf) \<le> ?hi" "?hi \<le> unat N"
      using F True unfolding r1 free_cells_def by (simp_all add: nf1 get32_put32_same word_less_nat_alt)
    have nf_N: "unat nf < nblk" using True "1.prems"(6) by (simp add: word_less_nat_alt)
    obtain s1 where w: "below_write_or_panic (treedisk_mk_state store ino) ''treedisk_setup_freelist'' nf (fst ?fill) s = Inr s1"
      and s1: "ok s1" "view s1 = (view s)(nf := fst ?fill)"
      using below_write_ok [OF "1.prems"(1) nf_N fill(1)] by metis
    have N32: "unat N \<le> 2 ^ 32" using unsigned_less [of N, where ?'a = nat] by simp
    have "set (free_blocks (view s) bs) = set (blocks_between lo (unat nf))"
      using "1.prems"(7) by (rule mset_eq_setD)
    then have "nf \<notin> set (free_blocks (view s) bs)"
      using in_blocks_between [of "unat nf" nf lo] N32 True by (simp add: word_less_nat_alt)
    then have same: "view s1 b = view s b" if "b \<in> set bs" for b
      using that free_chain_subset [of bs "view s"] s1(2) by auto
    have chain: "free_chain (view s1) fb bs" using "1.prems"(2) free_chain_cong [OF same] by simp
    have fbs: "free_blocks (view s1) bs = free_blocks (view s) bs" by (rule free_blocks_cong) (rule same)
    have "nf \<noteq> 0" using "1.prems"(3,4) by auto
    then have chain1: "free_chain (view s1) nf (nf # bs)" using chain s1(2) fill(2) by simp
    have "blocks_between lo ?hi = blocks_between lo (unat nf) @ nf # blocks_between (Suc (unat nf)) ?hi"
      using blocks_between_append [of lo "unat nf" ?hi] "1.prems"(4) fill(4) by (simp add: upt_conv_Cons)
    then have m1: "mset (free_blocks (view s1) (nf # bs)) = mset (blocks_between lo ?hi)"
      using fbs s1(2) fill(3) "1.prems"(7) by simp
    have "lo \<le> ?hi" using "1.prems"(4) fill(4) by simp
    from "1.hyps" [OF True refl s1(1) chain1 "1.prems"(3) this fill(5) "1.prems"(6) m1]
    obtain fl s' bs' where "setup_freelist (treedisk_mk_state store ino) (snd ?fill) N nf s1 = Inr (fl, s')" "ok s'"
      "free_chain (view s') fl bs'" "mset (free_blocks (view s') bs') = mset (blocks_between lo (unat N))"
      "\<forall>x. unat x < lo \<longrightarrow> view s' x = view s1 x" by blast
    moreover have "view s1 x = view s x" if "unat x < lo" for x using that "1.prems"(4) s1(2) by auto
    ultimately show ?thesis
      using True w by (auto simp: setup_freelist.simps [of _ nf] Let_def)
  qed
qed

lemma clear_inodeblocks_ok:
  assumes "ok s" and "unat i + k \<le> nblk"
  shows "\<exists>s'. clear_inodeblocks (treedisk_mk_state store ino) k i s = Inr (0, s') \<and> ok s' \<and>
    view s' = (\<lambda>x. if unat i \<le> unat x \<and> unat x < unat i + k then null_block else view s x)"
  using assms
proof (induction k arbitrary: i s)
  case (Suc k)
  have i: "unat i < nblk" using Suc.prems(2) by simp
  obtain s1 where s1: "below_write (treedisk_mk_state store ino) i null_block s = Inr (0, s1)" "ok s1"
    "view s1 = (view s)(i := null_block)"
    using below_write_ok [OF Suc.prems(1) i length_null_block] by metis
  have "unat i + 1 < 2 ^ 32" using i nblk_bound by simp
  then have i1: "unat (i + 1) = Suc (unat i)" by (simp add: unat_word_ariths)
  then obtain s' where s': "clear_inodeblocks (treedisk_mk_state store ino) k (i + 1) s1 = Inr (0, s')" "ok s'"
    "view s' = (\<lambda>x. if unat (i + 1) \<le> unat x \<and> unat x < unat (i + 1) + k then null_block else view s1 x)"
    using Suc.IH [of s1 "i + 1"] s1(2) Suc.prems(2) by auto
  have "view s' = (\<lambda>x. if unat i \<le> unat x \<and> unat x < unat i + Suc k then null_block else view s x)"
    unfolding s'(3) s1(3) i1 by (auto simp: fun_eq_iff word_unat_eq_iff)
  then show ?case using s1(1) s' by simp
qed (auto simp: fun_eq_iff)

section \<open>Creation\<close>

lemma treedisk_create_exists:
  assumes "ok s" and "n_inodeblocks (view s 0) \<noteq> 0"
    and "(unat n + INODES_PER_BLOCK - 1) div INODES_PER_BLOCK + 2 \<le> nblk"
  shows "treedisk_create store ino n s = Inr (0, s)"
proof -
  let ?K = "(unat n + INODES_PER_BLOCK - 1) div INODES_PER_BLOCK"
  have "unat (word_of_nat ?K + 2 :: u32) = ?K + 2" "unat (word_of_int (int nblk) :: u32) = nblk"
    using assms(3) nblk_bound by (simp_all add: unat_word_ariths unat_of_nat)
  then show ?thesis
    using assms below_read_ok [OF assms(1), of 0]
    by (simp add: treedisk_create_def getsize_ok [OF assms(1)] word_less_nat_alt Let_def)
qed

lemma treedisk_create_ok:
  assumes "ok s" and "n_inodeblocks (view s 0) = 0"
    and K: "K = (unat n + INODES_PER_BLOCK - 1) div INODES_PER_BLOCK" and "K + 2 \<le> nblk"
  shows "\<exists>s' bs. treedisk_create store ino n s = Inr (0, s') \<and> ok s' \<and> fs_ok nblk (view s') bs \<and>
    fs_files (view s') = (\<lambda>i. if unat i < K * INODES_PER_BLOCK then Some afile_empty else None) \<and>
    mset (free_blocks (view s') bs) = mset (blocks_between (Suc K) nblk)"
proof -
  let ?ts = "treedisk_mk_state store ino" and ?K = "word_of_nat K :: u32"
  let ?N = "word_of_int (int nblk) :: u32"
  have "unat n < 2 ^ 32" using unsigned_less [of n, where ?'a = nat] by simp
  then have K26: "K \<le> 2 ^ 26" unfolding K by (simp add: layout_simps)
  have uK: "unat ?K = K" "unat (?K + 2) = K + 2" "unat (?K + 1) = Suc K" and uN: "unat ?N = nblk"
    using K26 assms(4) nblk_bound by (simp_all add: unat_word_ariths unat_of_nat)
  have zN: "unat (0::u32) < nblk" using assms(4) by simp
  obtain fl s1 bs where fl: "setup_freelist ?ts (?K + 1) ?N 0 s = Inr (fl, s1)" "ok s1"
    "free_chain (view s1) fl bs" "mset (free_blocks (view s1) bs) = mset (blocks_between (Suc K) nblk)"
    using setup_freelist_ok [of s 0 "[]" "Suc K" "?K + 1" ?N] assms(1,4) uK uN by auto
  let ?sb = "set_free_list (set_n_inodeblocks null_block ?K) fl"
  obtain s2 where s2: "below_write ?ts 0 ?sb s1 = Inr (0, s2)" "ok s2" "view s2 = (view s1)(0 := ?sb)"
    using below_write_ok [OF fl(2) zN, of ?sb] by (metis length_null_block length_put32 set_free_list_def set_n_inodeblocks_def)
  obtain s3 where s3: "clear_inodeblocks ?ts K 1 s2 = Inr (0, s3)" "ok s3"
    "view s3 = (\<lambda>x. if 1 \<le> unat x \<and> unat x < 1 + K then null_block else view s2 x)"
    using clear_inodeblocks_ok [of s2 1 K] s2(2) assms(4) by auto
  have sb3: "n_inodeblocks (view s3 0) = ?K" "free_list (view s3 0) = fl"
    unfolding s3(3) s2(3)
    by (simp_all add: n_inodeblocks_def free_list_def set_free_list_def set_n_inodeblocks_def
        get32_put32_same get32_put32_other)
  have n32: "nblk \<le> 2 ^ 32" using nblk_bound by simp
  have set_free: "set (free_blocks (view s1) bs) = set (blocks_between (Suc K) nblk)"
    using fl(4) by (rule mset_eq_setD)
  have same: "view s3 b = view s1 b" if "b \<in> set bs" for b
  proof -
    have "Suc K \<le> unat b"
      using that free_chain_subset [of bs "view s1"] set_free in_blocks_between [OF n32] by blast
    then show ?thesis unfolding s3(3) s2(3) by auto
  qed
  have chain: "free_chain (view s3) fl bs" using fl(3) free_chain_cong [OF same] by simp
  have fbs: "free_blocks (view s3) bs = free_blocks (view s1) bs" by (rule free_blocks_cong) (rule same)
  have null: "view s3 (fs_blkno i) = null_block" if "unat i < fs_inodes (view s3)" for i
  proof -
    have "unat i div INODES_PER_BLOCK < K"
      using that sb3 uK by (simp add: fs_inodes_def layout_simps div_less_iff_less_mult)
    then show ?thesis unfolding s3(3) by (simp add: unat_fs_blkno)
  qed
  then have inode: "fs_size (view s3) i = 0" "fs_root (view s3) i = 0" if "unat i < fs_inodes (view s3)" for i
    using that by (simp_all add: fs_size_def fs_root_def inode_nblocks_def inode_root_def layout_simps)
  then have data: "fs_data (view s3) i = (\<lambda>_. null_block)" if "unat i < fs_inodes (view s3)" for i
    using that by (simp add: fs_data_def tree_file_def fun_eq_iff)
  have inodes: "fs_inodes (view s3) = K * INODES_PER_BLOCK" using sb3 uK by (simp add: fs_inodes_def)
  have "K * INODES_PER_BLOCK \<le> 2 ^ 32" using K26 by (simp add: layout_simps)
  then have "fs_tree (view s3) (word_of_nat k) = []" if "k < K * INODES_PER_BLOCK" for k
    using that inode(2) [of "word_of_nat k"] inodes by (simp add: fs_tree_def unat_of_nat)
  then have used: "fs_used (view s3) = []" unfolding fs_used_def inodes by (intro concat_map_Nil) auto
  have meta: "fs_meta (view s3) = blocks_between 1 (Suc K)" using sb3 uK by (simp add: fs_meta_def)
  have "heap_ok nblk (view s3) bs (blocks_between 1 (Suc K))"
    unfolding heap_ok_def
  proof (intro conjI ballI)
    show "free_chain (view s3) (free_list (view s3 0)) bs" using chain sb3 by simp
    have "mset (free_blocks (view s3) bs @ blocks_between 1 (Suc K))
        = mset (blocks_between 1 nblk)"
      using fbs fl(4) blocks_between_append [of 1 "Suc K" nblk] assms(4) by simp
    then show "distinct (free_blocks (view s3) bs @ blocks_between 1 (Suc K))"
      using distinct_blocks_between [OF n32] mset_eq_imp_distinct_iff by blast
    have sk: "Suc K \<le> 2 ^ 32" using K26 by simp
    fix b assume "b \<in> set (free_blocks (view s3) bs) \<union> set (blocks_between 1 (Suc K))"
    then have "1 \<le> unat b \<and> unat b < nblk"
      using fbs set_free in_blocks_between [OF n32, of b "Suc K"] in_blocks_between [OF sk, of b 1] assms(4) by auto
    then show "b \<noteq> 0" "unat b < nblk" by auto
  qed
  then have "fs_ok nblk (view s3) bs"
    using assms(4) sb3 uK K26 data unfolding fs_ok_def meta used by simp
  moreover have "fs_files (view s3) = (\<lambda>i. if unat i < K * INODES_PER_BLOCK then Some afile_empty else None)"
    using inode data inodes by (auto simp: fs_files_def afile_empty_def fun_eq_iff)
  moreover have "treedisk_create store ino n s = Inr (0, s3)"
    using assms(2,4) uK uN getsize_ok [OF assms(1)] below_read_ok [OF assms(1) zN] fl(1) s2(1) s3(1)
    unfolding treedisk_create_def K [symmetric] by (simp add: word_less_nat_alt Let_def)
  ultimately show ?thesis using s3(2) fbs fl(4) by auto
qed

end

end
