(* ===== verification/Mkfs.thy ===== *)
theory Mkfs
  imports Treedisk_Create Egos_Layout
begin

text \<open>
  The image builder \<^verbatim>\<open>tools/mkfs.c\<close>: the ramdisk inode store over the array \<^verbatim>\<open>fs\<close>, the table
  \<^verbatim>\<open>contents\<close>, \<^verbatim>\<open>mkfs\<close> and \<^verbatim>\<open>main\<close>. The ramdisk keeps the writable-store contract, so the treedisk
  lemmas hold of it; \<^verbatim>\<open>mkfs\<close> then leaves exactly the table's files. Host files are a parameter: a
  function from path names to bytes, and the number of bytes each \<^verbatim>\<open>read\<close> returns.
\<close>

section \<open>Ramdisk\<close>

definition NINODES :: u32 where "NINODES = 128"

text \<open>\<^verbatim>\<open>offset * BLOCK_SIZE\<close> is a 32-bit product; an access that leaves the array is undefined.\<close>

definition ram_index :: "u32 \<Rightarrow> nat" where "ram_index offset = unat (offset * 512)"

definition ramdisk_getsize :: "u32 \<Rightarrow> byte list \<Rightarrow> (int \<times> byte list) res" where
  "ramdisk_getsize ino fs = Inr (int (FS_DISK_SIZE div BLOCK_SIZE), fs)"

definition ramdisk_setsize :: "u32 \<Rightarrow> u32 \<Rightarrow> byte list \<Rightarrow> (int \<times> byte list) res" where
  "ramdisk_setsize ino newsize fs = Inl (Fatal ''assert(0)'')"

definition ramread :: "u32 \<Rightarrow> u32 \<Rightarrow> byte list \<Rightarrow> (block option \<times> byte list) res" where
  "ramread ino offset fs =
     (if ram_index offset + BLOCK_SIZE \<le> length fs
      then Inr (Some (take BLOCK_SIZE (drop (ram_index offset) fs)), fs)
      else Inl (Undefined ''ramread: outside fs''))"

definition ramwrite :: "u32 \<Rightarrow> u32 \<Rightarrow> block \<Rightarrow> byte list \<Rightarrow> (int \<times> byte list) res" where
  "ramwrite ino offset block fs =
     (if ram_index offset + BLOCK_SIZE \<le> length fs
      then Inr (0, take (ram_index offset) fs @ block @ drop (ram_index offset + BLOCK_SIZE) fs)
      else Inl (Undefined ''ramwrite: outside fs''))"

definition ramdisk_init :: "byte list inode_store" where
  "ramdisk_init = \<lparr>getsize_fn = ramdisk_getsize, setsize_fn = ramdisk_setsize,
                   read_fn = ramread, write_fn = ramwrite\<rparr>"

definition ram_view :: "byte list \<Rightarrow> u32 \<Rightarrow> block" where
  "ram_view fs off = take 512 (drop (unat off * 512) fs)"

lemma ram_index_eq: "unat off < 4096 \<Longrightarrow> ram_index off = unat off * 512"
  by (simp add: ram_index_def unat_word_ariths)

lemma splice_nth:
  "length b = n \<Longrightarrow> a + n \<le> length xs \<Longrightarrow>
     (take a xs @ b @ drop (a + n) xs) ! m = (if a \<le> m \<and> m < a + n then b ! (m - a) else xs ! m)"
  by (auto simp: nth_append)

lemma take_drop_splice:
  assumes "i \<noteq> j" and "length b = n" and "j * n + n \<le> length xs" and "i * n + n \<le> length xs"
  shows "take n (drop (i * n) (take (j * n) xs @ b @ drop (j * n + n) xs)) = take n (drop (i * n) xs)"
proof -
  define ys where "ys = take (j * n) xs @ b @ drop (j * n + n) xs"
  have "i * n + n \<le> j * n \<or> j * n + n \<le> i * n"
    using mult_le_mono1 [of "Suc i" j n] mult_le_mono1 [of "Suc j" i n] assms(1) by fastforce
  then have "ys ! (i * n + k) = xs ! (i * n + k)" if "k < n" for k
    using that splice_nth [OF assms(2,3), of "i * n + k"] unfolding ys_def by auto
  moreover have "length ys = length xs" using assms(2,3) by (simp add: ys_def)
  ultimately have "take n (drop (i * n) ys) = take n (drop (i * n) xs)"
    using assms(4) by (intro nth_equalityI) auto
  then show ?thesis by (simp only: ys_def)
qed

interpretation rd: writable_store ramdisk_init 0 "\<lambda>fs. length fs = FS_DISK_SIZE" "4096" ram_view
proof unfold_locales
  fix fs :: "byte list" and off :: u32
  assume len: "length fs = FS_DISK_SIZE"
  show "getsize_fn ramdisk_init 0 fs = Inr (int 4096, fs)"
    by (simp add: ramdisk_init_def ramdisk_getsize_def layout_simps)
  assume off: "unat off < 4096"
  show "read_fn ramdisk_init 0 off fs = Inr (Some (ram_view fs off), fs)"
    using off len by (simp add: ramdisk_init_def ramread_def ram_index_eq ram_view_def layout_simps)
  show "length (ram_view fs off) = 512"
    using off len by (simp add: ram_view_def layout_simps)
  fix b :: block
  assume b: "length b = 512"
  let ?fs = "take (unat off * 512) fs @ b @ drop (unat off * 512 + 512) fs"
  have "ram_view ?fs x = ((ram_view fs)(off := b)) x" if "unat x < 4096" for x
    using that off len b take_drop_splice [of "unat x" "unat off" b 512 fs]
    by (cases "x = off") (simp_all add: ram_view_def layout_simps word_unat_eq_iff)
  moreover have "ram_view ?fs x = ((ram_view fs)(off := b)) x" if "\<not> unat x < 4096" for x
    using that off len b by (auto simp: ram_view_def layout_simps)
  ultimately have "ram_view ?fs = (ram_view fs)(off := b)" by blast
  then show "\<exists>s'. write_fn ramdisk_init 0 off b fs = Inr (0, s') \<and> length s' = FS_DISK_SIZE \<and>
      ram_view s' = (ram_view fs)(off := b)"
    using off len b
    by (simp add: ramdisk_init_def ramwrite_def ram_index_eq layout_simps)
qed (simp add: layout_simps)

section \<open>mkfs\<close>

definition contents :: "string list" where
  "contents =
    [''./   0 ../   0 home/   1 bin/   6 '',
     ''./   1 ../   0 yunhao/   2 rvr/   3 lorenzo/   4 '',
     ''./   2 ../   1 README   5 '',
     ''./   3 ../   1 '',
     ''./   4 ../   1 '',
     ''With only 2000 lines of code, egos-2000 implements boot loader, microSD driver, tty driver, memory paging, address translation, interrupt handling, process scheduling and messaging, system call, file system, shell, 7 user commands and the `mkfs/mkrom` tools.'',
     ''./   6 ../   0 echo   7 cat   8 ls   9 cd  10 pwd  11 clock  12 crash1  13 crash2  14 ult  15 '',
     ''#../build/release/echo.elf'',
     ''#../build/release/cat.elf'',
     ''#../build/release/ls.elf'',
     ''#../build/release/cd.elf'',
     ''#../build/release/pwd.elf'',
     ''#../build/release/clock.elf'',
     ''#../build/release/crash1.elf'',
     ''#../build/release/crash2.elf'',
     ''#../build/release/ult.elf'']"

definition strncpy_buf :: "byte list \<Rightarrow> string \<Rightarrow> nat \<Rightarrow> byte list" where
  "strncpy_buf buf str n = put_at buf 0 (take n (map of_char str @ replicate n 0))"

text \<open>
  \<^verbatim>\<open>for (nread = 0; nread < st_size;) nread += read(0, buf + nread, lim - nread)\<close>, where \<open>chunk pos n\<close> is
  what a \<^verbatim>\<open>read\<close> of at most \<open>n\<close> bytes at position \<open>pos\<close> returns. The loop need not end.
\<close>

partial_function (option) read_loop ::
    "(nat \<Rightarrow> nat \<Rightarrow> nat) \<Rightarrow> byte list \<Rightarrow> nat \<Rightarrow> nat \<Rightarrow> byte list \<Rightarrow> byte list res option" where
  "read_loop chunk file lim nread buf =
     (if nread < length file then
        (let k = chunk nread (lim - nread) in
         if nread + k \<le> length buf
         then read_loop chunk file lim (nread + k) (put_at buf nread (take k (drop nread file)))
         else Some (Inl (Undefined ''read: outside buf'')))
      else Some (Inr buf))"

text \<open>\<^verbatim>\<open>for (b = 0; b * BLOCK_SIZE < st_size; b++) treedisk->write(treedisk, ino, b, buf + b * BLOCK_SIZE)\<close>\<close>

function mkfs_blocks ::
    "'s inode_store \<Rightarrow> u32 \<Rightarrow> nat \<Rightarrow> byte list \<Rightarrow> nat \<Rightarrow> 's \<Rightarrow> 's res" where
  "mkfs_blocks td ino st_size buf b s =
     (if b * BLOCK_SIZE < st_size then
        bindE (write_fn td ino (word_of_nat b) (take BLOCK_SIZE (drop (b * BLOCK_SIZE) buf)) s) (\<lambda>(_, s).
        mkfs_blocks td ino st_size buf (Suc b) s)
      else Inr s)"
  by pat_completeness auto
termination
  by (relation "measure (\<lambda>(td, ino, st_size, buf, b, s). st_size - b)") (auto simp: layout_simps)

declare mkfs_blocks.simps [simp del]

fun mkfs_loop ::
    "(string \<Rightarrow> byte list) \<Rightarrow> (nat \<Rightarrow> nat \<Rightarrow> nat) \<Rightarrow> u32 \<Rightarrow> string list \<Rightarrow> byte list \<Rightarrow> byte list
       \<Rightarrow> byte list res option" where
  "mkfs_loop host chunk ino [] buf fs = Some (Inr fs)"
| "mkfs_loop host chunk ino (entry # rest) buf fs =
     (let td = treedisk_init ramdisk_init 0 in
      if take 1 entry \<noteq> ''#'' then
        let buf = strncpy_buf buf entry BLOCK_SIZE in
        bindO (Some (write_fn td ino 0 (take BLOCK_SIZE buf) fs)) (\<lambda>(_, fs).
        mkfs_loop host chunk (ino + 1) rest buf fs)
      else
        let file = host (drop 1 entry) in
        bindO (read_loop chunk file (length file) 0 buf) (\<lambda>buf.
        bindO (Some (mkfs_blocks td ino (length file) buf 0 fs)) (\<lambda>fs.
        mkfs_loop host chunk (ino + 1) rest buf fs)))"

text \<open>\<open>buf\<close> is the uninitialised stack buffer; \<open>fs\<close> is the zero-initialised static array.\<close>

definition mkfs ::
    "(string \<Rightarrow> byte list) \<Rightarrow> (nat \<Rightarrow> nat \<Rightarrow> nat) \<Rightarrow> byte list \<Rightarrow> byte list \<Rightarrow> byte list res option" where
  "mkfs host chunk buf fs =
     bindO (Some (treedisk_create ramdisk_init 0 NINODES fs)) (\<lambda>(r, fs).
     if r < 0 then Some (Inl (Fatal ''assert(treedisk_create)''))
     else mkfs_loop host chunk 0 contents buf fs)"

section \<open>The disk image\<close>

definition kernel_processes :: "string list" where
  "kernel_processes =
    [''../build/release/grass.elf'', ''../build/release/sys_proc.elf'', ''../build/release/sys_file.elf'',
     ''../build/release/sys_dir.elf'', ''../build/release/sys_shell.elf'']"

definition exec_size :: nat where "exec_size = GRASS_EXEC_SIZE div GRASS_NEXEC"

text \<open>One iteration reads a file into the cleared buffer \<^verbatim>\<open>exec\<close> and writes it with its padding.\<close>

fun image_execs ::
    "(string \<Rightarrow> byte list) \<Rightarrow> (nat \<Rightarrow> nat \<Rightarrow> nat) \<Rightarrow> string list \<Rightarrow> byte list \<Rightarrow> byte list res option" where
  "image_execs host chunk [] out = Some (Inr out)"
| "image_execs host chunk (name # rest) out =
     (let file = host name in
      if \<not> (length file > 0 \<and> length file \<le> exec_size) then Some (Inl (Fatal ''assert(st_size)'')) else
      bindO (read_loop chunk file exec_size 0 (replicate GRASS_EXEC_SIZE 0)) (\<lambda>exec.
      image_execs host chunk rest
        (out @ take (length file) exec @ replicate (exec_size - length file) 0)))"

definition mkfs_main ::
    "(string \<Rightarrow> byte list) \<Rightarrow> (nat \<Rightarrow> nat \<Rightarrow> nat) \<Rightarrow> byte list \<Rightarrow> byte list res option" where
  "mkfs_main host chunk buf =
     bindO (mkfs host chunk buf (replicate FS_DISK_SIZE 0)) (\<lambda>fs.
     bindO (image_execs host chunk kernel_processes (replicate PAGING_DEV_SIZE 0)) (\<lambda>out.
     Some (Inr (out @ replicate ((GRASS_NEXEC - length kernel_processes) * exec_size) 0 @ fs))))"

end
