(* ===== verification/Mkfs_Correct.thy ===== *)
theory Mkfs_Correct
  imports Mkfs
begin

text \<open>
  The image that \<^verbatim>\<open>tools/mkfs.c\<close> writes: the reading loop returns the host file whatever sizes \<^verbatim>\<open>read\<close>
  returns, and \<^verbatim>\<open>mkfs\<close> leaves a well-formed treedisk whose first sixteen inodes are the table's
  files and whose other inodes are empty.
\<close>

section \<open>Reading a host file\<close>

text \<open>What \<^verbatim>\<open>read(2)\<close> promises of a file with \<open>n\<close> bytes left: progress, and no more than is asked or left.\<close>

definition read_progress :: "(nat \<Rightarrow> nat \<Rightarrow> nat) \<Rightarrow> nat \<Rightarrow> bool" where
  "read_progress chunk len \<longleftrightarrow>
     (\<forall>pos n. pos < len \<longrightarrow> 0 < n \<longrightarrow> 0 < chunk pos n \<and> chunk pos n \<le> n \<and> pos + chunk pos n \<le> len)"

lemma read_loop_ok:
  assumes "read_progress chunk (length file)" and "length file \<le> lim" and "length file \<le> length buf"
    and "nread \<le> length file" and "take nread buf = take nread file"
  shows "read_loop chunk file lim nread buf = Some (Inr (file @ drop (length file) buf))"
  using assms(3-5)
proof (induction "length file - nread" arbitrary: nread buf rule: less_induct)
  case less
  show ?case
  proof (cases "nread < length file")
    case False
    then have "nread = length file" using less.prems(2) by simp
    then show ?thesis
      using less.prems(1,3) append_take_drop_id [of nread buf] by (simp add: read_loop.simps)
  next
    case True
    let ?k = "chunk nread (lim - nread)"
    let ?buf = "put_at buf nread (take ?k (drop nread file))"
    have k: "0 < ?k" "nread + ?k \<le> length file"
      using assms(1,2) True unfolding read_progress_def by (metis order.strict_trans2 zero_less_diff)+
    have len: "length (take ?k (drop nread file)) = ?k" using k(2) by simp
    have "take (nread + ?k) ?buf = take (nread + ?k) file"
      using less.prems len k by (simp add: put_at_def take_add)
    moreover have "length ?buf = length buf" "drop (length file) ?buf = drop (length file) buf"
      using less.prems(1) len k by (simp_all add: put_at_def)
    ultimately show ?thesis
      using less.hyps [of "nread + ?k" ?buf] less.prems(1) k True
      by (simp add: read_loop.simps [of _ _ _ nread] Let_def)
  qed
qed

section \<open>Files as lists of blocks\<close>

definition afile_of :: "block list \<Rightarrow> afile" where
  "afile_of bl = \<lparr>asize = word_of_nat (length bl),
     adata = (\<lambda>x. if unat x < length bl then bl ! unat x else null_block)\<rparr>"

lemma afile_of_Nil: "afile_of [] = afile_empty"
  by (simp add: afile_of_def afile_empty_def)

lemma afile_write_snoc:
  assumes "k < length bl" and "length bl < 2 ^ 31"
  shows "afile_write (word_of_nat k) (bl ! k) (afile_of (take k bl)) = afile_of (take (Suc k) bl)"
proof -
  have u: "unat (word_of_nat k :: u32) = k" "unat (word_of_nat k + 1 :: u32) = Suc k"
    using assms by (simp_all add: unat_of_nat unat_word_ariths)
  have "max (word_of_nat k :: u32) (word_of_nat k + 1) = word_of_nat (Suc k)"
    using u by (intro max_absorb2 [THEN trans]) (simp_all add: word_le_nat_alt add.commute)
  moreover have "((\<lambda>x::u32. if unat x < k then take k bl ! unat x else null_block)(word_of_nat k := bl ! k)) x
      = (if unat x < Suc k then take (Suc k) bl ! unat x else null_block)" for x
    using u(1) by (auto simp: less_Suc_eq word_unat_eq_iff)
  ultimately show ?thesis using assms by (simp add: afile_write_def afile_of_def fun_eq_iff min_absorb2 Suc_leI less_imp_le)
qed

lemma nlevels_of_le_1: "unat sz \<le> 128 \<Longrightarrow> nlevels_of sz \<le> 1"
proof -
  assume sz: "unat sz \<le> 128"
  have "levels_loop (sz - 1) 0 \<le> 1" if "sz > 0"
  proof (rule levels_loop_least)
    have "unat (sz - 1) = unat sz - 1" using that by (metis unat_minus_one word_greater_zero_iff)
    then show "unat (sz - 1) < 128 ^ 1" using sz that by (simp add: word_less_nat_alt)
  qed simp
  then show ?thesis by (simp add: nlevels_of_def)
qed

text \<open>A ramdisk that holds a file system with at least \<open>room\<close> free blocks.\<close>

definition ram_fs :: "nat \<Rightarrow> byte list \<Rightarrow> bool" where
  "ram_fs room fs \<longleftrightarrow> length fs = FS_DISK_SIZE \<and>
     (\<exists>bs. fs_ok 4096 (ram_view fs) bs \<and> room \<le> length (free_blocks (ram_view fs) bs))"

lemma ram_fs_write:
  assumes "ram_fs (room + 3) fs" and f: "fs_files (ram_view fs) i = Some (afile_of (take k bl))"
    and "k < length bl" and "length bl \<le> 128" and "length (bl ! k) = 512"
  shows "\<exists>fs'. write_fn (treedisk_init ramdisk_init 0) i (word_of_nat k) (bl ! k) fs = Inr (0, fs') \<and>
    ram_fs room fs' \<and> fs_files (ram_view fs') = (fs_files (ram_view fs))(i \<mapsto> afile_of (take (Suc k) bl))"
proof -
  obtain bs where bs: "length fs = FS_DISK_SIZE" "fs_ok 4096 (ram_view fs) bs"
    "room + 3 \<le> length (free_blocks (ram_view fs) bs)"
    using assms(1) by (auto simp: ram_fs_def)
  have i: "unat i < fs_inodes (ram_view fs)" and size: "fs_size (ram_view fs) i = word_of_nat k"
    using f assms(3) by (auto simp: fs_files_def afile_of_def min_def split: if_splits)
  have u: "unat (word_of_nat k :: u32) = k" "unat (word_of_nat k + 1 :: u32) = Suc k"
    using assms(3,4) by (simp_all add: unat_of_nat unat_word_ariths)
  then have nz: "(word_of_nat k :: u32) + 1 \<noteq> 0" by (metis unat_0 nat.distinct(1))
  have "unat (max (word_of_nat k :: u32) (word_of_nat k + 1)) \<le> 128"
    using u assms(3,4) by (simp add: max_def)
  then have n: "nlevels_of (max (word_of_nat k :: u32) (word_of_nat k + 1)) \<le> 1" by (rule nlevels_of_le_1)
  let ?cost = "nlevels_of (max (word_of_nat k :: u32) (word_of_nat k + 1)) - nlevels_of (word_of_nat k :: u32)
      + Suc (nlevels_of (max (word_of_nat k :: u32) (word_of_nat k + 1)))"
  have cost: "?cost \<le> 3" using n by linarith
  then have room: "?cost \<le> length (free_blocks (ram_view fs) bs)" using bs(3) by linarith
  obtain fs' bs' where w: "treedisk_write (treedisk_mk_state ramdisk_init 0) i (word_of_nat k) (bl ! k) fs = Inr (0, fs')"
    "length fs' = FS_DISK_SIZE" "fs_ok 4096 (ram_view fs') bs'"
    "fs_files (ram_view fs') = (fs_files (ram_view fs))(i \<mapsto>
       afile_write (word_of_nat k) (bl ! k) (the (fs_files (ram_view fs) i)))"
    "length (free_blocks (ram_view fs) bs) \<le> length (free_blocks (ram_view fs') bs') + ?cost"
    using rd.treedisk_write_ok [OF bs(1,2) i nz assms(5), unfolded size, OF room] by blast
  have "ram_fs room fs'" using w(2,3,5) bs(3) cost unfolding ram_fs_def by (meson add_le_cancel_right add_le_mono le_trans order_refl)
  then show ?thesis
    using w(1,4) f afile_write_snoc [of k bl] assms(3,4)
    by (simp add: treedisk_init_def treedisk_ops_def)
qed

lemma ram_fs_mono: "ram_fs n fs \<Longrightarrow> m \<le> n \<Longrightarrow> ram_fs m fs"
  unfolding ram_fs_def using le_trans by blast

section \<open>The loops of mkfs\<close>

definition buf_blocks :: "nat \<Rightarrow> byte list \<Rightarrow> block list" where
  "buf_blocks st_size buf = map (\<lambda>k. take 512 (drop (k * 512) buf)) [0..<(st_size + 511) div 512]"

lemma mkfs_blocks_ok:
  assumes "st_size \<le> 65536" and "st_size \<le> length buf" and "512 dvd length buf"
    and "b \<le> (st_size + 511) div 512"
    and "ram_fs (room + 3 * ((st_size + 511) div 512 - b)) fs"
    and "fs_files (ram_view fs) i = Some (afile_of (take b (buf_blocks st_size buf)))"
  shows "\<exists>fs'. mkfs_blocks (treedisk_init ramdisk_init 0) i st_size buf b fs = Inr fs' \<and> ram_fs room fs' \<and>
    fs_files (ram_view fs') = (fs_files (ram_view fs))(i \<mapsto> afile_of (buf_blocks st_size buf))"
  using assms(4-6)
proof (induction "(st_size + 511) div 512 - b" arbitrary: b fs)
  case 0
  then have b: "b = (st_size + 511) div 512" by simp
  then have "\<not> b * 512 < st_size" by simp
  moreover have "take b (buf_blocks st_size buf) = buf_blocks st_size buf" by (simp add: buf_blocks_def b)
  ultimately show ?case using 0 b by (auto simp: mkfs_blocks.simps layout_simps fun_upd_triv)
next
  case (Suc n)
  let ?bl = "buf_blocks st_size buf"
  have lt: "b < (st_size + 511) div 512" using Suc.hyps(2) by simp
  then have b512: "b * 512 < st_size" by (simp add: less_eq_div_iff_mult_less_eq Suc_le_eq [symmetric])
  have len: "length ?bl = (st_size + 511) div 512" "length ?bl \<le> 128" using assms(1) by (simp_all add: buf_blocks_def)
  have blk: "?bl ! b = take 512 (drop (b * 512) buf)" using lt by (simp add: buf_blocks_def)
  have "b * 512 < length buf" using b512 assms(2) by simp
  then have "b * 512 + 512 \<le> length buf" using assms(3) by (auto elim!: dvdE)
  then have lenb: "length (?bl ! b) = 512" by (simp add: blk)
  have room: "ram_fs ((room + 3 * ((st_size + 511) div 512 - Suc b)) + 3) fs"
    using Suc.prems(2) Suc.hyps(2) by (rule_tac ram_fs_mono) auto
  obtain fs1 where w: "write_fn (treedisk_init ramdisk_init 0) i (word_of_nat b) (?bl ! b) fs = Inr (0, fs1)"
    "ram_fs (room + 3 * ((st_size + 511) div 512 - Suc b)) fs1"
    "fs_files (ram_view fs1) = (fs_files (ram_view fs))(i \<mapsto> afile_of (take (Suc b) ?bl))"
    using ram_fs_write [OF room Suc.prems(3) _ len(2) lenb] lt len(1) by metis
  have "\<exists>fs'. mkfs_blocks (treedisk_init ramdisk_init 0) i st_size buf (Suc b) fs1 = Inr fs' \<and> ram_fs room fs' \<and>
      fs_files (ram_view fs') = (fs_files (ram_view fs1))(i \<mapsto> afile_of ?bl)"
    using Suc.hyps(2) lt w(2,3) by (intro Suc.hyps(1)) auto
  then show ?case using w(1,3) b512
    by (auto simp: mkfs_blocks.simps [of _ _ _ _ b] layout_simps blk)
qed

definition afile_bytes :: "afile \<Rightarrow> byte list" where
  "afile_bytes f = concat (map (\<lambda>k. adata f (word_of_nat k)) [0..<unat (asize f)])"

text \<open>The file has the blocks that \<open>data\<close> needs and starts with \<open>data\<close>.\<close>

definition file_stores :: "afile \<Rightarrow> byte list \<Rightarrow> bool" where
  "file_stores f data \<longleftrightarrow>
     unat (asize f) = (length data + 511) div 512 \<and> take (length data) (afile_bytes f) = data"

lemma concat_chunks: "concat (map (\<lambda>k. take n (drop (k * n) xs)) [0..<m]) = take (m * n) xs"
  by (induction m) (simp_all add: take_add [symmetric] add.commute)

lemma afile_bytes_buf_blocks:
  assumes "st_size \<le> 65536"
  shows "afile_bytes (afile_of (buf_blocks st_size buf)) = take ((st_size + 511) div 512 * 512) buf"
proof -
  let ?n = "(st_size + 511) div 512"
  have n: "?n \<le> 128" using assms by simp
  have "map (\<lambda>k. adata (afile_of (buf_blocks st_size buf)) (word_of_nat k)) [0..<?n]
      = map (\<lambda>k. take 512 (drop (k * 512) buf)) [0..<?n]"
    using n by (intro map_upt_cong) (simp add: afile_of_def buf_blocks_def unat_of_nat)
  moreover have "unat (asize (afile_of (buf_blocks st_size buf))) = ?n"
    using n by (simp add: afile_of_def buf_blocks_def unat_of_nat)
  ultimately show ?thesis by (simp only: afile_bytes_def concat_chunks)
qed

lemma file_stores_blocks:
  assumes "length data \<le> 65536" and "take (length data) buf = data"
  shows "file_stores (afile_of (buf_blocks (length data) buf)) data"
proof -
  have "length data \<le> (length data + 511) div 512 * 512" by linarith
  then have "take (length data) (take ((length data + 511) div 512 * 512) buf) = data"
    using assms(2) by (simp add: min_absorb1)
  moreover have "(length data + 511) div 512 < 2 ^ 32" using assms(1) by simp
  ultimately show ?thesis
    unfolding file_stores_def afile_bytes_buf_blocks [OF assms(1)]
    by (simp add: afile_of_def buf_blocks_def unat_of_nat)
qed

section \<open>mkfs\<close>

definition is_app :: "string \<Rightarrow> bool" where "is_app entry \<longleftrightarrow> take 1 entry = ''#''"

text \<open>What an entry of the table stands for.\<close>

definition entry_data :: "(string \<Rightarrow> byte list) \<Rightarrow> string \<Rightarrow> byte list" where
  "entry_data host entry = (if is_app entry then host (drop 1 entry) else map of_char entry)"

definition entry_ok :: "(string \<Rightarrow> byte list) \<Rightarrow> (nat \<Rightarrow> nat \<Rightarrow> nat) \<Rightarrow> string \<Rightarrow> bool" where
  "entry_ok host chunk entry \<longleftrightarrow>
     (if is_app entry
      then length (host (drop 1 entry)) \<le> 65536 \<and> read_progress chunk (length (host (drop 1 entry)))
      else 0 < length entry \<and> length entry \<le> 512)"

definition entry_cost :: "string \<Rightarrow> nat" where
  "entry_cost entry = (if is_app entry then 384 else 3)"

text \<open>The file stores the entry; a text is padded with zeros to a block.\<close>

definition entry_stored :: "(string \<Rightarrow> byte list) \<Rightarrow> string \<Rightarrow> afile \<Rightarrow> bool" where
  "entry_stored host entry f \<longleftrightarrow> file_stores f (entry_data host entry) \<and>
     (\<not> is_app entry \<longrightarrow> afile_bytes f = map of_char entry @ replicate (512 - length entry) 0)"

text \<open>One iteration, for both kinds of entry.\<close>

lemma mkfs_loop_step:
  assumes ok: "entry_ok host chunk entry" and buf: "length buf = 131072"
    and room: "ram_fs (room + entry_cost entry) fs" and i: "fs_files (ram_view fs) i = Some afile_empty"
  shows "\<exists>buf' fs' f. mkfs_loop host chunk i (entry # rest) buf fs = mkfs_loop host chunk (i + 1) rest buf' fs' \<and>
    length buf' = 131072 \<and> ram_fs room fs' \<and>
    fs_files (ram_view fs') = (fs_files (ram_view fs))(i \<mapsto> f) \<and> entry_stored host entry f"
proof (cases "is_app entry")
  case True
  let ?file = "host (drop 1 entry)"
  have hf: "length ?file \<le> 65536" "read_progress chunk (length ?file)" using ok True by (auto simp: entry_ok_def)
  define buf' where "buf' = ?file @ drop (length ?file) buf"
  have buf': "read_loop chunk ?file (length ?file) 0 buf = Some (Inr buf')" "length buf' = 131072"
    using read_loop_ok [OF hf(2), of "length ?file" buf 0] hf(1) buf by (simp_all add: buf'_def)
  have "ram_fs (room + 3 * ((length ?file + 511) div 512 - 0)) fs"
    using room True hf(1) by (rule_tac ram_fs_mono) (auto simp: entry_cost_def)
  then obtain fs' where fs': "mkfs_blocks (treedisk_init ramdisk_init 0) i (length ?file) buf' 0 fs = Inr fs'"
    "ram_fs room fs'" "fs_files (ram_view fs') = (fs_files (ram_view fs))(i \<mapsto> afile_of (buf_blocks (length ?file) buf'))"
    using mkfs_blocks_ok [of "length ?file" buf' 0 room fs i] hf(1) buf'(2) i
    by (auto simp: afile_of_Nil)
  moreover have "entry_stored host entry (afile_of (buf_blocks (length ?file) buf'))"
    using file_stores_blocks [OF hf(1), of buf'] True by (simp add: entry_stored_def entry_data_def buf'_def)
  ultimately show ?thesis
    using True buf' by (auto simp: is_app_def Let_def)
next
  case False
  have len: "0 < length entry" "length entry \<le> 512" using ok False by (auto simp: entry_ok_def)
  define blk :: block where "blk = map of_char entry @ replicate (512 - length entry) 0"
  define buf' where "buf' = strncpy_buf buf entry BLOCK_SIZE"
  have buf': "take BLOCK_SIZE buf' = blk" "length buf' = 131072" "length blk = 512"
    using len buf by (simp_all add: buf'_def blk_def strncpy_buf_def put_at_def layout_simps min_absorb2)
  have room3: "ram_fs (room + 3) fs" using room False by (simp add: entry_cost_def)
  obtain fs' where fs': "write_fn (treedisk_init ramdisk_init 0) i 0 blk fs = Inr (0, fs')" "ram_fs room fs'"
    "fs_files (ram_view fs') = (fs_files (ram_view fs))(i \<mapsto> afile_of [blk])"
    using ram_fs_write [OF room3, of i 0 "[blk]"] i buf'(3) by (auto simp: afile_of_Nil)
  have "(length entry + 511) div 512 = 1" using len by linarith
  then have "entry_stored host entry (afile_of [blk])"
    using False by (simp add: entry_stored_def file_stores_def entry_data_def afile_of_def afile_bytes_def blk_def)
  then show ?thesis
    using False fs' buf' by (auto simp: is_app_def Let_def buf'_def [symmetric])
qed

lemma mkfs_loop_ok:
  assumes "\<forall>e \<in> set entries. entry_ok host chunk e" and "length buf = 131072"
    and "ram_fs (room + sum_list (map entry_cost entries)) fs"
    and "unat i + length entries \<le> 128"
    and "\<And>x. unat i \<le> unat x \<Longrightarrow> unat x < unat i + length entries \<Longrightarrow> fs_files (ram_view fs) x = Some afile_empty"
  shows "\<exists>fs'. mkfs_loop host chunk i entries buf fs = Some (Inr fs') \<and> ram_fs room fs' \<and>
    (\<forall>k < length entries. \<exists>f. fs_files (ram_view fs') (i + word_of_nat k) = Some f \<and>
       entry_stored host (entries ! k) f) \<and>
    (\<forall>x. unat x < unat i \<or> unat i + length entries \<le> unat x \<longrightarrow>
       fs_files (ram_view fs') x = fs_files (ram_view fs) x)"
  using assms
proof (induction entries arbitrary: i buf fs)
  case (Cons e entries)
  have "entry_ok host chunk e" "ram_fs (room + sum_list (map entry_cost entries) + entry_cost e) fs"
    "fs_files (ram_view fs) i = Some afile_empty"
    using Cons.prems(1,3) Cons.prems(5) [of i] by (simp_all add: ac_simps)
  from mkfs_loop_step [OF this(1) Cons.prems(2) this(2,3)]
  obtain buf' fs1 f where s: "mkfs_loop host chunk i (e # entries) buf fs = mkfs_loop host chunk (i + 1) entries buf' fs1"
    "length buf' = 131072" "ram_fs (room + sum_list (map entry_cost entries)) fs1"
    "fs_files (ram_view fs1) = (fs_files (ram_view fs))(i \<mapsto> f)" "entry_stored host e f" by blast
  have i1: "unat (i + 1) = Suc (unat i)" using Cons.prems(4) by (simp add: unat_word_ariths)
  have other: "x \<noteq> i" if "Suc (unat i) \<le> unat x" for x using that by auto
  obtain fs' where r: "mkfs_loop host chunk (i + 1) entries buf' fs1 = Some (Inr fs')" "ram_fs room fs'"
    "\<And>k. k < length entries \<Longrightarrow> \<exists>f. fs_files (ram_view fs') (i + 1 + word_of_nat k) = Some f \<and>
       entry_stored host (entries ! k) f"
    "\<And>x. unat x < Suc (unat i) \<or> Suc (unat i) + length entries \<le> unat x \<Longrightarrow>
       fs_files (ram_view fs') x = fs_files (ram_view fs1) x"
  proof -
    have "fs_files (ram_view fs1) x = Some afile_empty"
      if "unat (i + 1) \<le> unat x" "unat x < unat (i + 1) + length entries" for x
      using that i1 s(4) Cons.prems(5) [of x] other [of x] by simp
    moreover have "\<forall>e \<in> set entries. entry_ok host chunk e" "unat (i + 1) + length entries \<le> 128"
      using Cons.prems(1,4) i1 by simp_all
    ultimately show thesis
      using Cons.IH [OF _ s(2,3), of "i + 1", unfolded i1] that unfolding i1 by blast
  qed
  have "\<exists>f. fs_files (ram_view fs') (i + word_of_nat k) = Some f \<and>
      entry_stored host ((e # entries) ! k) f" if "k < length (e # entries)" for k
    using that r(3) r(4) [of i] s(4,5) by (cases k) (auto simp: add.assoc)
  moreover have "fs_files (ram_view fs') x = fs_files (ram_view fs) x"
    if "unat x < unat i \<or> unat i + length (e # entries) \<le> unat x" for x
    using that r(4) [of x] s(4) by auto
  ultimately show ?case using s(1) r(1,2) by (intro exI [of _ fs'] conjI allI impI) simp_all
qed auto

lemma contents_ok:
  assumes "\<forall>e \<in> set contents. is_app e \<longrightarrow>
    length (host (drop 1 e)) \<le> 65536 \<and> read_progress chunk (length (host (drop 1 e)))"
  shows "\<forall>e \<in> set contents. entry_ok host chunk e" and "sum_list (map entry_cost contents) = 3477"
proof -
  have "\<forall>e \<in> set contents. is_app e \<or> 0 < length e \<and> length e \<le> 512"
    by (simp add: contents_def is_app_def)
  then show "\<forall>e \<in> set contents. entry_ok host chunk e" using assms by (auto simp: entry_ok_def)
  show "sum_list (map entry_cost contents) = 3477" by (simp add: contents_def entry_cost_def is_app_def)
qed

lemma ram_view_zero: "unat off < 4096 \<Longrightarrow> ram_view (replicate FS_DISK_SIZE 0) off = null_block"
  by (simp add: ram_view_def layout_simps null_block_def)

lemma mkfs_ok:
  assumes "\<forall>e \<in> set contents. is_app e \<longrightarrow>
      length (host (drop 1 e)) \<le> 65536 \<and> read_progress chunk (length (host (drop 1 e)))"
    and "length buf = 131072"
  shows "\<exists>fs. mkfs host chunk buf (replicate FS_DISK_SIZE 0) = Some (Inr fs) \<and> ram_fs 0 fs \<and>
    (\<forall>k < 16. \<exists>f. fs_files (ram_view fs) (word_of_nat k) = Some f \<and>
       entry_stored host (contents ! k) f) \<and>
    (\<forall>i. 16 \<le> unat i \<longrightarrow> unat i < 128 \<longrightarrow> fs_files (ram_view fs) i = Some afile_empty)"
proof -
  let ?fs0 = "replicate FS_DISK_SIZE 0"
  have zero: "n_inodeblocks (ram_view ?fs0 0) = 0"
    using ram_view_zero [of 0] by (simp add: n_inodeblocks_def)
  have K: "2 = (unat NINODES + INODES_PER_BLOCK - 1) div INODES_PER_BLOCK"
    by (simp add: NINODES_def layout_simps)
  have four: "2 + 2 \<le> (4096::nat)" by simp
  obtain fs1 bs where c: "treedisk_create ramdisk_init 0 NINODES ?fs0 = Inr (0, fs1)"
    "length fs1 = FS_DISK_SIZE" "fs_ok 4096 (ram_view fs1) bs"
    "fs_files (ram_view fs1) = (\<lambda>i. if unat i < 2 * INODES_PER_BLOCK then Some afile_empty else None)"
    "mset (free_blocks (ram_view fs1) bs) = mset (blocks_between (Suc 2) 4096)"
    using rd.treedisk_create_ok [OF length_replicate zero K] four by blast
  have room: "length (free_blocks (ram_view fs1) bs) = 4093"
    unfolding mset_eq_length [OF c(5)] length_map length_upt by simp
  have empty: "fs_files (ram_view fs1) x = Some afile_empty" if "unat x < 128" for x
    using that by (simp add: c(4) layout_simps)
  note cont = contents_ok [OF assms(1)]
  have "ram_fs (0 + sum_list (map entry_cost contents)) fs1"
    using c(2,3) room cont(2) unfolding ram_fs_def by auto
  moreover have len: "length contents = 16" by (simp add: contents_def)
  ultimately obtain fs where "mkfs_loop host chunk 0 contents buf fs1 = Some (Inr fs)" "ram_fs 0 fs"
    "\<forall>k < 16. \<exists>f. fs_files (ram_view fs) (word_of_nat k) = Some f \<and> entry_stored host (contents ! k) f"
    "\<forall>x. 16 \<le> unat x \<longrightarrow> fs_files (ram_view fs) x = fs_files (ram_view fs1) x"
    using mkfs_loop_ok [OF cont(1) assms(2), of 0 fs1 0] empty by auto
  then show ?thesis using c(1) empty by (auto simp: mkfs_def)
qed

section \<open>The image\<close>

lemma image_execs_ok:
  assumes "\<forall>n \<in> set names. 0 < length (host n) \<and> length (host n) \<le> exec_size \<and> read_progress chunk (length (host n))"
  shows "image_execs host chunk names out =
    Some (Inr (out @ concat (map (\<lambda>n. host n @ replicate (exec_size - length (host n)) 0) names)))"
  using assms
proof (induction names arbitrary: out)
  case (Cons n names)
  have "read_loop chunk (host n) exec_size 0 (replicate GRASS_EXEC_SIZE 0)
      = Some (Inr (host n @ drop (length (host n)) (replicate GRASS_EXEC_SIZE 0)))"
    by (rule read_loop_ok) (use Cons.prems in \<open>auto simp: exec_size_def layout_simps\<close>)
  then show ?case using Cons by (simp add: Let_def)
qed simp

lemma concat_padded_nth:
  assumes "\<forall>x \<in> set xs. length (f x) = n" and "k < length xs"
  shows "take n (drop (k * n) (concat (map f xs))) = f (xs ! k)"
  using assms
proof (induction xs arbitrary: k)
  case (Cons x xs)
  then show ?case by (cases k) auto
qed simp

text \<open>C4: mkfs, started on the zeroed array, returns with a well-formed treedisk in which each of the
  sixteen inodes of the table stores its entry (a text padded with zeros, or the bytes of the ELF file)
  and the other inodes are empty, whatever chunk sizes read returns, if no ELF file is over 64 KB.\<close>

theorem mkfs_files:
  assumes "\<forall>e \<in> set contents. is_app e \<longrightarrow>
      length (host (drop 1 e)) \<le> 65536 \<and> read_progress chunk (length (host (drop 1 e)))"
    and "length buf = 131072"
  shows "\<exists>fs. mkfs host chunk buf (replicate FS_DISK_SIZE 0) = Some (Inr fs) \<and>
    length fs = FS_DISK_SIZE \<and> (\<exists>bs. fs_ok 4096 (ram_view fs) bs) \<and>
    (\<forall>k < 16. \<exists>f. fs_files (ram_view fs) (word_of_nat k) = Some f \<and>
       entry_stored host (contents ! k) f) \<and>
    (\<forall>i. 16 \<le> unat i \<longrightarrow> unat i < 128 \<longrightarrow> fs_files (ram_view fs) i = Some afile_empty)"
  using mkfs_ok [OF assms] unfolding ram_fs_def by blast

definition sample_host :: "string \<Rightarrow> byte list" where "sample_host name = map of_char name"

definition sample_chunk :: "nat \<Rightarrow> nat \<Rightarrow> nat" where "sample_chunk pos n = 1"

lemma sample_progress: "read_progress sample_chunk len"
  by (auto simp: read_progress_def sample_chunk_def)

theorem mkfs_files_witness:
  "\<exists>fs. mkfs sample_host sample_chunk (replicate 131072 7) (replicate FS_DISK_SIZE 0) = Some (Inr fs) \<and>
    length fs = FS_DISK_SIZE"
proof -
  have "\<forall>e \<in> set contents. length (sample_host (drop 1 e)) \<le> 65536"
    by (simp add: contents_def sample_host_def)
  then show ?thesis
    using mkfs_files [of sample_host sample_chunk "replicate 131072 7"] sample_progress by (auto simp del: replicate.simps)
qed

lemma mkfs_main_ok:
  assumes "\<forall>e \<in> set contents. is_app e \<longrightarrow>
      length (host (drop 1 e)) \<le> 65536 \<and> read_progress chunk (length (host (drop 1 e)))"
    and "length buf = 131072"
    and k: "\<forall>n \<in> set kernel_processes. 0 < length (host n) \<and> length (host n) \<le> exec_size \<and>
      read_progress chunk (length (host n))"
  shows "\<exists>img fs. mkfs_main host chunk buf = Some (Inr img) \<and>
    mkfs host chunk buf (replicate FS_DISK_SIZE 0) = Some (Inr fs) \<and>
    length img = 4 * 1024 * 1024 \<and> drop (GRASS_FS_START * BLOCK_SIZE) img = fs \<and>
    (\<forall>k < 5. take exec_size (drop ((GRASS_EXEC_START + k * GRASS_EXEC_SEGMENT) * BLOCK_SIZE) img)
       = host (kernel_processes ! k) @ replicate (exec_size - length (host (kernel_processes ! k))) 0)"
proof -
  obtain fs where fs: "mkfs host chunk buf (replicate FS_DISK_SIZE 0) = Some (Inr fs)" "length fs = FS_DISK_SIZE"
    using mkfs_ok [OF assms(1,2)] unfolding ram_fs_def by blast
  let ?pad = "\<lambda>n. host n @ replicate (exec_size - length (host n)) 0"
  let ?ex = "concat (map ?pad kernel_processes)"
  have pad: "\<forall>n \<in> set kernel_processes. length (?pad n) = exec_size" using k by simp
  then have "map (length \<circ> ?pad) kernel_processes = map (\<lambda>_. exec_size) kernel_processes" by simp
  then have lex: "length ?ex = 5 * exec_size"
    unfolding length_concat map_map by (simp add: kernel_processes_def)
  define img where "img = replicate PAGING_DEV_SIZE 0 @ ?ex @
    replicate ((GRASS_NEXEC - length kernel_processes) * exec_size) 0 @ fs"
  have img: "mkfs_main host chunk buf = Some (Inr img)"
    using fs(1) image_execs_ok [OF k] by (simp add: mkfs_main_def img_def)
  have e: "exec_size = 131072" "length kernel_processes = 5"
    by (simp_all add: exec_size_def layout_simps kernel_processes_def)
  have len: "length img = 4 * 1024 * 1024" using lex fs(2) by (simp add: img_def e layout_simps)
  have tail: "drop (GRASS_FS_START * BLOCK_SIZE) img = fs" using lex by (simp add: img_def e layout_simps)
  have "take exec_size (drop ((GRASS_EXEC_START + k * GRASS_EXEC_SEGMENT) * BLOCK_SIZE) img)
      = ?pad (kernel_processes ! k)" if "k < 5" for k
  proof -
    have "take exec_size (drop ((GRASS_EXEC_START + k * GRASS_EXEC_SEGMENT) * BLOCK_SIZE) img)
        = take exec_size (drop (k * exec_size) ?ex)"
      using that lex by (simp add: img_def e layout_simps algebra_simps)
    also have "\<dots> = ?pad (kernel_processes ! k)" by (rule concat_padded_nth [OF pad]) (use that e in simp)
    finally show ?thesis .
  qed
  then show ?thesis using img fs(1) len tail by (intro exI [of _ img] exI [of _ fs] conjI allI impI)
qed

text \<open>C10: main writes a 4 MB image: kernel binary number k is at byte offset 1 MB + k * 128 KB followed by
  zeros, and the file system array is the last 2 MB, which is where disk.h places both.\<close>

theorem mkfs_main_layout:
  assumes "\<forall>e \<in> set contents. is_app e \<longrightarrow>
      length (host (drop 1 e)) \<le> 65536 \<and> read_progress chunk (length (host (drop 1 e)))"
    and "length buf = 131072"
    and k: "\<forall>n \<in> set kernel_processes. 0 < length (host n) \<and> length (host n) \<le> exec_size \<and>
      read_progress chunk (length (host n))"
  shows "\<exists>img fs. mkfs_main host chunk buf = Some (Inr img) \<and>
    mkfs host chunk buf (replicate FS_DISK_SIZE 0) = Some (Inr fs) \<and>
    length img = 4 * 1024 * 1024 \<and> drop (GRASS_FS_START * BLOCK_SIZE) img = fs \<and>
    (\<forall>k < 5. take exec_size (drop ((GRASS_EXEC_START + k * GRASS_EXEC_SEGMENT) * BLOCK_SIZE) img)
       = host (kernel_processes ! k) @ replicate (exec_size - length (host (kernel_processes ! k))) 0)"
  by (rule mkfs_main_ok [OF assms])

theorem mkfs_main_layout_witness:
  "\<exists>img. mkfs_main sample_host sample_chunk (replicate 131072 7) = Some (Inr img) \<and> length img = 4 * 1024 * 1024"
proof -
  have "\<forall>e \<in> set contents. length (sample_host (drop 1 e)) \<le> 65536"
    by (simp add: contents_def sample_host_def)
  moreover have "\<forall>n \<in> set kernel_processes. 0 < length (sample_host n) \<and> length (sample_host n) \<le> exec_size"
    by (simp add: kernel_processes_def sample_host_def exec_size_def layout_simps)
  ultimately show ?thesis
    using mkfs_main_layout [of sample_host sample_chunk "replicate 131072 7"] sample_progress
    by (metis length_replicate)
qed

section \<open>Treedisk on the ramdisk\<close>

lemma fresh_ramdisk:
  "\<exists>fs. treedisk_create ramdisk_init 0 NINODES (replicate FS_DISK_SIZE 0) = Inr (0, fs) \<and>
     length fs = FS_DISK_SIZE \<and> fs_ready 4096 4093 (ram_view fs) \<and>
     fs_files (ram_view fs) = (\<lambda>i. if unat i < 128 then Some afile_empty else None)"
proof -
  have zero: "n_inodeblocks (ram_view (replicate FS_DISK_SIZE 0) 0) = 0"
    using ram_view_zero [of 0] by (simp add: n_inodeblocks_def)
  have K: "2 = (unat NINODES + INODES_PER_BLOCK - 1) div INODES_PER_BLOCK"
    by (simp add: NINODES_def layout_simps)
  have four: "2 + 2 \<le> (4096::nat)" by simp
  obtain fs bs where c: "treedisk_create ramdisk_init 0 NINODES (replicate FS_DISK_SIZE 0) = Inr (0, fs)"
    "length fs = FS_DISK_SIZE" "fs_ok 4096 (ram_view fs) bs"
    "fs_files (ram_view fs) = (\<lambda>i. if unat i < 2 * INODES_PER_BLOCK then Some afile_empty else None)"
    "mset (free_blocks (ram_view fs) bs) = mset (blocks_between (Suc 2) 4096)"
    using rd.treedisk_create_ok [OF length_replicate zero K] four by blast
  have "length (free_blocks (ram_view fs) bs) = 4093"
    unfolding mset_eq_length [OF c(5)] length_map length_upt by simp
  then show ?thesis using c(1-4) unfolding fs_ready_def by (auto simp: layout_simps)
qed

lemma write_cost_le:
  "nlevels_of a - nlevels_of c + Suc (nlevels_of a) \<le> 11"
  using nlevels_of_le_5 [of a] by linarith

text \<open>C1: treedisk_write with at least eleven free blocks returns 0, keeps the file-system invariant, stores
  the block at the offset of that one file, raises its size to at least offset + 1, and changes no
  other block of any file.\<close>

theorem treedisk_write_refines:
  assumes "length fs = FS_DISK_SIZE" and "fs_ready 4096 room (ram_view fs)"
    and "fs_files (ram_view fs) i = Some f" and "off + 1 \<noteq> 0" and "length b = 512" and "11 \<le> room"
  shows "\<exists>fs' room'. treedisk_write (treedisk_mk_state ramdisk_init 0) i off b fs = Inr (0, fs') \<and>
    length fs' = FS_DISK_SIZE \<and> fs_ready 4096 room' (ram_view fs') \<and> room \<le> room' + 11 \<and>
    fs_files (ram_view fs') = (fs_files (ram_view fs))(i \<mapsto> afile_write off b f)"
proof -
  obtain bs where bs: "fs_ok 4096 (ram_view fs) bs" "length (free_blocks (ram_view fs) bs) = room"
    using assms(2) by (auto simp: fs_ready_def)
  have i: "unat i < fs_inodes (ram_view fs)" using assms(3) by (simp add: fs_files_def split: if_splits)
  have room: "nlevels_of (max (fs_size (ram_view fs) i) (off + 1)) - nlevels_of (fs_size (ram_view fs) i)
      + Suc (nlevels_of (max (fs_size (ram_view fs) i) (off + 1))) \<le> length (free_blocks (ram_view fs) bs)"
    using write_cost_le assms(6) bs(2) le_trans by metis
  obtain fs' bs' where "treedisk_write (treedisk_mk_state ramdisk_init 0) i off b fs = Inr (0, fs')"
    "length fs' = FS_DISK_SIZE" "fs_ok 4096 (ram_view fs') bs'"
    "fs_files (ram_view fs') = (fs_files (ram_view fs))(i \<mapsto> afile_write off b (the (fs_files (ram_view fs) i)))"
    "length (free_blocks (ram_view fs) bs) \<le> length (free_blocks (ram_view fs') bs') + 11"
    using rd.treedisk_write_ok [OF assms(1) bs(1) i assms(4,5) room] write_cost_le
    by (meson add_le_cancel_left le_trans)
  then show ?thesis using assms(3) bs(2) unfolding fs_ready_def by auto
qed

theorem treedisk_write_refines_witness:
  "\<exists>fs fs'. treedisk_create ramdisk_init 0 NINODES (replicate FS_DISK_SIZE 0) = Inr (0, fs) \<and>
    treedisk_write (treedisk_mk_state ramdisk_init 0) 5 1000 null_block fs = Inr (0, fs') \<and>
    fs_files (ram_view fs') 5 = Some (afile_write 1000 null_block afile_empty)"
proof -
  obtain fs where fs: "treedisk_create ramdisk_init 0 NINODES (replicate FS_DISK_SIZE 0) = Inr (0, fs)"
    "length fs = FS_DISK_SIZE" "fs_ready 4096 4093 (ram_view fs)"
    "fs_files (ram_view fs) = (\<lambda>i. if unat i < 128 then Some afile_empty else None)"
    using fresh_ramdisk by blast
  have "fs_files (ram_view fs) 5 = Some afile_empty" by (simp add: fs(4))
  from treedisk_write_refines [OF fs(2,3) this, of 1000 null_block] fs(1) show ?thesis by auto
qed

text \<open>C9: treedisk_read on a well-formed file system returns the block that the file holds at that offset,
  a block of zeros for a hole, and -1 (None) at or after the end of the file or for a bad inode
  number; it changes nothing.\<close>

theorem treedisk_read_refines:
  assumes "length fs = FS_DISK_SIZE" and "fs_ready 4096 room (ram_view fs)"
  shows "treedisk_read (treedisk_mk_state ramdisk_init 0) i off fs =
    Inr (Option.bind (fs_files (ram_view fs) i) (afile_read off), fs)"
  using assms rd.treedisk_read_ok unfolding fs_ready_def by blast

theorem treedisk_read_refines_witness:
  "\<exists>fs. treedisk_create ramdisk_init 0 NINODES (replicate FS_DISK_SIZE 0) = Inr (0, fs) \<and>
    treedisk_read (treedisk_mk_state ramdisk_init 0) 5 0 fs = Inr (None, fs)"
proof -
  obtain fs where fs: "treedisk_create ramdisk_init 0 NINODES (replicate FS_DISK_SIZE 0) = Inr (0, fs)"
    "length fs = FS_DISK_SIZE" "fs_ready 4096 4093 (ram_view fs)"
    "fs_files (ram_view fs) = (\<lambda>i. if unat i < 128 then Some afile_empty else None)"
    using fresh_ramdisk by blast
  have "Option.bind (fs_files (ram_view fs) 5) (afile_read 0) = None"
    by (simp add: fs(4) afile_read_def afile_empty_def)
  then show ?thesis using fs(1) treedisk_read_refines [OF fs(2,3), of 5 0] by auto
qed



end
