(* ===== verification/Earth_Interface.thy ===== *)
theory Earth_Interface
  imports Egos_Layout
begin

text \<open>
  The interface between the layers (\<^verbatim>\<open>struct earth\<close> of \<^verbatim>\<open>library/egos.h\<close>): the operations of the earth
  layer that the grass kernel and the loader call through function pointers, over an abstract earth
  state. Two more fields give the kernel's access to the system-call area at \<open>SYSCALL_ARG\<close> through
  the current address translation. The locale \<open>address_spaces\<close> states what the kernel relies on.
\<close>

section \<open>Memory\<close>

type_synonym mem = "u64 \<Rightarrow> byte"

definition peek :: "mem \<Rightarrow> u64 \<Rightarrow> nat \<Rightarrow> byte list" where
  "peek m a n = map (\<lambda>i. m (a + word_of_nat i)) [0..<n]"

definition poke :: "mem \<Rightarrow> u64 \<Rightarrow> byte list \<Rightarrow> mem" where
  "poke m a bs = (\<lambda>x. if unat (x - a) < length bs then bs ! unat (x - a) else m x)"

lemma length_peek [simp]: "length (peek m a n) = n"
  by (simp add: peek_def)

lemma nth_peek: "i < n \<Longrightarrow> peek m a n ! i = m (a + word_of_nat i)"
  by (simp add: peek_def)

lemma peek_cong: "(\<And>i. i < n \<Longrightarrow> m (a + word_of_nat i) = m' (a + word_of_nat i)) \<Longrightarrow> peek m a n = peek m' a n"
  by (simp add: peek_def)

lemma peek_poke_same: "length bs < 2 ^ 64 \<Longrightarrow> peek (poke m a bs) a (length bs) = bs"
  by (rule nth_equalityI) (simp_all add: nth_peek poke_def unat_of_nat)

lemma poke_outside: "length bs \<le> unat (x - a) \<Longrightarrow> poke m a bs x = m x"
  by (simp add: poke_def)

section \<open>struct earth\<close>

record 'e earth =
  timer_reset_op :: "'e \<Rightarrow> 'e res"
  mmu_alloc_op :: "'e \<Rightarrow> ((nat \<times> u64) \<times> 'e) res"
  mmu_free_op :: "int \<Rightarrow> 'e \<Rightarrow> 'e res"
  mmu_map_op :: "int \<Rightarrow> u64 \<Rightarrow> nat \<Rightarrow> 'e \<Rightarrow> 'e res"
  mmu_switch_op :: "int \<Rightarrow> 'e \<Rightarrow> 'e res"
  tty_recv_intr_op :: "'e \<Rightarrow> (bool \<times> 'e) res"
  sc_op :: "'e \<Rightarrow> byte list"
  set_sc_op :: "byte list \<Rightarrow> 'e \<Rightarrow> 'e"

text \<open>
  The system-call area is \<^verbatim>\<open>struct syscall\<close> of \<^verbatim>\<open>grass/syscall.h\<close>: 260 cells of 4 bytes, the type in
  cell 0, the message (sender, receiver and 1024 bytes of content) in cells 1 to 258, and the return
  value in cell 259.
\<close>

definition SYSCALL_MSG_LEN :: nat where "SYSCALL_MSG_LEN = 1024"

definition syscall_size :: nat where "syscall_size = 4 + (4 + 4 + SYSCALL_MSG_LEN) + 4"

lemma syscall_size_value [layout_simps]: "syscall_size = 1040" "SYSCALL_MSG_LEN = 1024"
  by (simp_all add: syscall_size_def SYSCALL_MSG_LEN_def)

section \<open>The contract of address translation\<close>

text \<open>
  \<open>live e p\<close>: process \<open>p\<close> has an address space that maps the system-call area. \<open>arg e p\<close>: the bytes of
  that area in \<open>p\<close>'s address space. \<open>cur e\<close>: the process whose address space is in force.
\<close>

locale address_spaces =
  fixes E :: "'e earth"
    and ok :: "'e \<Rightarrow> bool"
    and live :: "'e \<Rightarrow> int \<Rightarrow> bool"
    and cur :: "'e \<Rightarrow> int"
    and arg :: "'e \<Rightarrow> int \<Rightarrow> byte list"
  assumes sc_ok: "ok e \<Longrightarrow> live e (cur e) \<Longrightarrow> sc_op E e = arg e (cur e)"
    and arg_length: "ok e \<Longrightarrow> live e p \<Longrightarrow> length (arg e p) = syscall_size"
    and set_sc_ok: "ok e \<Longrightarrow> live e (cur e) \<Longrightarrow> length b = syscall_size \<Longrightarrow>
      ok (set_sc_op E b e) \<and> live (set_sc_op E b e) = live e \<and> cur (set_sc_op E b e) = cur e \<and>
      arg (set_sc_op E b e) = (arg e)(cur e := b)"
    and switch_ok: "ok e \<Longrightarrow> live e p \<Longrightarrow>
      \<exists>e'. mmu_switch_op E p e = Inr e' \<and> ok e' \<and> live e' = live e \<and> cur e' = p \<and> arg e' = arg e"
    and free_ok: "ok e \<Longrightarrow>
      \<exists>e'. mmu_free_op E p e = Inr e' \<and> ok e' \<and> live e' = (live e)(p := False) \<and> cur e' = cur e \<and>
        arg e' = (arg e)(p := [])"
    and timer_ok: "ok e \<Longrightarrow>
      \<exists>e'. timer_reset_op E e = Inr e' \<and> ok e' \<and> live e' = live e \<and> cur e' = cur e \<and> arg e' = arg e"
    and tty_ok: "ok e \<Longrightarrow>
      \<exists>b e'. tty_recv_intr_op E e = Inr (b, e') \<and> ok e' \<and> live e' = live e \<and> cur e' = cur e \<and> arg e' = arg e"

end
