(* ===== verification/Mmu.thy ===== *)
theory Mmu
  imports Earth_Interface
begin

text \<open>
  Physical frames and the software TLB: \<^verbatim>\<open>earth/cpu_mmu.c\<close> (frame table, \<^verbatim>\<open>soft_tlb_map\<close>,
  \<^verbatim>\<open>soft_tlb_switch\<close>), \<^verbatim>\<open>earth/dev_page.c\<close> (the frame cache), the timer comparison register of
  \<^verbatim>\<open>earth/cpu_timer.c\<close> and the interrupt test of \<^verbatim>\<open>earth/dev_tty.c\<close>. Memory is one array of bytes.
\<close>

section \<open>State\<close>

record frame_mapping =
  fuse :: bool
  fpid :: int
  fpage_no :: u64

record machine =
  mem :: mem
  table :: "frame_mapping list"
  curr_vm_pid :: int
  uart_rx :: "byte list"
  is_reading :: bool
  mtime :: u64
  mtimecmp :: u64
  QUANTUM :: u64

definition NFRAMES :: nat where "NFRAMES = 256"

definition frame_none :: frame_mapping where
  "frame_none = \<lparr>fuse = False, fpid = 0, fpage_no = 0\<rparr>"

section \<open>The paging device (dev\_page.c)\<close>

definition paging_read :: "nat \<Rightarrow> u64" where
  "paging_read frame_id = word_of_nat (FRAME_CACHE_START + frame_id * PAGE_SIZE)"

definition paging_write :: "nat \<Rightarrow> u64 \<Rightarrow> mem \<Rightarrow> mem" where
  "paging_write frame_id page_no m =
     poke m (word_of_nat (FRAME_CACHE_START + frame_id * PAGE_SIZE)) (peek m (push_bit 12 page_no) PAGE_SIZE)"

text \<open>\<^verbatim>\<open>paging_invalidate_cache\<close> has an empty body.\<close>

definition paging_invalidate_cache :: "nat \<Rightarrow> machine \<Rightarrow> machine" where
  "paging_invalidate_cache frame_id m = m"

section \<open>Frames (cpu\_mmu.c)\<close>

definition mmu_alloc :: "machine \<Rightarrow> ((nat \<times> u64) \<times> machine) res" where
  "mmu_alloc m =
     (case find (\<lambda>i. \<not> fuse (table m ! i)) [0..<NFRAMES] of
        None \<Rightarrow> Inl (Fatal ''mmu_alloc: no more available frames'')
      | Some i \<Rightarrow>
          Inr ((i, paging_read i), m\<lparr>table := (table m)[i := (table m ! i)\<lparr>fuse := True\<rparr>]\<rparr>))"

definition mmu_free :: "int \<Rightarrow> machine \<Rightarrow> machine res" where
  "mmu_free p m = Inr (m\<lparr>table := map (\<lambda>f. if fuse f \<and> fpid f = p then frame_none else f) (table m)\<rparr>)"

definition soft_tlb_map :: "int \<Rightarrow> u64 \<Rightarrow> nat \<Rightarrow> machine \<Rightarrow> machine res" where
  "soft_tlb_map p page_no frame_id m =
     (if frame_id < NFRAMES
      then Inr (m\<lparr>table := (table m)[frame_id := (table m ! frame_id)\<lparr>fpid := p, fpage_no := page_no\<rparr>]\<rparr>)
      else Inl (Undefined ''soft_tlb_map: outside table''))"

text \<open>The two loops of \<^verbatim>\<open>soft_tlb_switch\<close>, over the frame indices still to visit.\<close>

fun tlb_unmap :: "int \<Rightarrow> nat list \<Rightarrow> machine \<Rightarrow> machine" where
  "tlb_unmap p [] m = m"
| "tlb_unmap p (i # is) m =
     tlb_unmap p is
       (if fuse (table m ! i) \<and> fpid (table m ! i) = p
        then m\<lparr>mem := paging_write i (fpage_no (table m ! i)) (mem m)\<rparr> else m)"

fun tlb_map :: "int \<Rightarrow> nat list \<Rightarrow> machine \<Rightarrow> machine" where
  "tlb_map p [] m = m"
| "tlb_map p (i # is) m =
     tlb_map p is
       (if fuse (table m ! i) \<and> fpid (table m ! i) = p
        then m\<lparr>mem := poke (mem m) (push_bit 12 (fpage_no (table m ! i)))
                        (peek (mem m) (paging_read i) PAGE_SIZE)\<rparr> else m)"

definition soft_tlb_switch :: "int \<Rightarrow> machine \<Rightarrow> machine res" where
  "soft_tlb_switch p m =
     (if p = curr_vm_pid m then Inr m
      else Inr ((tlb_map p [0..<NFRAMES] (tlb_unmap (curr_vm_pid m) [0..<NFRAMES] m))\<lparr>curr_vm_pid := p\<rparr>))"

section \<open>Timer and tty\<close>

text \<open>
  The three stores of \<^verbatim>\<open>mtimecmp_set\<close>: the high half is first set to a large value, so that the 64-bit
  register does not pass below the current time in between. The register after each store:
\<close>

definition mtimecmp_stores :: "u64 \<Rightarrow> u64 \<Rightarrow> u64 list" where
  "mtimecmp_stores old time =
     (let lo = (\<lambda>w. w AND 0xFFFFFFFF);
          s1 = push_bit 32 0xFFFFFFF OR lo old;
          s2 = (s1 AND NOT 0xFFFFFFFF) OR lo time;
          s3 = push_bit 32 (drop_bit 32 time) OR lo s2 in
      [s1, s2, s3])"

definition mtimecmp_set :: "u64 \<Rightarrow> machine \<Rightarrow> machine" where
  "mtimecmp_set time m = m\<lparr>mtimecmp := last (mtimecmp_stores (mtimecmp m) time)\<rparr>"

definition timer_reset :: "machine \<Rightarrow> machine res" where
  "timer_reset m = Inr (mtimecmp_set (mtime m + QUANTUM m) m)"

definition timer_init :: "machine \<Rightarrow> machine" where
  "timer_init m = mtimecmp_set 0xFFFFFFFFFFFFFFFF (m\<lparr>QUANTUM := 24 * 1000 * 250\<rparr>)"

text \<open>A received byte that is not Ctrl+C is consumed and dropped.\<close>

definition tty_recv_intr :: "machine \<Rightarrow> (bool \<times> machine) res" where
  "tty_recv_intr m =
     (if is_reading m then Inr (False, m)
      else case uart_rx m of [] \<Rightarrow> Inr (False, m)
           | c # rest \<Rightarrow> Inr (c = 3, m\<lparr>uart_rx := rest\<rparr>))"

section \<open>The interface\<close>

text \<open>In software-TLB mode the system-call area is plain memory.\<close>

definition soft_tlb_earth :: "machine earth" where
  "soft_tlb_earth =
     \<lparr>timer_reset_op = timer_reset, mmu_alloc_op = mmu_alloc, mmu_free_op = mmu_free,
      mmu_map_op = soft_tlb_map, mmu_switch_op = soft_tlb_switch, tty_recv_intr_op = tty_recv_intr,
      sc_op = (\<lambda>m. peek (mem m) (word_of_nat SYSCALL_ARG) syscall_size),
      set_sc_op = (\<lambda>b m. m\<lparr>mem := poke (mem m) (word_of_nat SYSCALL_ARG) b\<rparr>)\<rparr>"

end
