(* ===== verification/Mmu_Correct.thy ===== *)
theory Mmu_Correct
  imports Mmu
begin

text \<open>
  Correctness of the software TLB: a context switch saves the pages of the old process in their frames
  and loads those of the new one, so that every process keeps the contents of all its pages. Hence
  the software TLB keeps the \<open>address_spaces\<close> contract.
\<close>

section \<open>Pages\<close>

definition page :: "mem \<Rightarrow> nat \<Rightarrow> byte list" where
  "page m q = peek m (word_of_nat (q * 4096)) 4096"

lemma length_page [simp]: "length (page m q) = 4096"
  by (simp add: page_def)

lemma page_offset:
  assumes "q < 2 ^ 52" and "d < 2 ^ 52" and "i < 4096" and "q \<noteq> d"
  shows "4096 \<le> unat (word_of_nat (q * 4096) + word_of_nat i - word_of_nat (d * 4096) :: u64)"
proof (cases "d < q")
  case True
  then have "word_of_nat (q * 4096) + word_of_nat i - word_of_nat (d * 4096)
      = (word_of_nat ((q - d) * 4096 + i) :: u64)"
    by (simp add: of_nat_diff left_diff_distrib)
  moreover have "(q - d) * 4096 + i < 2 ^ 64" using assms(1,3) by simp
  ultimately have "unat (word_of_nat (q * 4096) + word_of_nat i - word_of_nat (d * 4096) :: u64) = (q - d) * 4096 + i"
    by (simp only: unat_of_nat) simp
  then show ?thesis using True by simp
next
  case False
  then have qd: "Suc q \<le> d" using assms(4) by simp
  define n where "n = (d - q) * 4096 - i"
  have n: "0 < n" "n \<le> 2 ^ 64 - 4096" "(d - q) * 4096 = n + i" using qd assms(2,3) by (auto simp: n_def)
  have "d * 4096 = q * 4096 + (n + i)" using qd n(3) by (simp flip: n(3) add: left_diff_distrib)
  then have "word_of_nat (q * 4096) + word_of_nat i - word_of_nat (d * 4096) = (- word_of_nat n :: u64)"
    by simp
  moreover have "(word_of_nat (2 ^ 64 - n) :: u64) + word_of_nat n = word_of_nat (2 ^ 64 - n + n)"
    by (rule of_nat_add [symmetric])
  moreover have "(word_of_nat (2 ^ 64 - n + n) :: u64) = 0" using n(2) by simp
  ultimately have "word_of_nat (q * 4096) + word_of_nat i - word_of_nat (d * 4096) = (word_of_nat (2 ^ 64 - n) :: u64)"
    by (metis eq_neg_iff_add_eq_0)
  moreover have "unat (word_of_nat (2 ^ 64 - n) :: u64) = 2 ^ 64 - n"
    unfolding unat_of_nat using n(1) by simp
  ultimately show ?thesis using n(2) by simp
qed

lemma page_poke:
  assumes "q < 2 ^ 52" and "d < 2 ^ 52" and "length b = 4096"
  shows "page (poke m (word_of_nat (d * 4096)) b) q = (if q = d then b else page m q)"
proof (cases "q = d")
  case True
  then show ?thesis using assms(3) peek_poke_same [of b m "word_of_nat (d * 4096)"] by (simp add: page_def)
next
  case False
  then show ?thesis
    unfolding page_def using page_offset [OF assms(1,2)] assms(3)
    by (simp add: poke_outside cong: peek_cong)
qed

section \<open>Frames\<close>

definition frame_pn :: "nat \<Rightarrow> nat" where "frame_pn i = 0x40100 + i"

abbreviation pn :: "machine \<Rightarrow> nat \<Rightarrow> nat" where "pn m i \<equiv> unat (fpage_no (table m ! i))"

definition owns :: "machine \<Rightarrow> int \<Rightarrow> nat \<Rightarrow> bool" where
  "owns m p i \<longleftrightarrow> fuse (table m ! i) \<and> fpid (table m ! i) = p"

text \<open>
  Frames are mapped at page numbers below the frame cache, and no process has two frames for one page.
  A frame that is allocated and not yet mapped has pid 0.
\<close>

definition tlb_ok :: "machine \<Rightarrow> bool" where
  "tlb_ok m \<longleftrightarrow> length (table m) = NFRAMES \<and> curr_vm_pid m \<noteq> 0 \<and>
     (\<forall>i < NFRAMES. fuse (table m ! i) \<longrightarrow> pn m i < 0x40100) \<and>
     (\<forall>i < NFRAMES. \<forall>j < NFRAMES. \<forall>p. p \<noteq> 0 \<longrightarrow> owns m p i \<longrightarrow> owns m p j \<longrightarrow> pn m i = pn m j \<longrightarrow> i = j)"

lemma NFRAMES_value [layout_simps]: "NFRAMES = 256"
  by (simp add: NFRAMES_def)

lemma tlb_okD:
  assumes "tlb_ok m"
  shows "length (table m) = 256" and "curr_vm_pid m \<noteq> 0"
    and "i < 256 \<Longrightarrow> owns m p i \<Longrightarrow> pn m i < 0x40100"
    and "i < 256 \<Longrightarrow> j < 256 \<Longrightarrow> p \<noteq> 0 \<Longrightarrow> owns m p i \<Longrightarrow> owns m p j \<Longrightarrow> pn m i = pn m j \<Longrightarrow> i = j"
  using assms by (auto simp: tlb_ok_def layout_simps owns_def)

lemma paging_read_eq: "paging_read i = word_of_nat (frame_pn i * 4096)"
  by (simp add: paging_read_def frame_pn_def layout_simps)

lemma push_bit_12: "push_bit 12 (w :: u64) = word_of_nat (unat w * 4096)"
  by (simp add: push_bit_eq_mult)

lemma page_paging_write:
  assumes "i < 256" and "unat w < 2 ^ 52" and "q < 2 ^ 52"
  shows "page (paging_write i w m) q = (if q = frame_pn i then page m (unat w) else page m q)"
proof -
  have "paging_write i w m = poke m (word_of_nat (frame_pn i * 4096)) (page m (unat w))"
    by (simp add: paging_write_def page_def push_bit_12 frame_pn_def layout_simps)
  then show ?thesis using page_poke [OF assms(3), of "frame_pn i" "page m (unat w)" m] assms(1) by (simp add: frame_pn_def)
qed

lemma page_map_frame:
  assumes "i < 256" and "unat w < 2 ^ 52" and "q < 2 ^ 52"
  shows "page (poke m (push_bit 12 w) (peek m (paging_read i) PAGE_SIZE)) q
    = (if q = unat w then page m (frame_pn i) else page m q)"
proof -
  have "peek m (paging_read i) PAGE_SIZE = page m (frame_pn i)"
    by (simp add: page_def paging_read_eq layout_simps)
  then show ?thesis using page_poke [OF assms(3,2), of "page m (frame_pn i)" m] by (simp add: push_bit_12)
qed

lemma tlb_unmap_fields:
  "table (tlb_unmap p is m) = table m" "curr_vm_pid (tlb_unmap p is m) = curr_vm_pid m"
  "table (tlb_map p is m) = table m" "curr_vm_pid (tlb_map p is m) = curr_vm_pid m"
  by (induction "is" arbitrary: m) auto

lemma tlb_unmap_page:
  assumes "tlb_ok m" and "set is \<subseteq> {..<256}" and "q < 2 ^ 52"
  shows "page (mem (tlb_unmap p is m)) q =
    (if 0x40100 \<le> q \<and> q - 0x40100 \<in> set is \<and> owns m p (q - 0x40100)
     then page (mem m) (pn m (q - 0x40100)) else page (mem m) q)"
  using assms
proof (induction "is" arbitrary: m)
  case (Cons i "is")
  have i: "i < 256" "set is \<subseteq> {..<256}" using Cons.prems(2) by auto
  show ?case
  proof (cases "owns m p i")
    case False
    then have "tlb_unmap p (i # is) m = tlb_unmap p is m" by (auto simp: owns_def)
    then show ?thesis using Cons.IH [OF Cons.prems(1) i(2) Cons.prems(3)] False by auto
  next
    case True
    let ?m = "m\<lparr>mem := paging_write i (fpage_no (table m ! i)) (mem m)\<rparr>"
    have m: "tlb_unmap p (i # is) m = tlb_unmap p is ?m" using True by (simp add: owns_def)
    have pn: "pn m j < 0x40100" if "j < 256" "owns m p j" for j using tlb_okD(3) [OF Cons.prems(1)] that by blast
    have ok: "tlb_ok ?m" using Cons.prems(1) by (simp add: tlb_ok_def owns_def)
    have wr: "page (mem ?m) x = (if x = frame_pn i then page (mem m) (pn m i) else page (mem m) x)" if "x < 2 ^ 52" for x
      using page_paging_write [OF i(1) _ that] pn [OF i(1) True] by simp
    have owns: "owns ?m p j = owns m p j" for j by (simp add: owns_def)
    have usr: "page (mem ?m) (pn m j) = page (mem m) (pn m j)" if "j < 256" "owns m p j" for j
      using wr [of "pn m j"] pn [OF that] by (simp add: frame_pn_def)
    show ?thesis
      unfolding m Cons.IH [OF ok i(2) Cons.prems(3)] owns
      using wr [OF Cons.prems(3)] usr [of "q - 0x40100"] usr [OF i(1) True] i True by (auto simp: frame_pn_def)
  qed
qed simp

lemma tlb_map_page:
  assumes "tlb_ok m" and "p \<noteq> 0" and "set is \<subseteq> {..<256}" and "q < 2 ^ 52"
  shows "(\<forall>i \<in> set is. owns m p i \<longrightarrow> pn m i = q \<longrightarrow> page (mem (tlb_map p is m)) q = page (mem m) (frame_pn i)) \<and>
    ((\<forall>i \<in> set is. owns m p i \<longrightarrow> pn m i \<noteq> q) \<longrightarrow> page (mem (tlb_map p is m)) q = page (mem m) q)"
  using assms(1,3)
proof (induction "is" arbitrary: m)
  case (Cons i "is")
  have i: "i < 256" "set is \<subseteq> {..<256}" using Cons.prems(2) by auto
  show ?case
  proof (cases "owns m p i")
    case False
    then have "tlb_map p (i # is) m = tlb_map p is m" by (auto simp: owns_def)
    then show ?thesis using Cons.IH [OF Cons.prems(1) i(2)] False by auto
  next
    case True
    let ?m = "m\<lparr>mem := poke (mem m) (push_bit 12 (fpage_no (table m ! i))) (peek (mem m) (paging_read i) PAGE_SIZE)\<rparr>"
    have m: "tlb_map p (i # is) m = tlb_map p is ?m" using True by (simp add: owns_def)
    have pni: "pn m i < 0x40100" using tlb_okD(3) [OF Cons.prems(1) i(1) True] .
    have ok: "tlb_ok ?m" using Cons.prems(1) by (simp add: tlb_ok_def owns_def)
    have wr: "page (mem ?m) x = (if x = pn m i then page (mem m) (frame_pn i) else page (mem m) x)" if "x < 2 ^ 52" for x
      using page_map_frame [OF i(1) _ that] pni by simp
    have fr: "page (mem ?m) (frame_pn j) = page (mem m) (frame_pn j)" if "j < 256" for j
      using wr [of "frame_pn j"] pni that by (simp add: frame_pn_def)
    have owns: "owns ?m p j = owns m p j" for j by (simp add: owns_def)
    have inj: "j = i" if "j \<in> set is" "owns m p j" "pn m j = pn m i" for j
      using tlb_okD(4) [OF Cons.prems(1) _ i(1) assms(2)] that i(2) True by auto
    note IH = Cons.IH [OF ok i(2), unfolded owns]
    show ?thesis
    proof (intro conjI ballI impI)
      fix j assume j: "j \<in> set (i # is)" "owns m p j" "pn m j = q"
      then have j256: "j < 256" using i by auto
      show "page (mem (tlb_map p (i # is) m)) q = page (mem m) (frame_pn j)"
      proof (cases "\<exists>l \<in> set is. owns m p l \<and> pn m l = q")
        case True
        then obtain l where l: "l \<in> set is" "owns m p l" "pn m l = q" by blast
        then have "l = j" using tlb_okD(4) [OF Cons.prems(1) _ j256 assms(2)] j i(2) by auto
        then show ?thesis using IH l fr [OF j256] unfolding m by auto
      next
        case False
        then have "j = i" using j by auto
        then show ?thesis using IH False wr [OF assms(4)] j(3) unfolding m by auto
      qed
    next
      assume n: "\<forall>j \<in> set (i # is). owns m p j \<longrightarrow> pn m j \<noteq> q"
      then show "page (mem (tlb_map p (i # is) m)) q = page (mem m) q"
        using IH wr [OF assms(4)] True unfolding m by auto
    qed
  qed
qed simp

section \<open>Address spaces\<close>

text \<open>The contents of a page that a process has a frame for.\<close>

definition has_page :: "machine \<Rightarrow> int \<Rightarrow> nat \<Rightarrow> bool" where
  "has_page m p q \<longleftrightarrow> (\<exists>i < 256. owns m p i \<and> pn m i = q)"

definition frame_of :: "machine \<Rightarrow> int \<Rightarrow> nat \<Rightarrow> nat" where
  "frame_of m p q = hd (filter (\<lambda>i. owns m p i \<and> pn m i = q) [0..<256])"

definition proc_page :: "machine \<Rightarrow> int \<Rightarrow> nat \<Rightarrow> byte list" where
  "proc_page m p q = (if p = curr_vm_pid m then page (mem m) q else page (mem m) (frame_pn (frame_of m p q)))"

lemma frame_of_eq:
  assumes "tlb_ok m" and "p \<noteq> 0" and "i < 256" and "owns m p i" and "pn m i = q"
  shows "frame_of m p q = i"
proof -
  let ?xs = "filter (\<lambda>i. owns m p i \<and> pn m i = q) [0..<256]"
  have "\<forall>j \<in> set ?xs. j = i" using tlb_okD(4) [OF assms(1) _ assms(3,2)] assms(4,5) by auto
  moreover have "i \<in> set ?xs" using assms(3-5) by simp
  ultimately show ?thesis unfolding frame_of_def by (cases ?xs) auto
qed

lemma soft_tlb_switch_pages:
  assumes ok: "tlb_ok m" and "p \<noteq> 0"
  shows "\<exists>m'. soft_tlb_switch p m = Inr m' \<and> tlb_ok m' \<and> curr_vm_pid m' = p \<and> table m' = table m \<and>
    (\<forall>r q. r \<noteq> 0 \<longrightarrow> has_page m r q \<longrightarrow> proc_page m' r q = proc_page m r q)"
proof (cases "p = curr_vm_pid m")
  case True
  then show ?thesis using ok by (auto simp: soft_tlb_switch_def)
next
  case False
  let ?c = "curr_vm_pid m"
  define m1 where "m1 = tlb_unmap ?c [0..<NFRAMES] m"
  define m2 where "m2 = tlb_map p [0..<NFRAMES] m1"
  define m' where "m' = m2\<lparr>curr_vm_pid := p\<rparr>"
  have f1: "table m1 = table m" "curr_vm_pid m1 = ?c" by (simp_all add: m1_def tlb_unmap_fields)
  have f2: "table m2 = table m" by (simp add: m2_def tlb_unmap_fields f1)
  have own: "owns m1 r i = owns m r i" "owns m2 r i = owns m r i" "owns m' r i = owns m r i" for r i
    by (simp_all add: owns_def f1 f2 m'_def)
  have ok1: "tlb_ok m1" using ok by (simp add: tlb_ok_def own f1)
  have ok': "tlb_ok m'" using ok assms(2) unfolding tlb_ok_def own by (simp add: m'_def f2)
  have s: "set [0..<NFRAMES] \<subseteq> {..<256}" by (auto simp: layout_simps)
  note p1 = tlb_unmap_page [OF ok s, of _ ?c, folded m1_def]
  note p2 = tlb_map_page [OF ok1 assms(2) s, folded m2_def, unfolded own f1]
  have page: "proc_page m' r q = proc_page m r q" if r: "r \<noteq> 0" and h: "has_page m r q" for r q
  proof -
    obtain i where i: "i < 256" "owns m r i" "pn m i = q" using h by (auto simp: has_page_def)
    have q: "q < 0x40100" using tlb_okD(3) [OF ok i(1,2)] i(3) by simp
    have fi: "frame_of m r q = i" "frame_of m' r q = i"
      using frame_of_eq [OF ok r i] frame_of_eq [OF ok' r i(1)] i by (simp_all add: own) (simp add: m'_def f2)
    have fr2: "page (mem m2) (frame_pn i) = page (mem m1) (frame_pn i)"
    proof -
      have "pn m j \<noteq> frame_pn i" if "j < 256" "owns m p j" for j
        using tlb_okD(3) [OF ok that] by (simp add: frame_pn_def)
      then show ?thesis using p2 [of "frame_pn i"] i(1) by (simp add: frame_pn_def layout_simps)
    qed
    have fr1: "page (mem m1) (frame_pn i) = (if r = ?c then page (mem m) q else page (mem m) (frame_pn i))"
      using p1 [of "frame_pn i"] i by (auto simp: frame_pn_def layout_simps owns_def)
    show ?thesis
    proof (cases "r = p")
      case True
      then have "page (mem m2) q = page (mem m1) (frame_pn i)"
        using p2 [of q] i q by (auto simp: layout_simps)
      then show ?thesis using True False fr1 fi by (simp add: proc_page_def m'_def)
    next
      case False
      then show ?thesis using fr1 fr2 fi by (simp add: proc_page_def m'_def)
    qed
  qed
  have "soft_tlb_switch p m = Inr m'"
    using False by (simp add: soft_tlb_switch_def m'_def m2_def m1_def)
  then show ?thesis using ok' page f2 by (auto simp: m'_def)
qed

end
