(* ===== verification/Process.thy ===== *)
theory Process
  imports Earth_Interface
begin

text \<open>
  The process table of the grass layer: \<^verbatim>\<open>grass/process.h\<close> and \<^verbatim>\<open>grass/process.c\<close>, with the kernel's
  global state (\<^verbatim>\<open>grass/kernel.c\<close>) and the processor registers that the kernel reads and writes.
\<close>

section \<open>State\<close>

datatype proc_status =
    PROC_UNUSED | PROC_LOADING | PROC_READY | PROC_RUNNING | PROC_RUNNABLE
  | PROC_WAIT_TO_SEND | PROC_WAIT_TO_RECV

record process =
  pid :: int
  status :: proc_status
  receiver_pid :: int
  sp :: u64
  mepc :: u64

definition MAX_NPROCESS :: nat where "MAX_NPROCESS = 16"

definition GPID_PROCESS :: int where "GPID_PROCESS = 1"
definition GPID_FILE :: int where "GPID_FILE = 2"
definition GPID_DIR :: int where "GPID_DIR = 3"
definition GPID_SHELL :: int where "GPID_SHELL = 4"
definition GPID_USER_START :: int where "GPID_USER_START = 5"

lemma gpid_values [layout_simps]:
  "MAX_NPROCESS = 16" "GPID_PROCESS = 1" "GPID_FILE = 2" "GPID_DIR = 3" "GPID_SHELL = 4" "GPID_USER_START = 5"
  by (simp_all add: MAX_NPROCESS_def GPID_PROCESS_def GPID_FILE_def GPID_DIR_def GPID_SHELL_def
      GPID_USER_START_def)

text \<open>The static pointer \<^verbatim>\<open>kernel_entry\<close> holds one of two functions.\<close>

datatype kentry = Proc_yield | Proc_syscall

record 'e kernel =
  proc_set :: "process list"
  proc_curr_idx :: nat
  proc_nprocs :: int
  kernel_entry :: kentry
  cpu_sp :: u64
  cpu_mepc :: u64
  cpu_mstatus :: u64
  earth_state :: 'e

abbreviation curr :: "'e kernel \<Rightarrow> process" where "curr k \<equiv> proc_set k ! proc_curr_idx k"
abbreviation curr_pid :: "'e kernel \<Rightarrow> int" where "curr_pid k \<equiv> pid (curr k)"
abbreviation curr_status :: "'e kernel \<Rightarrow> proc_status" where "curr_status k \<equiv> status (curr k)"

definition proc_init :: process where
  "proc_init = \<lparr>pid = 0, status = PROC_UNUSED, receiver_pid = 0, sp = 0, mepc = 0\<rparr>"

definition set_curr :: "process \<Rightarrow> 'e kernel \<Rightarrow> 'e kernel" where
  "set_curr p k = k\<lparr>proc_set := (proc_set k)[proc_curr_idx k := p]\<rparr>"

section \<open>Operations\<close>

definition proc_set_status :: "int \<Rightarrow> proc_status \<Rightarrow> 'e kernel \<Rightarrow> 'e kernel" where
  "proc_set_status q st k =
     k\<lparr>proc_set := map (\<lambda>p. if pid p = q then p\<lparr>status := st\<rparr> else p) (proc_set k)\<rparr>"

definition proc_set_ready :: "int \<Rightarrow> 'e kernel \<Rightarrow> 'e kernel" where
  "proc_set_ready q = proc_set_status q PROC_READY"

definition proc_set_running :: "int \<Rightarrow> 'e kernel \<Rightarrow> 'e kernel" where
  "proc_set_running q = proc_set_status q PROC_RUNNING"

definition proc_set_runnable :: "int \<Rightarrow> 'e kernel \<Rightarrow> 'e kernel" where
  "proc_set_runnable q = proc_set_status q PROC_RUNNABLE"

text \<open>The loop returns at the first unused slot.\<close>

definition proc_alloc :: "'e kernel \<Rightarrow> (int \<times> 'e kernel) res" where
  "proc_alloc k =
     (case find (\<lambda>i. status (proc_set k ! i) = PROC_UNUSED) [0..<MAX_NPROCESS] of
        None \<Rightarrow> Inl (Fatal ''proc_alloc: reach the limit of 16 processes'')
      | Some i \<Rightarrow>
          Inr (proc_nprocs k + 1,
               k\<lparr>proc_nprocs := proc_nprocs k + 1,
                 proc_set := (proc_set k)[i := (proc_set k ! i)\<lparr>pid := proc_nprocs k + 1,
                                                               status := PROC_LOADING\<rparr>]\<rparr>))"

text \<open>The loop that frees all user applications; \<open>is\<close> are the indices still to visit.\<close>

fun proc_free_users :: "'e earth \<Rightarrow> nat list \<Rightarrow> 'e kernel \<Rightarrow> 'e kernel res" where
  "proc_free_users E [] k = Inr k"
| "proc_free_users E (i # is) k =
     (let p = proc_set k ! i in
      if pid p \<ge> GPID_USER_START \<and> status p \<noteq> PROC_UNUSED then
        bindE (mmu_free_op E (pid p) (earth_state k)) (\<lambda>e.
        proc_free_users E is (k\<lparr>earth_state := e, proc_set := (proc_set k)[i := p\<lparr>status := PROC_UNUSED\<rparr>]\<rparr>))
      else proc_free_users E is k)"

definition proc_free :: "'e earth \<Rightarrow> int \<Rightarrow> 'e kernel \<Rightarrow> 'e kernel res" where
  "proc_free E q k =
     (if q \<noteq> -1 then
        bindE (mmu_free_op E q (earth_state k)) (\<lambda>e.
        Inr (proc_set_status q PROC_UNUSED (k\<lparr>earth_state := e\<rparr>)))
      else proc_free_users E [0..<MAX_NPROCESS] k)"

end
