(* ===== verification/Kernel.thy ===== *)
theory Kernel
  imports Process
begin

text \<open>
  The grass kernel (\<^verbatim>\<open>grass/kernel.c\<close>): trap entries, the scheduler and message passing, and the
  user-side system-call stubs (\<^verbatim>\<open>grass/syscall.c\<close>). The earth layer is the parameter \<open>E\<close>.
\<close>

section \<open>Leaving the kernel\<close>

text \<open>
  How control leaves the kernel: back to the interrupted process without a context switch, to the
  saved context of the current process, or (\<^verbatim>\<open>mret\<close> in \<^verbatim>\<open>proc_yield\<close>) to the entry point of a new
  process with \<^verbatim>\<open>a0\<close> and \<^verbatim>\<open>a1\<close> set.
\<close>

datatype transfer = Stay | Resume | Enter u64 u64

definition runnable :: "proc_status \<Rightarrow> bool" where
  "runnable s \<longleftrightarrow> s = PROC_READY \<or> s = PROC_RUNNING \<or> s = PROC_RUNNABLE"

definition yield_order :: "nat \<Rightarrow> nat list" where
  "yield_order i = map (\<lambda>j. (i + j) mod MAX_NPROCESS) [1..<Suc MAX_NPROCESS]"

text \<open>
  \<^verbatim>\<open>csrs\<close> only sets bits of \<^verbatim>\<open>mstatus\<close>, so the new MPP field is the old one with the bits of \<^verbatim>\<open>pp\<close> added.
  The following \<^verbatim>\<open>csrc\<close> clears MPRV.
\<close>

definition enter_mstatus :: "int \<Rightarrow> u64 \<Rightarrow> u64" where
  "enter_mstatus p mstatus =
     (let pp = (if p < GPID_USER_START then 1 else 0) in
      (mstatus OR ((mstatus AND NOT (push_bit 11 3)) OR push_bit 11 pp)) AND NOT (push_bit 17 1))"

text \<open>\<^verbatim>\<open>timer_reset\<close> clears MPRV around its stores and sets it afterwards (\<^verbatim>\<open>earth/cpu_timer.c\<close>).\<close>

definition timer_reset_mstatus :: "u64 \<Rightarrow> u64" where
  "timer_reset_mstatus mstatus = (mstatus AND NOT (push_bit 17 1)) OR push_bit 17 1"

definition proc_yield :: "'e earth \<Rightarrow> 'e kernel \<Rightarrow> (transfer \<times> 'e kernel) res" where
  "proc_yield E k =
     (case find (\<lambda>i. runnable (status (proc_set k ! i))) (yield_order (proc_curr_idx k)) of
        None \<Rightarrow> Inl (Fatal ''proc_yield: no runnable process'')
      | Some next_idx \<Rightarrow>
          let k = (if curr_status k = PROC_RUNNING then proc_set_runnable (curr_pid k) k else k);
              k = k\<lparr>proc_curr_idx := next_idx\<rparr> in
          bindE (mmu_switch_op E (curr_pid k) (earth_state k)) (\<lambda>e.
          bindE (timer_reset_op E e) (\<lambda>e.
          let k = k\<lparr>earth_state := e, cpu_mstatus := timer_reset_mstatus (cpu_mstatus k)\<rparr> in
          if curr_status k = PROC_READY then
            let k = proc_set_running (curr_pid k) k in
            Inr (Enter (word_of_nat APPS_ARG) (word_of_nat (APPS_ARG + 4)),
                 k\<lparr>cpu_mepc := word_of_nat APPS_ENTRY,
                   cpu_mstatus := enter_mstatus (curr_pid k) (cpu_mstatus k)\<rparr>)
          else Inr (Resume, proc_set_running (curr_pid k) k))))"

section \<open>Message passing\<close>

abbreviation sc_cell :: "'e earth \<Rightarrow> nat \<Rightarrow> 'e \<Rightarrow> u32" where
  "sc_cell E i e \<equiv> get32 (sc_op E e) i"

definition set_sc_cell :: "'e earth \<Rightarrow> nat \<Rightarrow> u32 \<Rightarrow> 'e \<Rightarrow> 'e" where
  "set_sc_cell E i v e = set_sc_op E (put32 (sc_op E e) i v) e"

text \<open>\<^verbatim>\<open>struct sys_msg\<close>: everything of the area but its type and return value.\<close>

definition sc_msg :: "byte list \<Rightarrow> byte list" where
  "sc_msg b = take (syscall_size - 8) (drop 4 b)"

definition set_sc_msg :: "byte list \<Rightarrow> byte list \<Rightarrow> byte list" where
  "set_sc_msg b msg = take 4 b @ msg @ drop (syscall_size - 4) b"

text \<open>The copy through the kernel stack that both directions share.\<close>

definition copy_msg :: "'e earth \<Rightarrow> int \<Rightarrow> int \<Rightarrow> 'e \<Rightarrow> 'e res" where
  "copy_msg E from to e =
     bindE (mmu_switch_op E from e) (\<lambda>e.
     let tmp = sc_msg (sc_op E e) in
     bindE (mmu_switch_op E to e) (\<lambda>e.
     Inr (set_sc_op E (set_sc_msg (sc_op E e) tmp) e)))"

definition proc_send :: "'e earth \<Rightarrow> 'e kernel \<Rightarrow> (transfer \<times> 'e kernel) res" where
  "proc_send E k =
     (let k = k\<lparr>earth_state := set_sc_cell E 1 (word_of_int (curr_pid k)) (earth_state k)\<rparr>;
          receiver = sint (sc_cell E 2 (earth_state k)) in
      case find (\<lambda>i. pid (proc_set k ! i) = receiver) [0..<MAX_NPROCESS] of
        Some i \<Rightarrow>
          if status (proc_set k ! i) \<noteq> PROC_WAIT_TO_RECV then
            proc_yield E (set_curr ((curr k)\<lparr>status := PROC_WAIT_TO_SEND, receiver_pid := receiver\<rparr>) k)
          else
            bindE (copy_msg E (curr_pid k) receiver (earth_state k)) (\<lambda>e.
            proc_yield E (proc_set_runnable receiver (k\<lparr>earth_state := e\<rparr>)))
      | None \<Rightarrow> Inr (Resume, k\<lparr>earth_state := set_sc_cell E 259 (-1) (earth_state k)\<rparr>))"

text \<open>The loop keeps the last match.\<close>

definition waiting_sender :: "int \<Rightarrow> process list \<Rightarrow> int" where
  "waiting_sender me ps =
     foldl (\<lambda>s p. if status p = PROC_WAIT_TO_SEND \<and> receiver_pid p = me then pid p else s) (-1) ps"

definition proc_recv :: "'e earth \<Rightarrow> 'e kernel \<Rightarrow> (transfer \<times> 'e kernel) res" where
  "proc_recv E k =
     (let sender = waiting_sender (curr_pid k) (proc_set k) in
      if sender = -1 then proc_yield E (set_curr ((curr k)\<lparr>status := PROC_WAIT_TO_RECV\<rparr>) k)
      else
        bindE (copy_msg E sender (curr_pid k) (earth_state k)) (\<lambda>e.
        proc_yield E (proc_set_runnable sender (k\<lparr>earth_state := e\<rparr>))))"

definition proc_syscall :: "'e earth \<Rightarrow> 'e kernel \<Rightarrow> (transfer \<times> 'e kernel) res" where
  "proc_syscall E k =
     (let type = sint (sc_cell E 0 (earth_state k));
          k = k\<lparr>earth_state := set_sc_cell E 0 0 (set_sc_cell E 259 0 (earth_state k))\<rparr> in
      if type = 1 then proc_recv E k
      else if type = 2 then proc_send E k
      else Inl (Fatal ''proc_syscall: got unknown syscall type''))"

section \<open>Trap entries\<close>

text \<open>
  \<^verbatim>\<open>ctx_start\<close> pushes fourteen registers and stores the stack pointer in the process; \<^verbatim>\<open>ctx_switch\<close> pops
  them from the stack of the process that is current then (\<^verbatim>\<open>grass/grass.s\<close>).
\<close>

definition ctx_entry :: "'e earth \<Rightarrow> 'e kernel \<Rightarrow> (transfer \<times> 'e kernel) res" where
  "ctx_entry E k =
     (let k = set_curr ((curr k)\<lparr>mepc := cpu_mepc k\<rparr>) k in
      bindE (case kernel_entry k of Proc_yield \<Rightarrow> proc_yield E k | Proc_syscall \<Rightarrow> proc_syscall E k)
        (\<lambda>(t, k). case t of
           Enter a0 a1 \<Rightarrow> Inr (t, k)
         | _ \<Rightarrow> Inr (t, k\<lparr>cpu_mepc := mepc (curr k), cpu_sp := sp (curr k) + 112\<rparr>)))"

definition ctx_start :: "'e earth \<Rightarrow> 'e kernel \<Rightarrow> (transfer \<times> 'e kernel) res" where
  "ctx_start E k =
     ctx_entry E (set_curr ((curr k)\<lparr>sp := cpu_sp k - 112\<rparr>) (k\<lparr>cpu_sp := word_of_nat GRASS_STACK_TOP\<rparr>))"

definition EXCP_ID_ECALL_U :: int where "EXCP_ID_ECALL_U = 8"
definition EXCP_ID_ECALL_S :: int where "EXCP_ID_ECALL_S = 9"
definition EXCP_ID_ECALL_M :: int where "EXCP_ID_ECALL_M = 11"

text \<open>The third disjunct of the test is the constant itself, as in the source.\<close>

definition excp_entry :: "'e earth \<Rightarrow> int \<Rightarrow> 'e kernel \<Rightarrow> (transfer \<times> 'e kernel) res" where
  "excp_entry E cause k =
     bindE (if cause = EXCP_ID_ECALL_U \<or> cause = EXCP_ID_ECALL_S \<or> EXCP_ID_ECALL_M \<noteq> 0
            then Inr (k\<lparr>kernel_entry := Proc_syscall\<rparr>)
            else if curr_pid k \<ge> GPID_USER_START then
              bindE (proc_free E (curr_pid k) k) (\<lambda>k.
              Inr ((proc_set_runnable GPID_SHELL k)\<lparr>kernel_entry := Proc_yield\<rparr>))
            else Inl (Fatal ''excp_entry: kernel got exception''))
       (\<lambda>k. ctx_start E (k\<lparr>cpu_mepc := cpu_mepc k + 4\<rparr>))"

definition INTR_ID_SOFT :: int where "INTR_ID_SOFT = 3"
definition INTR_ID_TIMER :: int where "INTR_ID_TIMER = 7"

definition intr_entry :: "'e earth \<Rightarrow> int \<Rightarrow> 'e kernel \<Rightarrow> (transfer \<times> 'e kernel) res" where
  "intr_entry E cause k =
     (if cause = INTR_ID_TIMER \<and> curr_pid k < GPID_SHELL then
        bindE (timer_reset_op E (earth_state k)) (\<lambda>e.
        Inr (Stay, k\<lparr>earth_state := e, cpu_mstatus := timer_reset_mstatus (cpu_mstatus k)\<rparr>))
      else
        bindE (tty_recv_intr_op E (earth_state k)) (\<lambda>(ctrl_c, e).
        let k = k\<lparr>earth_state := e\<rparr> in
        bindE (if ctrl_c \<and> curr_pid k \<ge> GPID_USER_START then
                 bindE (proc_free E (curr_pid k) k) (\<lambda>k.
                 Inr ((proc_set_runnable GPID_SHELL k)\<lparr>kernel_entry := Proc_yield\<rparr>))
               else if cause = INTR_ID_SOFT then Inr (k\<lparr>kernel_entry := Proc_syscall\<rparr>)
               else if cause = INTR_ID_TIMER then Inr (k\<lparr>kernel_entry := Proc_yield\<rparr>)
               else Inl (Fatal ''intr_entry: got unknown interrupt''))
          (\<lambda>k. ctx_start E k)))"

section \<open>System-call stubs\<close>

text \<open>
  The stubs run in the calling process; \<open>ecall\<close> stands for what happens between the trap and the
  return to it. The loop after it ends only if the kernel cleared the type.
\<close>

definition sys_invoke :: "(byte list \<Rightarrow> byte list) \<Rightarrow> byte list \<Rightarrow> byte list option" where
  "sys_invoke ecall sc = (let sc = ecall sc in if get32 sc 0 \<noteq> 0 then None else Some sc)"

definition sys_send :: "(byte list \<Rightarrow> byte list) \<Rightarrow> int \<Rightarrow> byte list \<Rightarrow> byte list \<Rightarrow> (int \<times> byte list) option" where
  "sys_send ecall receiver msg sc =
     (if length msg > SYSCALL_MSG_LEN then Some (-1, sc) else
      let sc = put32 sc 0 2;
          sc = put32 sc 2 (word_of_int receiver);
          sc = take 12 sc @ msg @ drop (12 + length msg) sc in
      map_option (\<lambda>sc. (sint (get32 sc 259), sc)) (sys_invoke ecall sc))"

definition sys_recv :: "(byte list \<Rightarrow> byte list) \<Rightarrow> nat \<Rightarrow> byte list \<Rightarrow> ((int \<times> int \<times> byte list) \<times> byte list) option" where
  "sys_recv ecall sz sc =
     (if sz > SYSCALL_MSG_LEN then Some ((-1, 0, []), sc) else
      map_option (\<lambda>sc. ((sint (get32 sc 259), sint (get32 sc 1), take sz (drop 12 sc)), sc))
        (sys_invoke ecall (put32 sc 0 1)))"

end
