(* ===== verification/Kernel_Correct.thy ===== *)
theory Kernel_Correct
  imports Kernel
begin

text \<open>
  Correctness of the kernel on any earth layer that keeps the \<open>address_spaces\<close> contract: the process
  table invariant, the scheduler's choice and its fairness, and delivery of messages.
\<close>

section \<open>The process table\<close>

definition table_ok :: "'e kernel \<Rightarrow> bool" where
  "table_ok k \<longleftrightarrow> length (proc_set k) = MAX_NPROCESS \<and> proc_curr_idx k < MAX_NPROCESS \<and>
     (\<forall>i < MAX_NPROCESS. 0 \<le> pid (proc_set k ! i) \<and> pid (proc_set k ! i) \<le> proc_nprocs k \<and>
        (pid (proc_set k ! i) = 0 \<longrightarrow> status (proc_set k ! i) = PROC_UNUSED) \<and>
        (status (proc_set k ! i) = PROC_RUNNING \<longrightarrow> i = proc_curr_idx k)) \<and>
     (\<forall>i < MAX_NPROCESS. \<forall>j < MAX_NPROCESS.
        pid (proc_set k ! i) = pid (proc_set k ! j) \<longrightarrow> pid (proc_set k ! i) \<noteq> 0 \<longrightarrow> i = j)"

definition sched_ok :: "'e kernel \<Rightarrow> bool" where
  "sched_ok k \<longleftrightarrow> table_ok k \<and> curr_status k = PROC_RUNNING"

lemma table_okD:
  assumes "table_ok k"
  shows "length (proc_set k) = 16" and "proc_curr_idx k < 16"
    and "i < 16 \<Longrightarrow> 0 \<le> pid (proc_set k ! i)" and "i < 16 \<Longrightarrow> pid (proc_set k ! i) \<le> proc_nprocs k"
    and "i < 16 \<Longrightarrow> pid (proc_set k ! i) = 0 \<Longrightarrow> status (proc_set k ! i) = PROC_UNUSED"
    and "i < 16 \<Longrightarrow> status (proc_set k ! i) = PROC_RUNNING \<Longrightarrow> i = proc_curr_idx k"
    and "i < 16 \<Longrightarrow> j < 16 \<Longrightarrow> pid (proc_set k ! i) = pid (proc_set k ! j) \<Longrightarrow>
      pid (proc_set k ! i) \<noteq> 0 \<Longrightarrow> i = j"
  using assms by (auto simp: table_ok_def layout_simps)

lemma table_okI:
  assumes "length (proc_set k) = 16" and "proc_curr_idx k < 16"
    and "\<And>i. i < 16 \<Longrightarrow> 0 \<le> pid (proc_set k ! i)" and "\<And>i. i < 16 \<Longrightarrow> pid (proc_set k ! i) \<le> proc_nprocs k"
    and "\<And>i. i < 16 \<Longrightarrow> pid (proc_set k ! i) = 0 \<Longrightarrow> status (proc_set k ! i) = PROC_UNUSED"
    and "\<And>i. i < 16 \<Longrightarrow> status (proc_set k ! i) = PROC_RUNNING \<Longrightarrow> i = proc_curr_idx k"
    and "\<And>i j. i < 16 \<Longrightarrow> j < 16 \<Longrightarrow> pid (proc_set k ! i) = pid (proc_set k ! j) \<Longrightarrow>
      pid (proc_set k ! i) \<noteq> 0 \<Longrightarrow> i = j"
  shows "table_ok k"
  unfolding table_ok_def layout_simps using assms by blast

text \<open>A used slot is the only one with its pid, so a status update by pid is an update of one slot.\<close>

lemma proc_set_status_at:
  assumes "table_ok k" and "i < 16" and "status (proc_set k ! i) \<noteq> PROC_UNUSED"
  shows "proc_set_status (pid (proc_set k ! i)) st k
    = k\<lparr>proc_set := (proc_set k)[i := (proc_set k ! i)\<lparr>status := st\<rparr>]\<rparr>"
proof -
  note t = table_okD [OF assms(1)]
  have "pid (proc_set k ! i) \<noteq> 0" using t(5) assms(2,3) by auto
  then have "pid (proc_set k ! j) = pid (proc_set k ! i) \<longleftrightarrow> j = i" if "j < 16" for j
    using t(7) [of j i] that assms(2) by auto
  then have "map (\<lambda>p. if pid p = pid (proc_set k ! i) then p\<lparr>status := st\<rparr> else p) (proc_set k)
      = (proc_set k)[i := (proc_set k ! i)\<lparr>status := st\<rparr>]"
    using t(1) by (intro nth_equalityI) (simp_all add: nth_list_update)
  then show ?thesis by (simp add: proc_set_status_def)
qed

text \<open>Changing statuses and receivers keeps the table invariant if nothing but the current slot runs.\<close>

lemma table_ok_update:
  assumes "table_ok k" and "i < 16"
    and "pid p = pid (proc_set k ! i)" and "status p = PROC_RUNNING \<longrightarrow> i = proc_curr_idx k"
    and "pid p = 0 \<longrightarrow> status p = PROC_UNUSED"
  shows "table_ok (k\<lparr>proc_set := (proc_set k)[i := p]\<rparr>)"
proof -
  have nth: "(proc_set k)[i := p] ! j = (if j = i then p else proc_set k ! j)" if "j < 16" for j
    using table_okD(1) [OF assms(1)] that by (simp add: nth_list_update)
  have pid: "pid ((proc_set k)[i := p] ! j) = pid (proc_set k ! j)" if "j < 16" for j
    using nth [OF that] assms(3) by simp
  note t = table_okD [OF assms(1)]
  show ?thesis
  proof (rule table_okI, simp_all add: t(1,2) pid)
    fix j :: nat
    assume j: "j < 16"
    show "0 \<le> pid (proc_set k ! j)" "pid (proc_set k ! j) \<le> proc_nprocs k" using j by (rule t(3), rule t(4))
    show "status ((proc_set k)[i := p] ! j) = PROC_UNUSED" if "pid (proc_set k ! j) = 0"
      using j that nth [of j] t(5) [of j] assms(3,5) by (cases "j = i") simp_all
    show "j = proc_curr_idx k" if "status ((proc_set k)[i := p] ! j) = PROC_RUNNING"
      using j that nth [of j] t(6) [of j] assms(4) by (cases "j = i") simp_all
    show "j = l" if "l < 16" "pid (proc_set k ! j) = pid (proc_set k ! l)" "pid (proc_set k ! l) \<noteq> 0" for l
      using j that by (intro t(7)) simp_all
  qed
qed

lemma table_ok_cong:
  "proc_set k' = proc_set k \<Longrightarrow> proc_curr_idx k' = proc_curr_idx k \<Longrightarrow> proc_nprocs k' = proc_nprocs k \<Longrightarrow>
     table_ok k' = table_ok k"
  by (simp add: table_ok_def)

section \<open>Scheduling order\<close>

text \<open>The slot that the scheduler picks: the first runnable one after the current slot, cyclically.\<close>

definition next_slot :: "'e kernel \<Rightarrow> nat option" where
  "next_slot k = find (\<lambda>i. runnable (status (proc_set k ! i))) (yield_order (proc_curr_idx k))"

lemma yield_order_set: "i < 16 \<Longrightarrow> set (yield_order i) = {..<16}"
proof -
  assume i: "i < 16"
  have "\<exists>j \<in> {1..<17}. x = (i + j) mod 16" if "x < 16" for x
    using that i by (intro bexI [of _ "if i < x then x - i else 16 + x - i"]) auto
  then show ?thesis by (auto simp: yield_order_def layout_simps image_iff)
qed

lemma next_slot_Some:
  assumes "next_slot k = Some n" and "proc_curr_idx k < 16"
  shows "n < 16" and "runnable (status (proc_set k ! n))"
  using assms yield_order_set [OF assms(2)] by (auto simp: next_slot_def find_Some_iff set_conv_nth)

lemma next_slot_None_iff:
  "proc_curr_idx k < 16 \<Longrightarrow>
     next_slot k = None \<longleftrightarrow> (\<forall>i < 16. \<not> runnable (status (proc_set k ! i)))"
  using yield_order_set [of "proc_curr_idx k"] by (auto simp: next_slot_def find_None_iff)

lemma runnable_used: "runnable s \<Longrightarrow> s \<noteq> PROC_UNUSED"
  by (auto simp: runnable_def)

section \<open>The effect of a yield\<close>

definition active :: "proc_status \<Rightarrow> bool" where
  "active s \<longleftrightarrow> s \<noteq> PROC_UNUSED \<and> s \<noteq> PROC_LOADING"

definition spaces_ok :: "('e \<Rightarrow> int \<Rightarrow> bool) \<Rightarrow> 'e kernel \<Rightarrow> bool" where
  "spaces_ok live k \<longleftrightarrow>
     (\<forall>i < MAX_NPROCESS. active (status (proc_set k ! i)) \<longrightarrow> live (earth_state k) (pid (proc_set k ! i)))"

text \<open>The process table after a yield to slot \<open>n\<close>.\<close>

definition yield_table :: "'e kernel \<Rightarrow> nat \<Rightarrow> process list" where
  "yield_table k n =
     (let ps = (if curr_status k = PROC_RUNNING
                then (proc_set k)[proc_curr_idx k := (curr k)\<lparr>status := PROC_RUNNABLE\<rparr>] else proc_set k) in
      ps[n := (ps ! n)\<lparr>status := PROC_RUNNING\<rparr>])"

lemma yield_table_nth:
  assumes "table_ok k" and "n < 16" and "i < 16"
  shows "yield_table k n ! i = (proc_set k ! i)\<lparr>status :=
    (if i = n then PROC_RUNNING
     else if i = proc_curr_idx k \<and> curr_status k = PROC_RUNNING then PROC_RUNNABLE
     else status (proc_set k ! i))\<rparr>"
  using table_okD(1,2) [OF assms(1)] assms(2,3) by (auto simp: yield_table_def Let_def nth_list_update)

lemma yield_table_sched:
  assumes "table_ok k" and "n < 16" and "runnable (status (proc_set k ! n))"
    and "proc_set k' = yield_table k n" and "proc_curr_idx k' = n" and "proc_nprocs k' = proc_nprocs k"
  shows "sched_ok k'"
proof -
  note t = table_okD [OF assms(1)] and nth = yield_table_nth [OF assms(1,2)]
  have len: "length (yield_table k n) = 16" using t(1) by (simp add: yield_table_def Let_def)
  have pid: "pid (yield_table k n ! i) = pid (proc_set k ! i)" if "i < 16" for i using nth [OF that] by simp
  have "table_ok k'"
  proof (rule table_okI, simp_all add: assms(4-6) len pid assms(2))
    fix j :: nat
    assume j: "j < 16"
    show "0 \<le> pid (proc_set k ! j)" "pid (proc_set k ! j) \<le> proc_nprocs k" using j by (rule t(3), rule t(4))
    show "status (yield_table k n ! j) = PROC_UNUSED" if "pid (proc_set k ! j) = 0"
      using that t(5) [OF j] runnable_used [OF assms(3)] unfolding nth [OF j] by (cases "j = n") auto
    show "j = n" if "status (yield_table k n ! j) = PROC_RUNNING"
    proof (rule ccontr)
      assume "j \<noteq> n"
      then have "status (proc_set k ! j) = PROC_RUNNING" "\<not> (j = proc_curr_idx k \<and> curr_status k = PROC_RUNNING)"
        using that unfolding nth [OF j] by (simp_all split: if_splits)
      then show False using t(6) [OF j] by metis
    qed
    show "j = l" if "l < 16" "pid (proc_set k ! j) = pid (proc_set k ! l)" "pid (proc_set k ! l) \<noteq> 0" for l
      using j that by (intro t(7)) simp_all
  qed
  then show ?thesis using nth [OF assms(2)] assms(4,5) by (simp add: sched_ok_def)
qed

text \<open>The kernel runs its current process in that process's own address space.\<close>

definition kernel_ok :: "('e \<Rightarrow> bool) \<Rightarrow> ('e \<Rightarrow> int \<Rightarrow> bool) \<Rightarrow> ('e \<Rightarrow> int) \<Rightarrow> 'e kernel \<Rightarrow> bool" where
  "kernel_ok ok live cur k \<longleftrightarrow>
     sched_ok k \<and> ok (earth_state k) \<and> spaces_ok live k \<and> cur (earth_state k) = curr_pid k"

lemma spaces_okD:
  "spaces_ok live k \<Longrightarrow> i < 16 \<Longrightarrow> active (status (proc_set k ! i)) \<Longrightarrow> live (earth_state k) (pid (proc_set k ! i))"
  by (simp add: spaces_ok_def layout_simps)

lemma spaces_ok_mono:
  assumes "spaces_ok live k" and "live (earth_state k') = live (earth_state k)"
    and "\<And>i. i < 16 \<Longrightarrow> active (status (proc_set k' ! i)) \<Longrightarrow>
      active (status (proc_set k ! i)) \<and> pid (proc_set k' ! i) = pid (proc_set k ! i)"
  shows "spaces_ok live k'"
  unfolding spaces_ok_def layout_simps
proof (intro allI impI)
  fix i :: nat
  assume i: "i < 16" and "active (status (proc_set k' ! i))"
  then show "live (earth_state k') (pid (proc_set k' ! i))"
    using assms(3) [OF i] spaces_okD [OF assms(1) i] assms(2) by metis
qed

lemma active_simps [simp]:
  "active PROC_RUNNING" "active PROC_RUNNABLE" "active PROC_READY" "active PROC_WAIT_TO_SEND"
  "active PROC_WAIT_TO_RECV" "\<not> active PROC_UNUSED" "\<not> active PROC_LOADING"
  by (simp_all add: active_def)

lemma runnable_active: "runnable s \<Longrightarrow> active s"
  by (auto simp: runnable_def)

text \<open>One slot changes from one active status to another.\<close>

lemma slot_update_ok:
  assumes "table_ok k" and "spaces_ok live k" and "i < 16" and "active (status (proc_set k ! i))"
    and "pid p = pid (proc_set k ! i)" and "status p = PROC_RUNNING \<longrightarrow> i = proc_curr_idx k" and "active (status p)"
    and "live e = live (earth_state k)"
  shows "table_ok (k\<lparr>earth_state := e, proc_set := (proc_set k)[i := p]\<rparr>)"
    and "spaces_ok live (k\<lparr>earth_state := e, proc_set := (proc_set k)[i := p]\<rparr>)"
proof -
  note t = table_okD [OF assms(1)]
  have "pid p \<noteq> 0" using t(5) [OF assms(3)] assms(4,5) by auto
  then have "table_ok (k\<lparr>proc_set := (proc_set k)[i := p]\<rparr>)"
    using assms by (intro table_ok_update) auto
  then show "table_ok (k\<lparr>earth_state := e, proc_set := (proc_set k)[i := p]\<rparr>)"
    by (simp add: table_ok_def)
  show "spaces_ok live (k\<lparr>earth_state := e, proc_set := (proc_set k)[i := p]\<rparr>)"
    using assms(3-5,8) t(1)
    by (intro spaces_ok_mono [OF assms(2)]) (auto simp: nth_list_update split: if_splits)
qed

lemma sc_msg_length: "length b = syscall_size \<Longrightarrow> length (sc_msg b) = 1032"
  by (simp add: sc_msg_def layout_simps)

lemma set_sc_msg_length:
  "length b = syscall_size \<Longrightarrow> length msg = 1032 \<Longrightarrow> length (set_sc_msg b msg) = syscall_size"
  by (simp add: set_sc_msg_def layout_simps)

section \<open>Message passing\<close>

abbreviation waits_to_send :: "int \<Rightarrow> process \<Rightarrow> bool" where
  "waits_to_send me p \<equiv> status p = PROC_WAIT_TO_SEND \<and> receiver_pid p = me"

text \<open>The receive loop takes the waiting sender in the highest slot.\<close>

lemma waiting_sender_spec:
  assumes "\<And>p. p \<in> set ps \<Longrightarrow> pid p \<noteq> -1"
  shows "if waiting_sender me ps = -1 then \<forall>p \<in> set ps. \<not> waits_to_send me p
    else \<exists>i < length ps. waits_to_send me (ps ! i) \<and> pid (ps ! i) = waiting_sender me ps \<and>
      (\<forall>j. i < j \<longrightarrow> j < length ps \<longrightarrow> \<not> waits_to_send me (ps ! j))"
  using assms
proof (induction ps rule: rev_induct)
  case (snoc p ps)
  show ?case
  proof (cases "waits_to_send me p")
    case True
    have "pid p \<noteq> -1" using snoc.prems by simp
    then show ?thesis using True by (auto simp: waiting_sender_def nth_append intro!: exI [of _ "length ps"])
  next
    case False
    then have eq: "waiting_sender me (ps @ [p]) = waiting_sender me ps" by (auto simp: waiting_sender_def)
    show ?thesis
    proof (cases "waiting_sender me ps = -1")
      case True
      then show ?thesis using snoc False eq by auto
    next
      case F2: False
      then obtain i where "i < length ps" "waits_to_send me (ps ! i)" "pid (ps ! i) = waiting_sender me ps"
        "\<forall>j. i < j \<longrightarrow> j < length ps \<longrightarrow> \<not> waits_to_send me (ps ! j)"
        using snoc by auto
      then show ?thesis using False F2 eq
        by (auto simp: nth_append less_Suc_eq intro!: exI [of _ i])
    qed
  qed
qed (simp add: waiting_sender_def)

text \<open>The system-call area after the kernel has cleared its type and return value.\<close>

definition sc_cleared :: "byte list \<Rightarrow> byte list" where
  "sc_cleared b = put32 (put32 b 259 0) 0 0"

definition sc_from :: "int \<Rightarrow> byte list \<Rightarrow> byte list" where
  "sc_from p b = put32 b 1 (word_of_int p)"

lemma find_pid:
  assumes "table_ok k" and "j < 16" and "status (proc_set k ! j) \<noteq> PROC_UNUSED"
  shows "find (\<lambda>i. pid (proc_set k ! i) = pid (proc_set k ! j)) [0..<MAX_NPROCESS] = Some j"
proof -
  note t = table_okD [OF assms(1)]
  have "pid (proc_set k ! j) \<noteq> 0" using t(5) assms(2,3) by auto
  then have "pid (proc_set k ! i) \<noteq> pid (proc_set k ! j)" if "i < j" for i
    using t(7) [of i j] that assms(2) by auto
  then show ?thesis using assms(2) unfolding find_Some_iff by (intro exI [of _ j]) (simp add: layout_simps)
qed

context address_spaces
begin

lemma proc_yield_ok:
  assumes k: "table_ok k" and "ok (earth_state k)" and sp: "spaces_ok live k" and n: "next_slot k = Some n"
  obtains t k' where "proc_yield E k = Inr (t, k')"
    and "t = (if status (proc_set k ! n) = PROC_READY
              then Enter (word_of_nat APPS_ARG) (word_of_nat (APPS_ARG + 4)) else Resume)"
    and "proc_set k' = yield_table k n" and "proc_curr_idx k' = n" and "proc_nprocs k' = proc_nprocs k"
    and "ok (earth_state k')" and "live (earth_state k') = live (earth_state k)"
    and "arg (earth_state k') = arg (earth_state k)" and "cur (earth_state k') = pid (proc_set k ! n)"
    and "cpu_sp k' = cpu_sp k" and "kernel_entry k' = kernel_entry k"
    and "cpu_mstatus k' = (if status (proc_set k ! n) = PROC_READY
          then enter_mstatus (pid (proc_set k ! n)) (timer_reset_mstatus (cpu_mstatus k))
          else timer_reset_mstatus (cpu_mstatus k))"
    and "cpu_mepc k' = (if status (proc_set k ! n) = PROC_READY then word_of_nat APPS_ENTRY else cpu_mepc k)"
proof -
  note t = table_okD [OF k]
  have n16: "n < 16" and rn: "runnable (status (proc_set k ! n))" using next_slot_Some [OF n t(2)] by auto
  define k1 where "k1 = (if curr_status k = PROC_RUNNING then proc_set_runnable (curr_pid k) k else k)"
  have k1: "k1 = k\<lparr>proc_set := if curr_status k = PROC_RUNNING
      then (proc_set k)[proc_curr_idx k := (curr k)\<lparr>status := PROC_RUNNABLE\<rparr>] else proc_set k\<rparr>"
    using proc_set_status_at [OF k t(2), of PROC_RUNNABLE] by (auto simp: k1_def proc_set_runnable_def)
  define k2 where "k2 = k1\<lparr>proc_curr_idx := n\<rparr>"
  have pn: "curr_pid k2 = pid (proc_set k ! n)" and e2: "earth_state k2 = earth_state k"
    using t(1,2) n16 by (auto simp: k2_def k1 nth_list_update)
  have sn: "curr_status k2 = PROC_READY \<longleftrightarrow> status (proc_set k ! n) = PROC_READY"
    using t(1,2) n16 by (auto simp: k2_def k1 nth_list_update)
  have "live (earth_state k) (pid (proc_set k ! n))"
    using sp rn n16 by (auto simp: spaces_ok_def layout_simps active_def runnable_def)
  then obtain e1 where e1: "mmu_switch_op E (pid (proc_set k ! n)) (earth_state k) = Inr e1" "ok e1"
    "live e1 = live (earth_state k)" "cur e1 = pid (proc_set k ! n)" "arg e1 = arg (earth_state k)"
    using switch_ok [OF assms(2)] by blast
  obtain e3 where e3: "timer_reset_op E e1 = Inr e3" "ok e3" "live e3 = live e1" "cur e3 = cur e1" "arg e3 = arg e1"
    using timer_ok [OF e1(2)] by blast
  define k3 where "k3 = k2\<lparr>earth_state := e3, cpu_mstatus := timer_reset_mstatus (cpu_mstatus k2)\<rparr>"
  have run: "proc_set_running (curr_pid k3) k3 = k3\<lparr>proc_set := yield_table k n\<rparr>"
  proof -
    have len: "length (proc_set k1) = 16" using t(1) by (simp add: k1)
    have pids: "pid (proc_set k1 ! j) = pid (proc_set k ! j)" if "j < 16" for j
      using that t(1,2) by (auto simp: k1 nth_list_update)
    have "pid (proc_set k ! n) \<noteq> 0" using t(5) [OF n16] runnable_used [OF rn] by auto
    then have "pid (proc_set k1 ! j) = pid (proc_set k ! n) \<longleftrightarrow> j = n" if "j < 16" for j
      using t(7) [of j n] that n16 pids by auto
    then have "map (\<lambda>p. if pid p = pid (proc_set k ! n) then p\<lparr>status := PROC_RUNNING\<rparr> else p) (proc_set k1)
        = (proc_set k1)[n := (proc_set k1 ! n)\<lparr>status := PROC_RUNNING\<rparr>]"
      using len by (intro nth_equalityI) (simp_all add: nth_list_update)
    moreover have "(proc_set k1)[n := (proc_set k1 ! n)\<lparr>status := PROC_RUNNING\<rparr>] = yield_table k n"
      by (simp add: yield_table_def k1 Let_def)
    ultimately show ?thesis using pn
      by (simp add: proc_set_running_def proc_set_status_def k3_def k2_def)
  qed
  have "proc_yield E k = (let k = k3 in if curr_status k = PROC_READY then
            let k = proc_set_running (curr_pid k) k in
            Inr (Enter (word_of_nat APPS_ARG) (word_of_nat (APPS_ARG + 4)),
                 k\<lparr>cpu_mepc := word_of_nat APPS_ENTRY,
                   cpu_mstatus := enter_mstatus (curr_pid k) (cpu_mstatus k)\<rparr>)
          else Inr (Resume, proc_set_running (curr_pid k) k))"
    using n e1(1) e3(1) pn e2 unfolding proc_yield_def next_slot_def [symmetric] k3_def k2_def
    by (simp add: k1_def [symmetric] Let_def)
  then have yield: "proc_yield E k = (if status (proc_set k ! n) = PROC_READY
      then Inr (Enter (word_of_nat APPS_ARG) (word_of_nat (APPS_ARG + 4)),
        k3\<lparr>proc_set := yield_table k n, cpu_mepc := word_of_nat APPS_ENTRY,
           cpu_mstatus := enter_mstatus (pid (proc_set k ! n)) (timer_reset_mstatus (cpu_mstatus k))\<rparr>)
      else Inr (Resume, k3\<lparr>proc_set := yield_table k n\<rparr>))"
    using run sn pn yield_table_nth [OF k n16 n16] by (simp add: Let_def k3_def k2_def k1)
  let ?k' = "if status (proc_set k ! n) = PROC_READY
      then k3\<lparr>proc_set := yield_table k n, cpu_mepc := word_of_nat APPS_ENTRY,
           cpu_mstatus := enter_mstatus (pid (proc_set k ! n)) (timer_reset_mstatus (cpu_mstatus k))\<rparr>
      else k3\<lparr>proc_set := yield_table k n\<rparr>"
  show thesis
    by (rule that [of _ ?k']) (use yield e1 e3 in \<open>simp_all add: k3_def k2_def k1\<close>)
qed

lemma proc_yield_post:
  assumes "table_ok k" and "ok (earth_state k)" and "spaces_ok live k"
  shows "case proc_yield E k of
      Inl f \<Rightarrow> f = Fatal ''proc_yield: no runnable process'' \<and> (\<forall>i < 16. \<not> runnable (status (proc_set k ! i)))
    | Inr (t, k') \<Rightarrow> kernel_ok ok live cur k' \<and> arg (earth_state k') = arg (earth_state k)"
proof (cases "next_slot k")
  case None
  then show ?thesis
    using next_slot_None_iff [OF table_okD(2) [OF assms(1)]] by (simp add: proc_yield_def next_slot_def)
next
  case (Some n)
  obtain t k' where y: "proc_yield E k = Inr (t, k')" "proc_set k' = yield_table k n" "proc_curr_idx k' = n"
    "proc_nprocs k' = proc_nprocs k" "ok (earth_state k')" "live (earth_state k') = live (earth_state k)"
    "arg (earth_state k') = arg (earth_state k)" "cur (earth_state k') = pid (proc_set k ! n)"
    using proc_yield_ok [OF assms Some] by metis
  have n: "n < 16" "runnable (status (proc_set k ! n))"
    using next_slot_Some [OF Some table_okD(2) [OF assms(1)]] by auto
  have "sched_ok k'" using yield_table_sched [OF assms(1) n y(2-4)] .
  moreover have "spaces_ok live k'"
  proof (rule spaces_ok_mono [OF assms(3) y(6)])
    fix i :: nat
    assume i: "i < 16" and "active (status (proc_set k' ! i))"
    then show "active (status (proc_set k ! i)) \<and> pid (proc_set k' ! i) = pid (proc_set k ! i)"
      using runnable_active [OF n(2)] unfolding y(2) yield_table_nth [OF assms(1) n(1) i]
      by (auto split: if_splits)
  qed
  moreover have "curr_pid k' = pid (proc_set k ! n)"
    using yield_table_nth [OF assms(1) n(1) n(1)] y(2,3) by simp
  ultimately show ?thesis using y by (simp add: kernel_ok_def)
qed

lemma copy_msg_ok:
  assumes "ok e" and "live e p" and "live e q"
  obtains e' where "copy_msg E p q e = Inr e'" and "ok e'" and "live e' = live e" and "cur e' = q"
    and "arg e' = (arg e)(q := set_sc_msg (arg e q) (sc_msg (arg e p)))"
proof -
  obtain e1 where e1: "mmu_switch_op E p e = Inr e1" "ok e1" "live e1 = live e" "cur e1 = p" "arg e1 = arg e"
    using switch_ok [OF assms(1,2)] by blast
  obtain e2 where e2: "mmu_switch_op E q e1 = Inr e2" "ok e2" "live e2 = live e" "cur e2 = q" "arg e2 = arg e"
    using switch_ok [OF e1(2), of q] e1(3,5) assms(3) by auto
  have sc: "sc_op E e1 = arg e p" "sc_op E e2 = arg e q"
    using sc_ok [OF e1(2)] sc_ok [OF e2(2)] e1 e2 assms by simp_all
  let ?b = "set_sc_msg (arg e q) (sc_msg (arg e p))"
  have "length ?b = syscall_size"
    using arg_length [OF assms(1)] assms(2,3) by (simp add: set_sc_msg_length sc_msg_length)
  note st = set_sc_ok [OF e2(2), of ?b, unfolded e2(3-5), OF assms(3) this]
  show thesis
    by (rule that [of "set_sc_op E ?b e2"]) (use e1 e2 sc st in \<open>simp_all add: copy_msg_def Let_def\<close>)
qed

lemma set_sc_cell_ok:
  assumes "ok e" and "live e (cur e)"
  shows "ok (set_sc_cell E i v e)" and "live (set_sc_cell E i v e) = live e" and "cur (set_sc_cell E i v e) = cur e"
    and "arg (set_sc_cell E i v e) = (arg e)(cur e := put32 (arg e (cur e)) i v)"
proof -
  have "length (put32 (arg e (cur e)) i v) = syscall_size" using arg_length [OF assms] by simp
  from set_sc_ok [OF assms this]
  show "ok (set_sc_cell E i v e)" "live (set_sc_cell E i v e) = live e" "cur (set_sc_cell E i v e) = cur e"
    "arg (set_sc_cell E i v e) = (arg e)(cur e := put32 (arg e (cur e)) i v)"
    by (simp_all add: set_sc_cell_def sc_ok [OF assms])
qed

lemma kernel_okD:
  assumes "kernel_ok ok live cur k"
  shows "table_ok k" and "curr_status k = PROC_RUNNING" and "ok (earth_state k)" and "spaces_ok live k"
    and "cur (earth_state k) = curr_pid k" and "live (earth_state k) (curr_pid k)" and "proc_curr_idx k < 16"
  using assms table_okD(2) [of k] spaces_okD [of live k "proc_curr_idx k"]
  by (auto simp: kernel_ok_def sched_ok_def)

lemma kernel_ok_earth:
  assumes "kernel_ok ok live cur k" and "ok e" and "live e = live (earth_state k)" and "cur e = cur (earth_state k)"
  shows "kernel_ok ok live cur (k\<lparr>earth_state := e\<rparr>)"
  using assms by (simp add: kernel_ok_def sched_ok_def table_ok_def spaces_ok_def)

text \<open>A slot that became runnable makes the following yield succeed.\<close>

lemma wake_and_yield:
  assumes k: "table_ok k" and "spaces_ok live k" and e: "ok e" "live e = live (earth_state k)"
    and i: "i < 16" "active (status (proc_set k ! i))"
  shows "\<exists>t k'. proc_yield E (proc_set_runnable (pid (proc_set k ! i)) (k\<lparr>earth_state := e\<rparr>)) = Inr (t, k') \<and>
    kernel_ok ok live cur k' \<and> arg (earth_state k') = arg e"
proof -
  let ?k = "k\<lparr>earth_state := e, proc_set := (proc_set k)[i := (proc_set k ! i)\<lparr>status := PROC_RUNNABLE\<rparr>]\<rparr>"
  have "table_ok (k\<lparr>earth_state := e\<rparr>)" using k by (simp add: table_ok_def)
  moreover have "status (proc_set k ! i) \<noteq> PROC_UNUSED" using i(2) by auto
  ultimately have eq: "proc_set_runnable (pid (proc_set k ! i)) (k\<lparr>earth_state := e\<rparr>) = ?k"
    using proc_set_status_at [of "k\<lparr>earth_state := e\<rparr>" i] i(1) by (simp add: proc_set_runnable_def)
  have ok: "table_ok ?k" "spaces_ok live ?k"
    using slot_update_ok [OF k assms(2) i, of "(proc_set k ! i)\<lparr>status := PROC_RUNNABLE\<rparr>" e] e(2) by simp_all
  have "runnable (status (proc_set ?k ! i))" using table_okD(1) [OF k] i(1) by (simp add: runnable_def)
  then show ?thesis
    using proc_yield_post [OF ok(1) _ ok(2)] e(1) i(1) eq
    by (auto split: sum.splits)
qed

lemma proc_recv_delivers:
  assumes k: "kernel_ok ok live cur k" and s: "waiting_sender (curr_pid k) (proc_set k) \<noteq> -1"
  shows "\<exists>t k'. proc_recv E k = Inr (t, k') \<and> kernel_ok ok live cur k' \<and>
    arg (earth_state k') = (arg (earth_state k))(curr_pid k :=
      set_sc_msg (arg (earth_state k) (curr_pid k))
        (sc_msg (arg (earth_state k) (waiting_sender (curr_pid k) (proc_set k)))))"
proof -
  note d = kernel_okD [OF k] and t = table_okD [OF kernel_okD(1) [OF k]]
  let ?s = "waiting_sender (curr_pid k) (proc_set k)"
  have nn: "pid p \<noteq> -1" if p: "p \<in> set (proc_set k)" for p
  proof -
    obtain i where "i < 16" "p = proc_set k ! i" using p t(1) by (auto simp: in_set_conv_nth)
    then show ?thesis using t(3) [of i] by auto
  qed
  obtain i where i: "i < 16" "waits_to_send (curr_pid k) (proc_set k ! i)" "pid (proc_set k ! i) = ?s"
    using waiting_sender_spec [of "proc_set k" "curr_pid k", OF nn] s t(1) by auto
  have act: "active (status (proc_set k ! i))" using i(2) by simp
  have ls: "live (earth_state k) ?s" using spaces_okD [OF d(4) i(1) act] i(3) by simp
  obtain e where e: "copy_msg E ?s (curr_pid k) (earth_state k) = Inr e" "ok e" "live e = live (earth_state k)"
    "arg e = (arg (earth_state k))(curr_pid k :=
      set_sc_msg (arg (earth_state k) (curr_pid k)) (sc_msg (arg (earth_state k) ?s)))"
    using copy_msg_ok [OF d(3) ls d(6)] by metis
  show ?thesis
    using wake_and_yield [OF d(1,4) e(2,3) i(1) act] s e(1,4) i(3)
    by (simp add: proc_recv_def Let_def)
qed

lemma proc_recv_blocks:
  assumes k: "kernel_ok ok live cur k" and s: "waiting_sender (curr_pid k) (proc_set k) = -1"
  shows "case proc_recv E k of Inl f \<Rightarrow> f = Fatal ''proc_yield: no runnable process''
    | Inr (t, k') \<Rightarrow> kernel_ok ok live cur k' \<and> arg (earth_state k') = arg (earth_state k)"
proof -
  note d = kernel_okD [OF k]
  let ?p = "(curr k)\<lparr>status := PROC_WAIT_TO_RECV\<rparr>"
  have "table_ok (set_curr ?p k)" "spaces_ok live (set_curr ?p k)"
    using slot_update_ok [OF d(1,4,7), of ?p "earth_state k"] d(2) by (simp_all add: set_curr_def)
  from proc_yield_post [OF this(1) _ this(2)] show ?thesis
    using d(3) s by (auto simp: proc_recv_def set_curr_def split: sum.splits)
qed

lemma proc_send_delivers:
  assumes k: "kernel_ok ok live cur k" and j: "j < 16" "status (proc_set k ! j) = PROC_WAIT_TO_RECV"
    and r: "sint (get32 (arg (earth_state k) (curr_pid k)) 2) = pid (proc_set k ! j)"
  shows "\<exists>t k'. proc_send E k = Inr (t, k') \<and> kernel_ok ok live cur k' \<and>
    arg (earth_state k') = (arg (earth_state k))
      (curr_pid k := sc_from (curr_pid k) (arg (earth_state k) (curr_pid k)),
       pid (proc_set k ! j) := set_sc_msg (arg (earth_state k) (pid (proc_set k ! j)))
         (sc_msg (sc_from (curr_pid k) (arg (earth_state k) (curr_pid k)))))"
proof -
  note d = kernel_okD [OF k] and t = table_okD [OF kernel_okD(1) [OF k]]
  let ?e = "earth_state k" and ?p = "curr_pid k" and ?r = "pid (proc_set k ! j)"
  define e1 where "e1 = set_sc_cell E 1 (word_of_int ?p) ?e"
  have lc: "live ?e (cur ?e)" using d(5,6) by simp
  have e1: "ok e1" "live e1 = live ?e" "cur e1 = ?p" "arg e1 = (arg ?e)(?p := sc_from ?p (arg ?e ?p))"
    using set_sc_cell_ok [OF d(3) lc, of 1 "word_of_int ?p"] d(5) by (simp_all add: e1_def sc_from_def)
  have sc: "sc_op E e1 = sc_from ?p (arg ?e ?p)" using sc_ok [OF e1(1)] e1 d(6) by simp
  have rcv: "sint (get32 (sc_op E e1) 2) = ?r" using r by (simp add: sc sc_from_def get32_put32_other)
  have "j \<noteq> proc_curr_idx k" and nz: "?r \<noteq> 0" using j(2) d(2) t(5) [OF j(1)] by auto
  then have ne: "?r \<noteq> ?p" using t(7) [OF j(1) d(7)] by blast
  have act: "active (status (proc_set k ! j))" using j(2) by simp
  have lr: "live e1 ?r" "live e1 ?p" using spaces_okD [OF d(4) j(1) act] e1(2) d(6) by simp_all
  obtain e2 where e2: "copy_msg E ?p ?r e1 = Inr e2" "ok e2" "live e2 = live e1"
    "arg e2 = (arg e1)(?r := set_sc_msg (arg e1 ?r) (sc_msg (arg e1 ?p)))"
    using copy_msg_ok [OF e1(1) lr(2,1)] by metis
  have k1: "table_ok (k\<lparr>earth_state := e1\<rparr>)" "spaces_ok live (k\<lparr>earth_state := e1\<rparr>)"
    using d(1,4) e1(2) by (simp_all add: table_ok_def spaces_ok_def)
  have fnd: "find (\<lambda>i. pid (proc_set k ! i) = ?r) [0..<MAX_NPROCESS] = Some j"
    using find_pid [OF d(1) j(1)] j(2) by simp
  have "\<exists>t k'. proc_yield E (proc_set_runnable ?r (k\<lparr>earth_state := e1, earth_state := e2\<rparr>)) = Inr (t, k') \<and>
      kernel_ok ok live cur k' \<and> arg (earth_state k') = arg e2"
    using wake_and_yield [OF k1 e2(2), of j] e2(3) j(1) act by simp
  then show ?thesis
    using e2(1,4) e1(4) fnd rcv j(2) ne unfolding proc_send_def e1_def [symmetric]
    by (simp add: Let_def)
qed

lemma proc_send_other:
  assumes k: "kernel_ok ok live cur k"
    and j: "\<And>j. j < 16 \<Longrightarrow> sint (get32 (arg (earth_state k) (curr_pid k)) 2) = pid (proc_set k ! j) \<Longrightarrow>
      status (proc_set k ! j) \<noteq> PROC_WAIT_TO_RECV"
  shows "case proc_send E k of Inl f \<Rightarrow> f = Fatal ''proc_yield: no runnable process''
    | Inr (t, k') \<Rightarrow> kernel_ok ok live cur k' \<and>
       (\<forall>q. q \<noteq> curr_pid k \<longrightarrow> arg (earth_state k') q = arg (earth_state k) q)"
proof -
  note d = kernel_okD [OF k] and t = table_okD [OF kernel_okD(1) [OF k]]
  let ?e = "earth_state k" and ?p = "curr_pid k"
  define e1 where "e1 = set_sc_cell E 1 (word_of_int ?p) ?e"
  have lc: "live ?e (cur ?e)" using d(5,6) by simp
  have e1: "ok e1" "live e1 = live ?e" "cur e1 = ?p" "arg e1 = (arg ?e)(?p := sc_from ?p (arg ?e ?p))"
    using set_sc_cell_ok [OF d(3) lc, of 1 "word_of_int ?p"] d(5) by (simp_all add: e1_def sc_from_def)
  have sc: "sc_op E e1 = sc_from ?p (arg ?e ?p)" using sc_ok [OF e1(1)] e1 d(6) by simp
  define r where "r = sint (get32 (arg ?e ?p) 2)"
  have rcv: "sint (get32 (sc_op E e1) 2) = r" by (simp add: sc sc_from_def get32_put32_other r_def)
  show ?thesis
  proof (cases "find (\<lambda>i. pid (proc_set k ! i) = r) [0..<MAX_NPROCESS]")
    case None
    let ?e2 = "set_sc_cell E 259 (- 1) e1"
    have le: "live e1 (cur e1)" using e1 d(6) by simp
    note e2 = set_sc_cell_ok [OF e1(1) le, of 259 "-1"]
    have "kernel_ok ok live cur (k\<lparr>earth_state := ?e2\<rparr>)"
      by (rule kernel_ok_earth [OF k e2(1)]) (use e2 e1 d(5) in simp_all)
    then show ?thesis
      using None rcv e2(4) e1(3,4) unfolding proc_send_def e1_def [symmetric] by (simp add: Let_def)
  next
    case (Some i)
    then have i: "i < 16" "pid (proc_set k ! i) = r" by (auto simp: find_Some_iff layout_simps)
    then have nw: "status (proc_set k ! i) \<noteq> PROC_WAIT_TO_RECV" using j r_def by auto
    let ?q = "(curr k)\<lparr>status := PROC_WAIT_TO_SEND, receiver_pid := r\<rparr>"
    let ?k = "set_curr ?q (k\<lparr>earth_state := e1\<rparr>)"
    have ok: "table_ok ?k" "spaces_ok live ?k"
      using slot_update_ok [OF d(1,4,7), of ?q e1] d(2) e1(2) by (simp_all add: set_curr_def)
    have "proc_send E k = proc_yield E ?k"
      using Some rcv nw unfolding proc_send_def e1_def [symmetric] by (simp add: Let_def)
    then show ?thesis
      using proc_yield_post [OF ok(1) _ ok(2)] e1(1,4) by (auto simp: set_curr_def split: sum.splits)
  qed
qed

lemma proc_send_post:
  assumes "kernel_ok ok live cur k"
  shows "case proc_send E k of Inl f \<Rightarrow> f = Fatal ''proc_yield: no runnable process''
    | Inr (t, k') \<Rightarrow> kernel_ok ok live cur k'"
proof (cases "\<exists>j < 16. sint (get32 (arg (earth_state k) (curr_pid k)) 2) = pid (proc_set k ! j) \<and>
    status (proc_set k ! j) = PROC_WAIT_TO_RECV")
  case True
  then show ?thesis using proc_send_delivers [OF assms] by fastforce
next
  case False
  then show ?thesis using proc_send_other [OF assms] by (auto split: sum.splits)
qed

lemma proc_recv_post:
  assumes "kernel_ok ok live cur k"
  shows "case proc_recv E k of Inl f \<Rightarrow> f = Fatal ''proc_yield: no runnable process''
    | Inr (t, k') \<Rightarrow> kernel_ok ok live cur k'"
  using proc_recv_delivers [OF assms] proc_recv_blocks [OF assms]
  by (cases "waiting_sender (curr_pid k) (proc_set k) = -1") (auto split: sum.splits)

end

end
