(* ===== verification/Kernel_Traps.thy ===== *)
theory Kernel_Traps
  imports Kernel_Correct
begin

text \<open>
  Whole traps: system calls, exceptions and interrupts keep the kernel invariant, the message areas
  change only as message passing says, and every state reachable by traps and by the process
  server's calls satisfies the invariant.
\<close>

section \<open>Messages as the processes see them\<close>

definition msg_sender :: "byte list \<Rightarrow> int" where "msg_sender b = sint (get32 b 1)"
definition msg_receiver :: "byte list \<Rightarrow> int" where "msg_receiver b = sint (get32 b 2)"
definition msg_content :: "byte list \<Rightarrow> byte list" where "msg_content b = take 1024 (drop 12 b)"
definition call_type :: "byte list \<Rightarrow> int" where "call_type b = sint (get32 b 0)"
definition call_retval :: "byte list \<Rightarrow> int" where "call_retval b = sint (get32 b 259)"

lemma get32_cong:
  assumes "\<And>j. j < 4 \<Longrightarrow> a ! (4 * i + j) = b ! (4 * i' + j)"
  shows "get32 a i = get32 b i'"
  using assms [of 0] assms [of 1] assms [of 2] assms [of 3] by (simp add: get32_def)

lemma nth_set_sc_msg:
  assumes "length a = 1040" and "length b = 1040" and "i < 1040"
  shows "set_sc_msg b (sc_msg a) ! i = (if 4 \<le> i \<and> i < 1036 then a ! i else b ! i)"
  using assms by (auto simp: set_sc_msg_def sc_msg_def nth_append layout_simps)

lemma delivered_message:
  assumes "length a = 1040" and "length b = 1040"
  shows "msg_sender (set_sc_msg b (sc_msg a)) = msg_sender a"
    and "msg_receiver (set_sc_msg b (sc_msg a)) = msg_receiver a"
    and "msg_content (set_sc_msg b (sc_msg a)) = msg_content a"
    and "call_type (set_sc_msg b (sc_msg a)) = call_type b"
    and "call_retval (set_sc_msg b (sc_msg a)) = call_retval b"
proof -
  note n = nth_set_sc_msg [OF assms]
  have "get32 (set_sc_msg b (sc_msg a)) 1 = get32 a 1" "get32 (set_sc_msg b (sc_msg a)) 2 = get32 a 2"
    "get32 (set_sc_msg b (sc_msg a)) 0 = get32 b 0" "get32 (set_sc_msg b (sc_msg a)) 259 = get32 b 259"
    by (rule get32_cong, simp add: n)+
  then show "msg_sender (set_sc_msg b (sc_msg a)) = msg_sender a"
    "msg_receiver (set_sc_msg b (sc_msg a)) = msg_receiver a"
    "call_type (set_sc_msg b (sc_msg a)) = call_type b"
    "call_retval (set_sc_msg b (sc_msg a)) = call_retval b"
    by (simp_all add: msg_sender_def msg_receiver_def call_type_def call_retval_def)
  have "length (set_sc_msg b (sc_msg a)) = 1040"
    using set_sc_msg_length [of b "sc_msg a"] sc_msg_length [of a] assms by (simp add: layout_simps)
  then show "msg_content (set_sc_msg b (sc_msg a)) = msg_content a"
    unfolding msg_content_def using assms n by (intro nth_equalityI) auto
qed

lemma content_put32:
  assumes "i < 3 \<or> 259 \<le> i" and "length b = 1040"
  shows "msg_content (put32 b i v) = msg_content b"
proof (rule nth_equalityI)
  fix j assume "j < length (msg_content (put32 b i v))"
  then have j: "j < 1024" using assms(2) by (simp add: msg_content_def)
  then have "(12 + j) div 4 \<noteq> i" using assms(1) by auto
  then show "msg_content (put32 b i v) ! j = msg_content b ! j"
    using j assms(2) by (simp add: msg_content_def nth_put32)
qed (use assms in \<open>simp add: msg_content_def\<close>)

lemma prepared_area:
  assumes "length b = 1040"
  shows "length (sc_cleared b) = 1040" and "call_type (sc_cleared b) = 0" and "call_retval (sc_cleared b) = 0"
    and "msg_receiver (sc_cleared b) = msg_receiver b" and "msg_sender (sc_cleared b) = msg_sender b"
    and "msg_content (sc_cleared b) = msg_content b"
    and "length (sc_from p b) = 1040" and "msg_content (sc_from p b) = msg_content b"
    and "call_type (sc_from p b) = call_type b" and "call_retval (sc_from p b) = call_retval b"
    and "- (2 ^ 31) \<le> p \<Longrightarrow> p < 2 ^ 31 \<Longrightarrow> msg_sender (sc_from p b) = p"
  using assms
  by (simp_all add: sc_cleared_def sc_from_def call_type_def call_retval_def msg_receiver_def msg_sender_def
      content_put32 get32_put32_same get32_put32_other sint_sbintrunc' signed_take_bit_int_eq_self)

section \<open>System calls\<close>

definition no_runnable :: fault where "no_runnable = Fatal ''proc_yield: no runnable process''"
definition bad_syscall :: fault where "bad_syscall = Fatal ''proc_syscall: got unknown syscall type''"
definition bad_interrupt :: fault where "bad_interrupt = Fatal ''intr_entry: got unknown interrupt''"

text \<open>The slot of the shell, if it has one, is in use: it can be made runnable.\<close>

definition shell_ready :: "'e kernel \<Rightarrow> bool" where
  "shell_ready k \<longleftrightarrow>
     (\<forall>p \<in> set (proc_set k). pid p = GPID_SHELL \<longrightarrow> active (status p))"

lemma shell_ready_status: "shell_ready k \<Longrightarrow> active st \<Longrightarrow> shell_ready (proc_set_status q st k)"
  by (auto simp: shell_ready_def proc_set_status_def)

lemma shell_ready_set_curr: "shell_ready k \<Longrightarrow> (pid p = GPID_SHELL \<longrightarrow> active (status p)) \<Longrightarrow> shell_ready (set_curr p k)"
  unfolding shell_ready_def set_curr_def using set_update_subset_insert [of "proc_set k" "proc_curr_idx k" p] by auto

lemma shell_ready_simps [simp]:
  "shell_ready (k\<lparr>earth_state := e\<rparr>) = shell_ready k" "shell_ready (k\<lparr>proc_curr_idx := i\<rparr>) = shell_ready k"
  "shell_ready (k\<lparr>cpu_mepc := a\<rparr>) = shell_ready k" "shell_ready (k\<lparr>cpu_mstatus := a\<rparr>) = shell_ready k"
  "shell_ready (k\<lparr>cpu_sp := a\<rparr>) = shell_ready k" "shell_ready (k\<lparr>kernel_entry := x\<rparr>) = shell_ready k"
  by (simp_all add: shell_ready_def)

lemma kernel_ok_cpu:
  "kernel_ok ok live cur (k\<lparr>cpu_mepc := a, cpu_sp := b\<rparr>) = kernel_ok ok live cur k"
  "kernel_ok ok live cur (k\<lparr>cpu_mepc := a\<rparr>) = kernel_ok ok live cur k"
  "kernel_ok ok live cur (k\<lparr>cpu_mstatus := a\<rparr>) = kernel_ok ok live cur k"
  "kernel_ok ok live cur (k\<lparr>kernel_entry := x\<rparr>) = kernel_ok ok live cur k"
  by (simp_all add: kernel_ok_def sched_ok_def table_ok_def spaces_ok_def)

lemma table_ok_simps [simp]:
  "table_ok (k\<lparr>kernel_entry := x\<rparr>) = table_ok k" "spaces_ok live (k\<lparr>kernel_entry := x\<rparr>) = spaces_ok live k"
  by (simp_all add: table_ok_def spaces_ok_def)

lemmas status_ops = proc_set_runnable_def proc_set_running_def proc_set_ready_def

lemma shell_ready_yield: "proc_yield E k = Inr (t, k') \<Longrightarrow> shell_ready k \<Longrightarrow> shell_ready k'"
  by (auto simp: proc_yield_def Let_def bindE_eq_Inr_iff status_ops intro!: shell_ready_status
      split: option.splits if_splits)

lemma shell_ready_recv: "proc_recv E k = Inr (t, k') \<Longrightarrow> shell_ready k \<Longrightarrow> shell_ready k'"
  by (auto simp: proc_recv_def Let_def bindE_eq_Inr_iff status_ops split: if_splits elim!: shell_ready_yield
      intro!: shell_ready_status shell_ready_set_curr)

lemma shell_ready_send: "proc_send E k = Inr (t, k') \<Longrightarrow> shell_ready k \<Longrightarrow> shell_ready k'"
  by (auto simp: proc_send_def Let_def bindE_eq_Inr_iff status_ops split: if_splits option.splits
      elim!: shell_ready_yield intro!: shell_ready_status shell_ready_set_curr)

lemma shell_ready_syscall: "proc_syscall E k = Inr (t, k') \<Longrightarrow> shell_ready k \<Longrightarrow> shell_ready k'"
  by (auto simp: proc_syscall_def Let_def split: if_splits elim!: shell_ready_recv shell_ready_send)

lemma set_curr_same:
  assumes "table_ok k" and "pid p = curr_pid k" and "status p = curr_status k"
  shows "table_ok (set_curr p k)" and "spaces_ok live k \<Longrightarrow> spaces_ok live (set_curr p k)"
    and "sched_ok k \<Longrightarrow> sched_ok (set_curr p k)"
    and "i < 16 \<Longrightarrow> pid (proc_set (set_curr p k) ! i) = pid (proc_set k ! i)"
    and "i < 16 \<Longrightarrow> status (proc_set (set_curr p k) ! i) = status (proc_set k ! i)"
proof -
  note t = table_okD [OF assms(1)]
  show nth: "pid (proc_set (set_curr p k) ! i) = pid (proc_set k ! i)"
    "status (proc_set (set_curr p k) ! i) = status (proc_set k ! i)" if "i < 16" for i
    using that t(1,2) assms(2,3) by (simp_all add: set_curr_def nth_list_update)
  show tab: "table_ok (set_curr p k)"
    unfolding set_curr_def
  proof (rule table_ok_update [OF assms(1) t(2) assms(2)])
    show "status p = PROC_RUNNING \<longrightarrow> proc_curr_idx k = proc_curr_idx k" by simp
    show "pid p = 0 \<longrightarrow> status p = PROC_UNUSED" using t(5) [OF t(2)] assms(2,3) by simp
  qed
  show "spaces_ok live (set_curr p k)" if "spaces_ok live k"
    using that by (rule spaces_ok_mono) (simp_all add: nth, simp add: set_curr_def)
  show "sched_ok (set_curr p k)" if "sched_ok k"
    using that tab nth [OF t(2)] by (simp add: sched_ok_def) (simp add: set_curr_def)
qed

lemma nprocs_yield: "proc_yield E k = Inr (t, k') \<Longrightarrow> proc_nprocs k' = proc_nprocs k"
  by (auto simp: proc_yield_def Let_def bindE_eq_Inr_iff status_ops proc_set_status_def
      split: option.splits if_splits)

lemma nprocs_recv: "proc_recv E k = Inr (t, k') \<Longrightarrow> proc_nprocs k' = proc_nprocs k"
  by (auto simp: proc_recv_def Let_def bindE_eq_Inr_iff status_ops proc_set_status_def set_curr_def
      split: if_splits dest!: nprocs_yield)

lemma nprocs_send: "proc_send E k = Inr (t, k') \<Longrightarrow> proc_nprocs k' = proc_nprocs k"
  by (auto simp: proc_send_def Let_def bindE_eq_Inr_iff status_ops proc_set_status_def set_curr_def
      split: if_splits option.splits dest!: nprocs_yield)

lemma nprocs_syscall: "proc_syscall E k = Inr (t, k') \<Longrightarrow> proc_nprocs k' = proc_nprocs k"
  by (auto simp: proc_syscall_def Let_def split: if_splits dest!: nprocs_recv nprocs_send)

lemma nprocs_ctx_start: "ctx_start E k = Inr (t, k') \<Longrightarrow> proc_nprocs k' = proc_nprocs k"
  by (auto simp: ctx_start_def ctx_entry_def Let_def bindE_eq_Inr_iff set_curr_def
      split: kentry.splits transfer.splits dest!: nprocs_yield nprocs_syscall) (metis transfer.exhaust)+

lemma nprocs_excp: "excp_entry E cause k = Inr (t, k') \<Longrightarrow> proc_nprocs k' = proc_nprocs k"
  by (auto simp: excp_entry_def EXCP_ID_ECALL_M_def dest!: nprocs_ctx_start)

lemma nprocs_free_users: "proc_free_users E is k = Inr k' \<Longrightarrow> proc_nprocs k' = proc_nprocs k"
  by (induction "is" arbitrary: k) (fastforce simp: Let_def bindE_eq_Inr_iff split: if_splits)+

lemma nprocs_free: "proc_free E q k = Inr k' \<Longrightarrow> proc_nprocs k' = proc_nprocs k"
  by (auto simp: proc_free_def bindE_eq_Inr_iff proc_set_status_def split: if_splits dest!: nprocs_free_users)

lemma nprocs_intr: "intr_entry E cause k = Inr (t, k') \<Longrightarrow> proc_nprocs k' = proc_nprocs k"
  by (auto simp: intr_entry_def Let_def bindE_eq_Inr_iff status_ops proc_set_status_def
      split: if_splits dest!: nprocs_ctx_start nprocs_free)

section \<open>Steps of the system\<close>

text \<open>
  Between traps the running process may change its own system-call area; while the process server
  runs, it may also allocate a process, load it (which gives it an address space), make it ready and
  free user processes.
\<close>

inductive kernel_step ::
    "'e earth \<Rightarrow> ('e \<Rightarrow> bool) \<Rightarrow> ('e \<Rightarrow> int \<Rightarrow> bool) \<Rightarrow> ('e \<Rightarrow> int) \<Rightarrow> ('e \<Rightarrow> int \<Rightarrow> byte list) \<Rightarrow>
       'e kernel \<Rightarrow> 'e kernel \<Rightarrow> bool"
  for E ok live cur arg where
  intr: "intr_entry E cause k = Inr (t, k') \<Longrightarrow> kernel_step E ok live cur arg k k'"
| excp: "excp_entry E cause k = Inr (t, k') \<Longrightarrow> kernel_step E ok live cur arg k k'"
| user: "ok e \<Longrightarrow> live e = live (earth_state k) \<Longrightarrow> cur e = cur (earth_state k) \<Longrightarrow>
      (\<forall>q. q \<noteq> cur e \<longrightarrow> arg e q = arg (earth_state k) q) \<Longrightarrow>
      kernel_step E ok live cur arg k (k\<lparr>earth_state := e\<rparr>)"
| alloc: "proc_alloc k = Inr (p, k') \<Longrightarrow> kernel_step E ok live cur arg k k'"
| load: "ok e \<Longrightarrow> live e = (live (earth_state k))(p := True) \<Longrightarrow> cur e = cur (earth_state k) \<Longrightarrow>
      (\<forall>q. q \<noteq> p \<longrightarrow> arg e q = arg (earth_state k) q) \<Longrightarrow>
      kernel_step E ok live cur arg k (k\<lparr>earth_state := e\<rparr>)"
| ready: "i < 16 \<Longrightarrow> status (proc_set k ! i) = PROC_LOADING \<Longrightarrow>
      live (earth_state k) (pid (proc_set k ! i)) \<Longrightarrow>
      kernel_step E ok live cur arg k (proc_set_ready (pid (proc_set k ! i)) k)"
| free: "q \<ge> GPID_USER_START \<Longrightarrow> q \<noteq> curr_pid k \<Longrightarrow> proc_free E q k = Inr k' \<Longrightarrow>
      kernel_step E ok live cur arg k k'"

definition system_ok :: "('e \<Rightarrow> bool) \<Rightarrow> ('e \<Rightarrow> int \<Rightarrow> bool) \<Rightarrow> ('e \<Rightarrow> int) \<Rightarrow> 'e kernel \<Rightarrow> bool" where
  "system_ok ok live cur k \<longleftrightarrow> kernel_ok ok live cur k \<and> shell_ready k \<and> GPID_SHELL \<le> proc_nprocs k"

context address_spaces
begin

lemma proc_syscall_start:
  assumes k: "kernel_ok ok live cur k"
  obtains e1 where "kernel_ok ok live cur (k\<lparr>earth_state := e1\<rparr>)"
    and "arg e1 = (arg (earth_state k))(curr_pid k := sc_cleared (arg (earth_state k) (curr_pid k)))"
    and "proc_syscall E k =
      (if call_type (arg (earth_state k) (curr_pid k)) = 1 then proc_recv E (k\<lparr>earth_state := e1\<rparr>)
       else if call_type (arg (earth_state k) (curr_pid k)) = 2 then proc_send E (k\<lparr>earth_state := e1\<rparr>)
       else Inl bad_syscall)"
proof -
  note d = kernel_okD [OF k]
  let ?e = "earth_state k"
  have lc: "live ?e (cur ?e)" using d(5,6) by simp
  define e0 where "e0 = set_sc_cell E 259 0 ?e"
  note e0 = set_sc_cell_ok [OF d(3) lc, of 259 0, folded e0_def]
  have lc0: "live e0 (cur e0)" using lc e0 by simp
  define e1 where "e1 = set_sc_cell E 0 0 e0"
  note e1 = set_sc_cell_ok [OF e0(1) lc0, of 0 0, folded e1_def]
  have "kernel_ok ok live cur (k\<lparr>earth_state := e1\<rparr>)"
    by (rule kernel_ok_earth [OF k e1(1)]) (use e0 e1 in simp_all)
  moreover have "arg e1 = (arg ?e)(curr_pid k := sc_cleared (arg ?e (curr_pid k)))"
    using e0 e1 d(5) by (simp add: sc_cleared_def)
  moreover have "sc_op E ?e = arg ?e (curr_pid k)" using sc_ok [OF d(3) lc] d(5) by simp
  ultimately show thesis
    by (intro that [of e1])
      (simp_all add: proc_syscall_def e0_def [symmetric] e1_def [symmetric] call_type_def bad_syscall_def Let_def)
qed

lemma proc_syscall_post:
  assumes "kernel_ok ok live cur k"
  shows "case proc_syscall E k of Inl f \<Rightarrow> f = no_runnable \<or> f = bad_syscall
    | Inr (t, k') \<Rightarrow> kernel_ok ok live cur k'"
proof (rule proc_syscall_start [OF assms])
  fix e1
  assume k1: "kernel_ok ok live cur (k\<lparr>earth_state := e1\<rparr>)"
    and eq: "proc_syscall E k =
      (if call_type (arg (earth_state k) (curr_pid k)) = 1 then proc_recv E (k\<lparr>earth_state := e1\<rparr>)
       else if call_type (arg (earth_state k) (curr_pid k)) = 2 then proc_send E (k\<lparr>earth_state := e1\<rparr>)
       else Inl bad_syscall)"
  show ?thesis
    using proc_recv_post [OF k1] proc_send_post [OF k1] unfolding eq no_runnable_def
    by (auto split: sum.splits)
qed

section \<open>Traps\<close>

text \<open>
  What holds on the kernel stack before \<^verbatim>\<open>kernel_entry\<close> is called: a system call comes from a running
  process, while a yield may follow the killing of the current one.
\<close>

lemma ctx_start_post:
  assumes "table_ok k" and "ok (earth_state k)" and "spaces_ok live k" and "shell_ready k"
    and "kernel_entry k = Proc_syscall \<Longrightarrow> kernel_ok ok live cur k"
  shows "case ctx_start E k of
      Inl f \<Rightarrow> f = no_runnable \<or> (f = bad_syscall \<and> kernel_entry k = Proc_syscall)
    | Inr (t, k') \<Rightarrow> kernel_ok ok live cur k' \<and> shell_ready k'"
proof -
  note t = table_okD [OF assms(1)]
  define k1 where "k1 = set_curr ((curr k)\<lparr>sp := cpu_sp k - 112\<rparr>) (k\<lparr>cpu_sp := word_of_nat GRASS_STACK_TOP\<rparr>)"
  define k2 where "k2 = set_curr ((curr k1)\<lparr>mepc := cpu_mepc k1\<rparr>) k1"
  let ?p = "(curr k)\<lparr>sp := cpu_sp k - 112, mepc := cpu_mepc k\<rparr>"
  have k2: "k2 = set_curr ?p (k\<lparr>cpu_sp := word_of_nat GRASS_STACK_TOP\<rparr>)"
    using t(1,2) by (simp add: k2_def k1_def set_curr_def)
  have tk: "table_ok (k\<lparr>cpu_sp := word_of_nat GRASS_STACK_TOP\<rparr>)" using assms(1) by (simp add: table_ok_def)
  have sp: "spaces_ok live (k\<lparr>cpu_sp := word_of_nat GRASS_STACK_TOP\<rparr>)" using assms(3) by (simp add: spaces_ok_def)
  note s = set_curr_same [OF tk, of ?p]
  have tab: "table_ok k2" and spc: "spaces_ok live k2" unfolding k2 using s(1,2) sp by simp_all
  have e2: "earth_state k2 = earth_state k" "kernel_entry k2 = kernel_entry k" by (simp_all add: k2 set_curr_def)
  have okk: "kernel_ok ok live cur k2" if sys: "kernel_entry k = Proc_syscall"
  proof -
    note d = kernel_okD [OF assms(5) [OF sys]]
    have "curr_status k2 = PROC_RUNNING" "curr_pid k2 = curr_pid k"
      using d(2) t(1,2) by (simp_all add: k2 set_curr_def)
    then show ?thesis using tab spc assms(2) e2 d(5) by (simp add: kernel_ok_def sched_ok_def)
  qed
  have shell: "shell_ready k2"
    unfolding k2 using assms(4) t(1,2) by (intro shell_ready_set_curr) (auto simp: shell_ready_def)
  define r where "r = (case kernel_entry k of Proc_yield \<Rightarrow> proc_yield E k2 | Proc_syscall \<Rightarrow> proc_syscall E k2)"
  have r: "case r of Inl f \<Rightarrow> f = no_runnable \<or> (f = bad_syscall \<and> kernel_entry k = Proc_syscall)
    | Inr (t, k') \<Rightarrow> kernel_ok ok live cur k' \<and> shell_ready k'"
  proof (cases "kernel_entry k")
    case Proc_yield
    then show ?thesis
      using proc_yield_post [OF tab _ spc] assms(2) e2 shell_ready_yield [of E k2] shell
      by (auto simp: r_def no_runnable_def split: sum.splits)
  next
    case Proc_syscall
    then show ?thesis
      using proc_syscall_post [OF okk] shell_ready_syscall [of E k2] shell
      by (auto simp: r_def split: sum.splits)
  qed
  have "ctx_start E k = bindE r (\<lambda>(t, k). case t of Enter a0 a1 \<Rightarrow> Inr (t, k)
         | _ \<Rightarrow> Inr (t, k\<lparr>cpu_mepc := mepc (curr k), cpu_sp := sp (curr k) + 112\<rparr>))"
    unfolding ctx_start_def ctx_entry_def r_def using e2(2)
    by (simp add: k1_def [symmetric] k2_def [symmetric] Let_def)
  then show ?thesis
    using r by (auto simp: kernel_ok_cpu split: sum.splits transfer.splits)
qed

lemma excp_entry_post:
  assumes "kernel_ok ok live cur k" and "shell_ready k"
  shows "case excp_entry E cause k of Inl f \<Rightarrow> f = no_runnable \<or> f = bad_syscall
    | Inr (t, k') \<Rightarrow> kernel_ok ok live cur k' \<and> shell_ready k'"
proof -
  let ?k = "k\<lparr>kernel_entry := Proc_syscall, cpu_mepc := cpu_mepc k + 4\<rparr>"
  have k': "kernel_ok ok live cur ?k" using assms(1) by (simp add: kernel_ok_cpu)
  have "excp_entry E cause k = ctx_start E ?k" by (simp add: excp_entry_def EXCP_ID_ECALL_M_def)
  then show ?thesis
    using ctx_start_post [of ?k] kernel_okD(1,3,4) [OF k'] k' assms(2) by (auto split: sum.splits)
qed

lemma proc_free_user_ok:
  assumes k: "table_ok k" "ok (earth_state k)" "spaces_ok live k" "shell_ready k" and q: "q \<ge> GPID_USER_START"
  obtains k' where "proc_free E q k = Inr k'" and "table_ok k'" and "ok (earth_state k')" and "spaces_ok live k'"
    and "shell_ready k'" and "proc_curr_idx k' = proc_curr_idx k" and "cur (earth_state k') = cur (earth_state k)"
    and "proc_set k' = map (\<lambda>p. if pid p = q then p\<lparr>status := PROC_UNUSED\<rparr> else p) (proc_set k)"
    and "arg (earth_state k') = (arg (earth_state k))(q := [])" and "proc_nprocs k' = proc_nprocs k"
proof -
  note t = table_okD [OF k(1)]
  obtain e where e: "mmu_free_op E q (earth_state k) = Inr e" "ok e" "live e = (live (earth_state k))(q := False)"
    "cur e = cur (earth_state k)" "arg e = (arg (earth_state k))(q := [])"
    using free_ok [OF k(2)] by blast
  let ?k = "proc_set_status q PROC_UNUSED (k\<lparr>earth_state := e\<rparr>)"
  have "q \<noteq> -1" using q by (simp add: layout_simps)
  then have eq: "proc_free E q k = Inr ?k" using e(1) by (simp add: proc_free_def)
  have ps: "proc_set ?k = map (\<lambda>p. if pid p = q then p\<lparr>status := PROC_UNUSED\<rparr> else p) (proc_set k)"
    by (simp add: proc_set_status_def)
  have nth: "pid (proc_set ?k ! i) = pid (proc_set k ! i)"
    "status (proc_set ?k ! i) = (if pid (proc_set k ! i) = q then PROC_UNUSED else status (proc_set k ! i))"
    if "i < 16" for i using that t(1) by (simp_all add: ps)
  have tab: "table_ok ?k"
  proof (rule table_okI)
    show "length (proc_set ?k) = 16" "proc_curr_idx ?k < 16" using t(1,2) by (simp_all add: ps, simp add: proc_set_status_def)
    fix i :: nat
    assume i: "i < 16"
    show "0 \<le> pid (proc_set ?k ! i)" "pid (proc_set ?k ! i) \<le> proc_nprocs ?k"
      using t(3) [OF i] t(4) [OF i] nth [OF i] by (simp_all add: proc_set_status_def)
    show "status (proc_set ?k ! i) = PROC_UNUSED" if "pid (proc_set ?k ! i) = 0"
      using that t(5) [OF i] nth [OF i] by simp
    show "i = proc_curr_idx ?k" if "status (proc_set ?k ! i) = PROC_RUNNING"
      using that t(6) [OF i] nth [OF i] by (auto simp: proc_set_status_def split: if_splits)
    show "i = j" if "j < 16" "pid (proc_set ?k ! i) = pid (proc_set ?k ! j)" "pid (proc_set ?k ! i) \<noteq> 0" for j
      using that t(7) [OF i] nth(1) [OF i] nth(1) [of j] by auto
  qed
  have spc: "spaces_ok live ?k"
    unfolding spaces_ok_def layout_simps
  proof (intro allI impI)
    fix i :: nat
    assume i: "i < 16" and a: "active (status (proc_set ?k ! i))"
    then have "pid (proc_set k ! i) \<noteq> q" "active (status (proc_set k ! i))" using nth [OF i] by (auto split: if_splits)
    then show "live (earth_state ?k) (pid (proc_set ?k ! i))"
      using spaces_okD [OF k(3) i] nth(1) [OF i] e(3) by (simp add: proc_set_status_def)
  qed
  have shell: "shell_ready ?k"
    using k(4) q by (auto simp: shell_ready_def ps layout_simps)
  show thesis
    by (rule that [OF eq tab _ spc shell]) (use e ps in \<open>simp_all add: proc_set_status_def\<close>)
qed

lemma wake_shell_ok:
  assumes k: "table_ok k" "spaces_ok live k" "shell_ready k"
  shows "table_ok (proc_set_runnable GPID_SHELL k)" and "spaces_ok live (proc_set_runnable GPID_SHELL k)"
    and "shell_ready (proc_set_runnable GPID_SHELL k)"
    and "earth_state (proc_set_runnable GPID_SHELL k) = earth_state k"
    and "proc_curr_idx (proc_set_runnable GPID_SHELL k) = proc_curr_idx k"
    and "proc_nprocs (proc_set_runnable GPID_SHELL k) = proc_nprocs k"
proof -
  show "shell_ready (proc_set_runnable GPID_SHELL k)"
    using shell_ready_status [OF k(3)] by (simp add: status_ops)
  show "earth_state (proc_set_runnable GPID_SHELL k) = earth_state k"
    "proc_curr_idx (proc_set_runnable GPID_SHELL k) = proc_curr_idx k"
    "proc_nprocs (proc_set_runnable GPID_SHELL k) = proc_nprocs k"
    by (simp_all add: status_ops proc_set_status_def)
  note t = table_okD [OF k(1)]
  have "table_ok (proc_set_runnable GPID_SHELL k) \<and> spaces_ok live (proc_set_runnable GPID_SHELL k)"
  proof (cases "\<exists>i < 16. pid (proc_set k ! i) = GPID_SHELL")
    case True
    then obtain i where i: "i < 16" "pid (proc_set k ! i) = GPID_SHELL" by blast
    then have act: "active (status (proc_set k ! i))" using k(3) t(1) by (simp add: shell_ready_def)
    then have "status (proc_set k ! i) \<noteq> PROC_UNUSED" by auto
    from proc_set_status_at [OF k(1) i(1) this, of PROC_RUNNABLE] show ?thesis
      using slot_update_ok [OF k(1,2) i(1) act, of "(proc_set k ! i)\<lparr>status := PROC_RUNNABLE\<rparr>" "earth_state k"] i(2)
      by (simp add: status_ops)
  next
    case False
    then have "map (\<lambda>p. if pid p = GPID_SHELL then p\<lparr>status := PROC_RUNNABLE\<rparr> else p) (proc_set k) = proc_set k"
      using t(1) by (intro nth_equalityI) auto
    then show ?thesis using k by (simp add: status_ops proc_set_status_def)
  qed
  then show "table_ok (proc_set_runnable GPID_SHELL k)" "spaces_ok live (proc_set_runnable GPID_SHELL k)" by auto
qed

lemma intr_entry_post:
  assumes "kernel_ok ok live cur k" and "shell_ready k"
  shows "case intr_entry E cause k of Inl f \<Rightarrow> f = no_runnable \<or> f = bad_syscall \<or> f = bad_interrupt
    | Inr (t, k') \<Rightarrow> kernel_ok ok live cur k' \<and> shell_ready k'"
proof (cases "cause = INTR_ID_TIMER \<and> curr_pid k < GPID_SHELL")
  case True
  note d = kernel_okD [OF assms(1)]
  obtain e where e: "timer_reset_op E (earth_state k) = Inr e" "ok e" "live e = live (earth_state k)"
    "cur e = cur (earth_state k)" using timer_ok [OF d(3)] by blast
  then show ?thesis
    using True kernel_ok_earth [OF assms(1) e(2-4)] assms(2) kernel_ok_cpu(3) [where k = "k\<lparr>earth_state := e\<rparr>"]
    by (simp add: intr_entry_def)
next
  case False
  note d = kernel_okD [OF assms(1)]
  obtain c e where e: "tty_recv_intr_op E (earth_state k) = Inr (c, e)" "ok e" "live e = live (earth_state k)"
    "cur e = cur (earth_state k)" using tty_ok [OF d(3)] by blast
  define k1 where "k1 = k\<lparr>earth_state := e\<rparr>"
  have k1: "kernel_ok ok live cur k1" "shell_ready k1"
    using kernel_ok_earth [OF assms(1) e(2-4)] assms(2) by (simp_all add: k1_def)
  note d1 = kernel_okD [OF k1(1)]
  have pid1: "curr_pid k1 = curr_pid k" by (simp add: k1_def)
  have step: "case ctx_start E (k1\<lparr>kernel_entry := x\<rparr>) of Inl f \<Rightarrow> f = no_runnable \<or> f = bad_syscall
      | Inr (t, k') \<Rightarrow> kernel_ok ok live cur k' \<and> shell_ready k'" for x
    using ctx_start_post [of "k1\<lparr>kernel_entry := x\<rparr>"] d1 k1
    by (auto simp: kernel_ok_cpu split: sum.splits)
  show ?thesis
  proof (cases "c \<and> curr_pid k \<ge> GPID_USER_START")
    case kill: True
    obtain k2 where k2: "proc_free E (curr_pid k) k1 = Inr k2" "table_ok k2" "ok (earth_state k2)"
      "spaces_ok live k2" "shell_ready k2"
      using proc_free_user_ok [OF d1(1,3,4) k1(2), of "curr_pid k"] kill by metis
    note w = wake_shell_ok [OF k2(2,4,5)]
    let ?k3 = "(proc_set_runnable GPID_SHELL k2)\<lparr>kernel_entry := Proc_yield\<rparr>"
    have "case ctx_start E ?k3 of Inl f \<Rightarrow> f = no_runnable \<or> (f = bad_syscall \<and> kernel_entry ?k3 = Proc_syscall)
        | Inr (t, k') \<Rightarrow> kernel_ok ok live cur k' \<and> shell_ready k'"
      by (rule ctx_start_post) (use w k2(3) in simp_all)
    moreover have "intr_entry E cause k = ctx_start E ?k3"
      unfolding intr_entry_def if_not_P [OF False]
      using e(1) kill k2(1) pid1 by (simp add: k1_def [symmetric] Let_def)
    ultimately show ?thesis by (auto split: sum.splits)
  next
    case False2: False
    then have "intr_entry E cause k =
        (if cause = INTR_ID_SOFT then ctx_start E (k1\<lparr>kernel_entry := Proc_syscall\<rparr>)
         else if cause = INTR_ID_TIMER then ctx_start E (k1\<lparr>kernel_entry := Proc_yield\<rparr>) else Inl bad_interrupt)"
      unfolding intr_entry_def if_not_P [OF False]
      using e(1) pid1 by (auto simp: k1_def [symmetric] Let_def bad_interrupt_def)
    then show ?thesis using step [of Proc_syscall] step [of Proc_yield] by (auto split: sum.splits)
  qed
qed

lemma proc_alloc_ok:
  assumes k: "system_ok ok live cur k" and a: "proc_alloc k = Inr (p, k')"
  shows "system_ok ok live cur k'" and "p = proc_nprocs k + 1" and "\<forall>q \<in> set (proc_set k). pid q \<noteq> p"
    and "\<exists>i < 16. status (proc_set k ! i) = PROC_UNUSED \<and> pid (proc_set k' ! i) = p \<and>
      status (proc_set k' ! i) = PROC_LOADING \<and> (\<forall>j < 16. j \<noteq> i \<longrightarrow> proc_set k' ! j = proc_set k ! j)"
proof -
  have ko: "kernel_ok ok live cur k" and sh: "shell_ready k" and np: "4 \<le> proc_nprocs k"
    using k by (auto simp: system_ok_def layout_simps)
  note d = kernel_okD [OF ko] and t = table_okD [OF kernel_okD(1) [OF ko]]
  obtain i where i: "i < 16" "status (proc_set k ! i) = PROC_UNUSED"
    and p: "p = proc_nprocs k + 1"
    and k': "k' = k\<lparr>proc_nprocs := p, proc_set := (proc_set k)[i := (proc_set k ! i)\<lparr>pid := p, status := PROC_LOADING\<rparr>]\<rparr>"
    using a by (auto simp: proc_alloc_def find_Some_iff layout_simps split: option.splits)
  show "p = proc_nprocs k + 1" by (rule p)
  have fresh: "pid (proc_set k ! j) \<noteq> p" if "j < 16" for j using t(4) [OF that] p by simp
  then show "\<forall>q \<in> set (proc_set k). pid q \<noteq> p" using t(1) by (metis in_set_conv_nth)
  have nth: "proc_set k' ! j = (if j = i then (proc_set k ! i)\<lparr>pid := p, status := PROC_LOADING\<rparr> else proc_set k ! j)"
    if "j < 16" for j using that t(1) i(1) by (simp add: k' nth_list_update)
  have ne: "i \<noteq> proc_curr_idx k" using i(2) d(2) by auto
  have tab: "table_ok k'"
  proof (rule table_okI)
    show "length (proc_set k') = 16" "proc_curr_idx k' < 16" using t(1,2) by (simp_all add: k')
    fix j :: nat
    assume j: "j < 16"
    show "0 \<le> pid (proc_set k' ! j)" "pid (proc_set k' ! j) \<le> proc_nprocs k'"
      using t(3) [OF j] t(4) [OF j] nth [OF j] np p by (simp_all add: k')
    show "status (proc_set k' ! j) = PROC_UNUSED" if "pid (proc_set k' ! j) = 0"
      using that t(5) [OF j] nth [OF j] np p by (simp split: if_splits)
    show "j = proc_curr_idx k'" if "status (proc_set k' ! j) = PROC_RUNNING"
      using that t(6) [OF j] nth [OF j] by (auto simp: k' split: if_splits)
    show "j = l" if "l < 16" "pid (proc_set k' ! j) = pid (proc_set k' ! l)" "pid (proc_set k' ! j) \<noteq> 0" for l
      using that nth [OF j] nth [of l] fresh [OF j] fresh [of l] t(7) [OF j, of l] by (simp split: if_splits)
  qed
  have "spaces_ok live k'"
    by (rule spaces_ok_mono [OF d(4)]) (use nth in \<open>auto simp: k' split: if_splits\<close>)
  moreover have "curr_status k' = PROC_RUNNING" "curr_pid k' = curr_pid k"
    using nth [OF d(7)] ne d(2) by (simp_all add: k')
  moreover have "shell_ready k'"
    unfolding shell_ready_def
  proof (intro ballI impI)
    fix q assume "q \<in> set (proc_set k')" and q4: "pid q = GPID_SHELL"
    then obtain j where j: "j < 16" "q = proc_set k' ! j" using table_okD(1) [OF tab] by (auto simp: in_set_conv_nth)
    then have "q = proc_set k ! j" using q4 nth [OF j(1)] np p by (auto simp: layout_simps split: if_splits)
    then show "active (status q)" using sh j(1) t(1) q4 by (simp add: shell_ready_def)
  qed
  ultimately show "system_ok ok live cur k'"
    using tab d(3,5) np p by (simp add: system_ok_def kernel_ok_def sched_ok_def layout_simps k')
  show "\<exists>i < 16. status (proc_set k ! i) = PROC_UNUSED \<and> pid (proc_set k' ! i) = p \<and>
      status (proc_set k' ! i) = PROC_LOADING \<and> (\<forall>j < 16. j \<noteq> i \<longrightarrow> proc_set k' ! j = proc_set k ! j)"
    using i nth by (intro exI [of _ i]) simp
qed

lemma kernel_step_ok:
  assumes "kernel_step E ok live cur arg k k'" and "system_ok ok live cur k"
  shows "system_ok ok live cur k'"
proof -
  have ko: "kernel_ok ok live cur k" and sh: "shell_ready k" and np: "GPID_SHELL \<le> proc_nprocs k"
    using assms(2) by (auto simp: system_ok_def)
  note d = kernel_okD [OF ko] and t = table_okD [OF kernel_okD(1) [OF ko]]
  from assms(1) show ?thesis
  proof cases
    case (intr cause t)
    then show ?thesis using intr_entry_post [OF ko sh, of cause] nprocs_intr [OF intr] np by (simp add: system_ok_def)
  next
    case (excp cause t)
    then show ?thesis using excp_entry_post [OF ko sh, of cause] nprocs_excp [OF excp] np by (simp add: system_ok_def)
  next
    case (user e)
    then show ?thesis using kernel_ok_earth [OF ko user(2-4)] sh np by (simp add: system_ok_def)
  next
    case (alloc p)
    then show ?thesis using proc_alloc_ok(1) [OF assms(2)] by simp
  next
    case (load e p)
    have "spaces_ok live (k\<lparr>earth_state := e\<rparr>)"
      using d(4) load(3) by (simp add: spaces_ok_def)
    then show ?thesis
      using load d(1,2,5) sh np by (simp add: system_ok_def kernel_ok_def sched_ok_def table_ok_def)
  next
    case (ready i)
    let ?p = "(proc_set k ! i)\<lparr>status := PROC_READY\<rparr>"
    have used: "status (proc_set k ! i) \<noteq> PROC_UNUSED" and ne: "i \<noteq> proc_curr_idx k" using ready(3) d(2) by auto
    have eq: "k' = k\<lparr>proc_set := (proc_set k)[i := ?p]\<rparr>"
      using proc_set_status_at [OF d(1) ready(2) used] ready(1) by (simp add: status_ops)
    have "pid ?p \<noteq> 0" using t(5) [OF ready(2)] used by auto
    then have tab: "table_ok k'" unfolding eq by (intro table_ok_update [OF d(1) ready(2)]) auto
    have nth: "proc_set k' ! j = (if j = i then ?p else proc_set k ! j)" if "j < 16" for j
      using that t(1) ready(2) by (simp add: eq nth_list_update)
    have "spaces_ok live k'"
      unfolding spaces_ok_def layout_simps
    proof (intro allI impI)
      fix j :: nat
      assume j: "j < 16" and "active (status (proc_set k' ! j))"
      then show "live (earth_state k') (pid (proc_set k' ! j))"
        using nth [OF j] ready(4) spaces_okD [OF d(4) j] by (cases "j = i") (simp_all add: eq)
    qed
    moreover have "shell_ready k'"
      using shell_ready_status [OF sh, of PROC_READY] ready(1) by (simp add: status_ops)
    ultimately show ?thesis
      using tab nth [OF d(7)] ne d(2,3,5) np by (simp add: system_ok_def kernel_ok_def sched_ok_def eq)
  next
    case (free q)
    obtain k2 where k2: "proc_free E q k = Inr k2" "table_ok k2" "ok (earth_state k2)" "spaces_ok live k2"
      "shell_ready k2" "proc_curr_idx k2 = proc_curr_idx k" "cur (earth_state k2) = cur (earth_state k)"
      "proc_set k2 = map (\<lambda>p. if pid p = q then p\<lparr>status := PROC_UNUSED\<rparr> else p) (proc_set k)"
      "proc_nprocs k2 = proc_nprocs k"
      by (rule proc_free_user_ok [OF d(1,3,4) sh free(1)]) (rule that, assumption+)
    moreover have "curr k2 = curr k" using k2(6,8) free(2) t(1,2) by simp
    ultimately show ?thesis
      using free(3) d(2,5) np by (simp add: system_ok_def kernel_ok_def sched_ok_def)
  qed
qed

lemma kernel_reachable_ok:
  assumes "(kernel_step E ok live cur arg)\<^sup>*\<^sup>* k k'" and "system_ok ok live cur k"
  shows "system_ok ok live cur k'"
  using assms by (induction rule: rtranclp_induct) (auto intro: kernel_step_ok)

end

end
