(* ===== verification/Kernel_Fair.thy ===== *)
theory Kernel_Fair
  imports Kernel_Traps
begin

text \<open>
  Fairness of the scheduler: the slot chosen is the nearest runnable one in cyclic order, so a process
  that stays runnable runs after at most sixteen yields.
\<close>

definition slot_dist :: "nat \<Rightarrow> nat \<Rightarrow> nat" where
  "slot_dist i j = (if i < j then j - i else 16 + j - i)"

lemma slot_dist_mod: "i < 16 \<Longrightarrow> j < 16 \<Longrightarrow> (i + slot_dist i j) mod 16 = j \<and> 0 < slot_dist i j \<and> slot_dist i j \<le> 16"
  by (auto simp: slot_dist_def)

lemma slot_dist_of_mod: "i < 16 \<Longrightarrow> 0 < d \<Longrightarrow> d \<le> 16 \<Longrightarrow> slot_dist i ((i + d) mod 16) = d"
proof -
  assume "i < 16" "0 < d" "d \<le> 16"
  moreover then have "(i + d) mod 16 = (if i + d < 16 then i + d else i + d - 16)"
    by (simp add: mod_if)
  ultimately show ?thesis by (auto simp: slot_dist_def)
qed

lemma slot_dist_step:
  "i < 16 \<Longrightarrow> n < 16 \<Longrightarrow> j < 16 \<Longrightarrow> n \<noteq> j \<Longrightarrow> slot_dist i n \<le> slot_dist i j \<Longrightarrow>
     slot_dist n j = slot_dist i j - slot_dist i n"
  by (auto simp: slot_dist_def split: if_splits)

lemma next_slot_nearest:
  assumes i: "proc_curr_idx k < 16" and j: "j < 16" "runnable (status (proc_set k ! j))"
  obtains n where "next_slot k = Some n" and "n < 16" and "slot_dist (proc_curr_idx k) n \<le> slot_dist (proc_curr_idx k) j"
proof -
  let ?i = "proc_curr_idx k"
  obtain n where n: "next_slot k = Some n" using next_slot_None_iff [OF i] j by (cases "next_slot k") auto
  have n16: "n < 16" using next_slot_Some [OF n i] by simp
  obtain l where l: "l < 16" "yield_order ?i ! l = n" "\<forall>m < l. \<not> runnable (status (proc_set k ! (yield_order ?i ! m)))"
    using n by (auto simp: next_slot_def find_Some_iff yield_order_def layout_simps)
  have nth: "yield_order ?i ! m = (?i + Suc m) mod 16" if "m < 16" for m
    using that by (simp add: yield_order_def layout_simps)
  have dn: "slot_dist ?i n = Suc l" using slot_dist_of_mod [OF i, of "Suc l"] l(1,2) nth [OF l(1)] by simp
  have dj: "(?i + slot_dist ?i j) mod 16 = j" "0 < slot_dist ?i j" "slot_dist ?i j \<le> 16"
    using slot_dist_mod [OF i j(1)] by auto
  have "\<not> slot_dist ?i j - 1 < l"
  proof
    assume m: "slot_dist ?i j - 1 < l"
    then have "yield_order ?i ! (slot_dist ?i j - 1) = j" using dj nth [of "slot_dist ?i j - 1"] by simp
    then show False using l(3) m j(2) by auto
  qed
  then show thesis using that n n16 dn dj(2) by simp
qed

fun yields :: "'e earth \<Rightarrow> nat \<Rightarrow> 'e kernel \<Rightarrow> 'e kernel res" where
  "yields E 0 k = Inr k"
| "yields E (Suc n) k = bindE (proc_yield E k) (\<lambda>(_, k). yields E n k)"

context address_spaces
begin

lemma yields_fair:
  assumes "table_ok k" and "ok (earth_state k)" and "spaces_ok live k"
    and "j < 16" and "runnable (status (proc_set k ! j))"
  shows "\<exists>n k'. 0 < n \<and> n \<le> slot_dist (proc_curr_idx k) j \<and> yields E n k = Inr k' \<and> proc_curr_idx k' = j \<and>
    curr_pid k' = pid (proc_set k ! j) \<and> curr_status k' = PROC_RUNNING"
  using assms
proof (induction "slot_dist (proc_curr_idx k) j" arbitrary: k rule: less_induct)
  case less
  note t = table_okD [OF less.prems(1)]
  obtain n where n: "next_slot k = Some n" "n < 16" "slot_dist (proc_curr_idx k) n \<le> slot_dist (proc_curr_idx k) j"
    using next_slot_nearest [OF t(2) less.prems(4,5)] by blast
  obtain tr k1 where y: "proc_yield E k = Inr (tr, k1)" "proc_set k1 = yield_table k n" "proc_curr_idx k1 = n"
    by (rule proc_yield_ok [OF less.prems(1-3) n(1)]) (rule that, assumption+)
  have k1: "kernel_ok ok live cur k1" using proc_yield_post [OF less.prems(1-3)] y(1) by simp
  have nth: "pid (proc_set k1 ! j) = pid (proc_set k ! j)" "runnable (status (proc_set k1 ! j))"
    unfolding y(2) yield_table_nth [OF less.prems(1) n(2) less.prems(4)] using less.prems(5) by (auto simp: runnable_def)
  have pos: "0 < slot_dist (proc_curr_idx k) n" "0 < slot_dist (proc_curr_idx k) j"
    using slot_dist_mod [OF t(2)] n(2) less.prems(4) by auto
  show ?case
  proof (cases "n = j")
    case True
    have "curr_status k1 = PROC_RUNNING" "curr_pid k1 = pid (proc_set k ! j)"
      using kernel_okD(2) [OF k1] nth(1) y(3) True by simp_all
    then show ?thesis using True y pos by (intro exI [of _ 1] exI [of _ k1]) simp
  next
    case False
    have d: "slot_dist (proc_curr_idx k1) j = slot_dist (proc_curr_idx k) j - slot_dist (proc_curr_idx k) n"
      using slot_dist_step [OF t(2) n(2) less.prems(4) False n(3)] y(3) by simp
    then have "slot_dist (proc_curr_idx k1) j < slot_dist (proc_curr_idx k) j" using pos by simp
    from less.hyps [OF this kernel_okD(1,3,4) [OF k1] less.prems(4) nth(2)]
    obtain m k2 where "0 < m" "m \<le> slot_dist (proc_curr_idx k1) j" "yields E m k1 = Inr k2" "proc_curr_idx k2 = j"
      "curr_pid k2 = pid (proc_set k ! j)" "curr_status k2 = PROC_RUNNING" using nth(1) by auto
    then show ?thesis using y(1) d pos(1) n(3) by (intro exI [of _ "Suc m"] exI [of _ k2]) simp
  qed
qed

end

end
