(* ===== verification/Mmu_Spaces.thy ===== *)
theory Mmu_Spaces
  imports Mmu_Correct Kernel_Traps Kernel_Fair
begin

text \<open>The software TLB provides the address spaces that the kernel relies on.\<close>

section \<open>Writing inside a page\<close>

lemma unat_minus_of_nat: "k \<le> unat (x :: u64) \<Longrightarrow> unat (x - word_of_nat k) = unat x - k"
proof -
  assume k: "k \<le> unat x"
  have "unat x < 2 ^ 64" using unsigned_less [of x, where ?'a = nat] by simp
  then have "unat (word_of_nat k :: u64) = k" using k by (simp add: unat_of_nat)
  then show ?thesis using k by (simp add: unat_sub word_le_nat_alt)
qed

lemma page_poke_inside:
  assumes "q < 2 ^ 52" and "d < 2 ^ 52" and "k + length b \<le> 4096"
  shows "page (poke m (word_of_nat (d * 4096 + k)) b) q =
    (if q = d then take k (page m d) @ b @ drop (k + length b) (page m d) else page m q)"
proof (cases "q = d")
  case False
  have "poke m (word_of_nat (d * 4096 + k)) b (word_of_nat (q * 4096) + word_of_nat i) = m (word_of_nat (q * 4096) + word_of_nat i)"
    if "i < 4096" for i
  proof (rule poke_outside)
    let ?x = "word_of_nat (q * 4096) + word_of_nat i - word_of_nat (d * 4096) :: u64"
    have x: "4096 \<le> unat ?x" using page_offset [OF assms(1,2) that False] .
    have eq: "word_of_nat (q * 4096) + word_of_nat i - word_of_nat (d * 4096 + k) = ?x - word_of_nat k" by simp
    have "k \<le> unat ?x" using x assms(3) by linarith
    then show "length b \<le> unat (word_of_nat (q * 4096) + word_of_nat i - word_of_nat (d * 4096 + k) :: u64)"
      unfolding eq unat_minus_of_nat [OF \<open>k \<le> unat ?x\<close>] using x assms(3) by linarith
  qed
  then show ?thesis using False unfolding page_def by (simp add: peek_def)
next
  case True
  have "page (poke m (word_of_nat (d * 4096 + k)) b) d ! i = (take k (page m d) @ b @ drop (k + length b) (page m d)) ! i"
    if i: "i < 4096" for i
  proof -
    have eq: "word_of_nat (d * 4096) + word_of_nat i - word_of_nat (d * 4096 + k) = (word_of_nat i - word_of_nat k :: u64)"
      by simp
    have ui: "unat (word_of_nat i :: u64) = i" using i by (simp add: unat_of_nat)
    have "unat (word_of_nat i - word_of_nat k :: u64) < length b \<longleftrightarrow> k \<le> i \<and> i < k + length b"
    proof (cases "k \<le> i")
      case True
      then show ?thesis using unat_minus_of_nat [of k "word_of_nat i"] ui by auto
    next
      case False
      have e: "(word_of_nat i :: u64) - word_of_nat k = word_of_nat (2 ^ 64 - (k - i))"
        using False assms(3) by (simp add: of_nat_diff)
      have "unat (word_of_nat (2 ^ 64 - (k - i)) :: u64) = 2 ^ 64 - (k - i)"
        unfolding unat_of_nat using False by simp
      moreover have "length b \<le> 2 ^ 64 - (k - i)" using assms(3) by simp
      ultimately show ?thesis unfolding e using False by (simp only: not_less) simp
    qed
    moreover have "unat (word_of_nat i - word_of_nat k :: u64) = i - k" if "k \<le> i"
      using unat_minus_of_nat [of k "word_of_nat i"] ui that by simp
    ultimately show ?thesis
      using i assms(3) unfolding page_def by (auto simp: nth_peek poke_def eq nth_append)
  qed
  then show ?thesis using True assms(3) by (intro nth_equalityI) auto
qed

section \<open>The system-call area\<close>

definition SC_PAGE :: nat where "SC_PAGE = SYSCALL_ARG div PAGE_SIZE"

lemma SC_PAGE_value [layout_simps]: "SC_PAGE = 0x400FB"
  by (simp add: SC_PAGE_def layout_simps)

definition tlb_live :: "machine \<Rightarrow> int \<Rightarrow> bool" where
  "tlb_live m p \<longleftrightarrow> p \<noteq> 0 \<and> has_page m p SC_PAGE"

definition tlb_arg :: "machine \<Rightarrow> int \<Rightarrow> byte list" where
  "tlb_arg m p = (if tlb_live m p then take syscall_size (drop 1024 (proc_page m p SC_PAGE)) else [])"

lemma peek_sc: "peek m (word_of_nat SYSCALL_ARG) syscall_size = take syscall_size (drop 1024 (page m SC_PAGE))"
  by (rule nth_equalityI) (simp_all add: page_def nth_peek layout_simps)

lemma page_poke_sc:
  assumes "length b = syscall_size" and "q < 2 ^ 52"
  shows "page (poke m (word_of_nat SYSCALL_ARG) b) q =
    (if q = SC_PAGE then take 1024 (page m SC_PAGE) @ b @ drop (1024 + syscall_size) (page m SC_PAGE) else page m q)"
  using page_poke_inside [OF assms(2), of SC_PAGE 1024 b m] assms(1) by (simp add: layout_simps)

lemma same_table:
  assumes "table m' = table m"
  shows "owns m' = owns m" and "has_page m' = has_page m" and "tlb_live m' = tlb_live m"
    and "frame_of m' = frame_of m"
  using assms by (auto simp: owns_def has_page_def tlb_live_def frame_of_def fun_eq_iff)

lemma tlb_ok_cong:
  "table m' = table m \<Longrightarrow> curr_vm_pid m' = curr_vm_pid m \<Longrightarrow> tlb_ok m' = tlb_ok m"
  by (simp add: tlb_ok_def same_table [of m' m])

lemma tlb_arg_cong:
  "table m' = table m \<Longrightarrow> curr_vm_pid m' = curr_vm_pid m \<Longrightarrow> mem m' = mem m \<Longrightarrow> tlb_arg m' = tlb_arg m"
  by (rule ext) (simp add: tlb_arg_def proc_page_def same_table [of m' m])

lemma soft_set_sc:
  assumes "tlb_ok m" and "tlb_live m (curr_vm_pid m)" and "length b = syscall_size"
  shows "tlb_arg (m\<lparr>mem := poke (mem m) (word_of_nat SYSCALL_ARG) b\<rparr>) = (tlb_arg m)(curr_vm_pid m := b)"
proof
  fix p
  define m' where "m' = m\<lparr>mem := poke (mem m) (word_of_nat SYSCALL_ARG) b\<rparr>"
  have m': "table m' = table m" "curr_vm_pid m' = curr_vm_pid m" by (simp_all add: m'_def)
  have pg: "page (mem m') q = (if q = SC_PAGE then take 1024 (page (mem m) SC_PAGE) @ b @
      drop (1024 + syscall_size) (page (mem m) SC_PAGE) else page (mem m) q)" if "q < 2 ^ 52" for q
    using page_poke_sc [OF assms(3) that] by (simp add: m'_def)
  note st = same_table(3,4) [OF m'(1)]
  show "tlb_arg (m\<lparr>mem := poke (mem m) (word_of_nat SYSCALL_ARG) b\<rparr>) p = ((tlb_arg m)(curr_vm_pid m := b)) p"
    unfolding m'_def [symmetric]
  proof (cases "p = curr_vm_pid m")
    case True
    then show "tlb_arg m' p = ((tlb_arg m)(curr_vm_pid m := b)) p"
      using assms(2,3) pg [of SC_PAGE] by (simp add: tlb_arg_def st m' proc_page_def layout_simps)
  next
    case False
    show "tlb_arg m' p = ((tlb_arg m)(curr_vm_pid m := b)) p"
    proof (cases "tlb_live m p")
      case True
      then obtain i where i: "i < 256" "owns m p i" "pn m i = SC_PAGE" "p \<noteq> 0"
        by (auto simp: tlb_live_def has_page_def)
      have "frame_of m p SC_PAGE = i" using frame_of_eq [OF assms(1) i(4,1,2,3)] .
      then show ?thesis
        using False pg [of "frame_pn i"] i(1)
        by (simp add: tlb_arg_def st m' proc_page_def frame_pn_def layout_simps)
    qed (use False in \<open>simp add: tlb_arg_def st\<close>)
  qed
qed

lemma soft_free:
  assumes "tlb_ok m"
  shows "\<exists>m'. mmu_free p m = Inr m' \<and> tlb_ok m' \<and> tlb_live m' = (tlb_live m)(p := False) \<and>
    curr_vm_pid m' = curr_vm_pid m \<and> tlb_arg m' = (tlb_arg m)(p := [])"
proof -
  let ?m = "m\<lparr>table := map (\<lambda>f. if fuse f \<and> fpid f = p then frame_none else f) (table m)\<rparr>"
  note D = tlb_okD [OF assms]
  have tab: "table ?m ! i = (if owns m p i then frame_none else table m ! i)" if "i < 256" for i
    using that D(1) by (simp add: owns_def)
  have own: "owns ?m r i \<longleftrightarrow> r \<noteq> p \<and> owns m r i" if "i < 256" for r i
    unfolding owns_def [of ?m] using tab [OF that] by (auto simp: frame_none_def owns_def)
  have pn: "pn ?m i = pn m i" if "i < 256" "owns ?m r i" for r i
    using tab [OF that(1)] own [OF that(1)] that(2) by (auto simp: owns_def)
  have fu: "fuse (table ?m ! i) \<longleftrightarrow> (\<exists>r. owns ?m r i)" for i by (simp add: owns_def)
  have ok: "tlb_ok ?m"
    unfolding tlb_ok_def NFRAMES_value fu
  proof (intro conjI allI impI)
    fix i assume i: "i < 256" "\<exists>r. owns ?m r i"
    then obtain r where r: "owns ?m r i" by blast
    then show "pn ?m i < 0x40100" using pn [OF i(1) r] own [OF i(1)] D(3) [OF i(1)] by auto
  next
    fix i j r assume h: "i < 256" "j < 256" "r \<noteq> 0" "owns ?m r i" "owns ?m r j" "pn ?m i = pn ?m j"
    then show "i = j"
      using D(4) [OF h(1-3)] pn [OF h(1,4)] pn [OF h(2,5)] own [OF h(1)] own [OF h(2)] by simp
  qed (use D in simp_all)
  have hp: "has_page ?m r q \<longleftrightarrow> r \<noteq> p \<and> has_page m r q" for r q
    unfolding has_page_def using own pn by (metis (no_types, lifting))
  have live: "tlb_live ?m = (tlb_live m)(p := False)"
    by (auto simp: fun_eq_iff tlb_live_def hp)
  have fr: "frame_of ?m r q = frame_of m r q" if "r \<noteq> p" for r q
    unfolding frame_of_def by (rule arg_cong [where f = hd], rule filter_cong) (use own pn that in auto)
  have "tlb_arg ?m = (tlb_arg m)(p := [])"
    by (auto simp: fun_eq_iff tlb_arg_def live proc_page_def fr)
  then show ?thesis using ok live by (simp add: mmu_free_def)
qed

lemma soft_switch:
  assumes "tlb_ok m" and "tlb_live m p"
  shows "\<exists>m'. soft_tlb_switch p m = Inr m' \<and> tlb_ok m' \<and> tlb_live m' = tlb_live m \<and>
    curr_vm_pid m' = p \<and> tlb_arg m' = tlb_arg m"
proof -
  have "p \<noteq> 0" using assms(2) by (simp add: tlb_live_def)
  then obtain m' where m': "soft_tlb_switch p m = Inr m'" "tlb_ok m'" "curr_vm_pid m' = p" "table m' = table m"
    "\<And>r q. r \<noteq> 0 \<Longrightarrow> has_page m r q \<Longrightarrow> proc_page m' r q = proc_page m r q"
    using soft_tlb_switch_pages [OF assms(1)] by blast
  have "tlb_arg m' r = tlb_arg m r" for r
    using m'(5) [of r SC_PAGE] by (auto simp: tlb_arg_def same_table [OF m'(4)] tlb_live_def)
  then show ?thesis using m' same_table(3) [OF m'(4)] by (auto simp: fun_eq_iff)
qed

lemma soft_same:
  assumes "tlb_ok m" and "table m' = table m" and "curr_vm_pid m' = curr_vm_pid m" and "mem m' = mem m"
  shows "tlb_ok m' \<and> tlb_live m' = tlb_live m \<and> curr_vm_pid m' = curr_vm_pid m \<and> tlb_arg m' = tlb_arg m"
  using assms tlb_ok_cong [OF assms(2,3)] same_table(3) [OF assms(2)] tlb_arg_cong [OF assms(2-4)] by simp

interpretation st: address_spaces soft_tlb_earth tlb_ok tlb_live curr_vm_pid tlb_arg
proof
  fix e b assume h: "tlb_ok e" "tlb_live e (curr_vm_pid e)" "length (b :: byte list) = syscall_size"
  let ?e = "e\<lparr>mem := poke (mem e) (word_of_nat SYSCALL_ARG) b\<rparr>"
  show "tlb_ok (set_sc_op soft_tlb_earth b e) \<and> tlb_live (set_sc_op soft_tlb_earth b e) = tlb_live e \<and>
      curr_vm_pid (set_sc_op soft_tlb_earth b e) = curr_vm_pid e \<and>
      tlb_arg (set_sc_op soft_tlb_earth b e) = (tlb_arg e)(curr_vm_pid e := b)"
    using h soft_set_sc [OF h] tlb_ok_cong [of ?e e] same_table(3) [of ?e e] by (simp add: soft_tlb_earth_def)
next
  fix e p assume h: "tlb_ok e" "tlb_live e p"
  show "length (tlb_arg e p) = syscall_size"
    using h by (simp add: tlb_arg_def proc_page_def layout_simps)
next
  fix e assume h: "tlb_ok e"
  show "\<exists>e'. timer_reset_op soft_tlb_earth e = Inr e' \<and> tlb_ok e' \<and> tlb_live e' = tlb_live e \<and>
      curr_vm_pid e' = curr_vm_pid e \<and> tlb_arg e' = tlb_arg e"
  proof -
    define e' where "e' = mtimecmp_set (mtime e + QUANTUM e) e"
    have "tlb_ok e' \<and> tlb_live e' = tlb_live e \<and> curr_vm_pid e' = curr_vm_pid e \<and> tlb_arg e' = tlb_arg e"
      by (rule soft_same [OF h]) (simp_all add: e'_def mtimecmp_set_def)
    then show ?thesis by (simp add: soft_tlb_earth_def timer_reset_def e'_def)
  qed
  show "\<exists>b e'. tty_recv_intr_op soft_tlb_earth e = Inr (b, e') \<and> tlb_ok e' \<and> tlb_live e' = tlb_live e \<and>
      curr_vm_pid e' = curr_vm_pid e \<and> tlb_arg e' = tlb_arg e"
  proof (cases "is_reading e \<or> uart_rx e = []")
    case False
    then obtain c r where r: "uart_rx e = c # r" "\<not> is_reading e" by (cases "uart_rx e") auto
    have "tlb_ok (e\<lparr>uart_rx := r\<rparr>) \<and> tlb_live (e\<lparr>uart_rx := r\<rparr>) = tlb_live e \<and>
        curr_vm_pid (e\<lparr>uart_rx := r\<rparr>) = curr_vm_pid e \<and> tlb_arg (e\<lparr>uart_rx := r\<rparr>) = tlb_arg e"
      by (rule soft_same [OF h]) simp_all
    then show ?thesis using r by (simp add: soft_tlb_earth_def tty_recv_intr_def)
  qed (use h in \<open>auto simp: soft_tlb_earth_def tty_recv_intr_def\<close>)
qed (auto simp: soft_tlb_earth_def tlb_arg_def proc_page_def peek_sc dest: soft_switch soft_free)

end
