(* ===== verification/Kernel_System.thy ===== *)
theory Kernel_System
  imports Mmu_Spaces
begin

text \<open>
  The kernel on the software TLB: the contract lemmas of \<open>Kernel_Correct\<close>, \<open>Kernel_Traps\<close> and
  \<open>Kernel_Fair\<close>, instantiated through the interpretation \<open>st\<close> on the definitions of \<open>Mmu\<close>, as
  properties of the running system, and the concrete system their witnesses use.
\<close>

abbreviation soft_kernel_ok :: "machine kernel \<Rightarrow> bool" where
  "soft_kernel_ok \<equiv> kernel_ok tlb_ok tlb_live curr_vm_pid"

abbreviation soft_system_ok :: "machine kernel \<Rightarrow> bool" where
  "soft_system_ok \<equiv> system_ok tlb_ok tlb_live curr_vm_pid"

abbreviation soft_step :: "machine kernel \<Rightarrow> machine kernel \<Rightarrow> bool" where
  "soft_step \<equiv> kernel_step soft_tlb_earth tlb_ok tlb_live curr_vm_pid tlb_arg"

abbreviation sc_area :: "machine kernel \<Rightarrow> int \<Rightarrow> byte list" where
  "sc_area k \<equiv> tlb_arg (earth_state k)"

section \<open>A concrete system\<close>

text \<open>One frame per process, mapped at the page of the system-call area.\<close>

definition sample_table :: "int list \<Rightarrow> frame_mapping list" where
  "sample_table ps = map (\<lambda>p. \<lparr>fuse = True, fpid = p, fpage_no = word_of_nat SC_PAGE\<rparr>) ps
     @ replicate (256 - length ps) frame_none"

definition sample_machine :: "int \<Rightarrow> int list \<Rightarrow> mem \<Rightarrow> machine" where
  "sample_machine c ps m =
     \<lparr>mem = m, table = sample_table ps, curr_vm_pid = c, uart_rx = [], is_reading = False,
      mtime = 0, mtimecmp = 0, QUANTUM = 0\<rparr>"

lemma sample_owns:
  assumes "length ps \<le> 256" and "i < 256"
  shows "owns (sample_machine c ps m) p i \<longleftrightarrow> i < length ps \<and> ps ! i = p"
  using assms by (auto simp: owns_def sample_machine_def sample_table_def nth_append frame_none_def)

lemma sample_pn: "i < length ps \<Longrightarrow> pn (sample_machine c ps m) i = SC_PAGE"
  by (simp add: sample_machine_def sample_table_def nth_append layout_simps)

lemma sample_machine_ok:
  assumes "length ps \<le> 256" and "distinct ps" and "c \<noteq> 0"
  shows "tlb_ok (sample_machine c ps m)"
proof -
  let ?m = "sample_machine c ps m"
  have fu: "fuse (table ?m ! i) \<longleftrightarrow> (\<exists>p. owns ?m p i)" for i by (simp add: owns_def)
  have "length (table ?m) = 256" "curr_vm_pid ?m \<noteq> 0"
    using assms by (simp_all add: sample_machine_def sample_table_def)
  then show ?thesis
    unfolding tlb_ok_def NFRAMES_value fu using assms(1,2)
    by (auto simp: sample_owns sample_pn layout_simps nth_eq_iff_index_eq)
qed

lemma sample_live:
  assumes "length ps \<le> 256"
  shows "tlb_live (sample_machine c ps m) p \<longleftrightarrow> p \<noteq> 0 \<and> p \<in> set ps"
proof -
  have "has_page (sample_machine c ps m) p SC_PAGE \<longleftrightarrow> (\<exists>i < length ps. ps ! i = p)"
    unfolding has_page_def using assms sample_pn [of _ ps c m]
    by (metis sample_owns [OF assms] order_less_le_trans)
  then show ?thesis by (auto simp: tlb_live_def in_set_conv_nth)
qed

definition sample_kernel :: "process list \<Rightarrow> nat \<Rightarrow> mem \<Rightarrow> machine kernel" where
  "sample_kernel procs i m =
     \<lparr>proc_set = procs @ replicate (16 - length procs) proc_init, proc_curr_idx = i, proc_nprocs = 16,
      kernel_entry = Proc_yield, cpu_sp = 0, cpu_mepc = 0, cpu_mstatus = 0,
      earth_state = sample_machine (pid (procs ! i)) (map pid (filter (\<lambda>p. active (status p)) procs)) m\<rparr>"

definition sample_proc :: "int \<Rightarrow> proc_status \<Rightarrow> int \<Rightarrow> process" where
  "sample_proc p st r = \<lparr>pid = p, status = st, receiver_pid = r, sp = 0, mepc = 0\<rparr>"

definition sample_procs_ok :: "process list \<Rightarrow> nat \<Rightarrow> bool" where
  "sample_procs_ok procs i \<longleftrightarrow> length procs \<le> 16 \<and> i < length procs \<and> distinct (map pid procs) \<and>
     (\<forall>p \<in> set procs. 1 \<le> pid p \<and> pid p \<le> 16) \<and>
     list_all (\<lambda>j. (status (procs ! j) = PROC_RUNNING) = (j = i)) [0..<length procs] \<and>
     (\<forall>p \<in> set procs. pid p = GPID_SHELL \<longrightarrow> active (status p))"

lemma sample_kernel_ok:
  assumes "sample_procs_ok procs i"
  shows "soft_system_ok (sample_kernel procs i m)"
proof -
  let ?k = "sample_kernel procs i m"
  have h: "length procs \<le> 16" "i < length procs" "distinct (map pid procs)"
      "\<And>p. p \<in> set procs \<Longrightarrow> 1 \<le> pid p \<and> pid p \<le> 16"
      "\<And>j. j < length procs \<Longrightarrow> status (procs ! j) = PROC_RUNNING \<longleftrightarrow> j = i"
      "\<And>p. p \<in> set procs \<Longrightarrow> pid p = GPID_SHELL \<Longrightarrow> active (status p)"
    using assms by (auto simp: sample_procs_ok_def list_all_iff)
  have slot: "proc_set ?k ! j = (if j < length procs then procs ! j else proc_init)" if "j < 16" for j
    using that h(1) by (simp add: sample_kernel_def nth_append)
  have idx: "proc_curr_idx ?k = i" "proc_nprocs ?k = 16" by (simp_all add: sample_kernel_def)
  have cur: "curr ?k = procs ! i" using slot [of i] h(1,2) idx by simp
  have pid: "1 \<le> pid (procs ! j)" "pid (procs ! j) \<le> 16" if "j < length procs" for j
    using h(4) nth_mem [OF that] by auto
  have "table_ok ?k"
  proof (rule table_okI)
    fix j l assume "j < 16" "l < 16" "pid (proc_set ?k ! j) = pid (proc_set ?k ! l)" "pid (proc_set ?k ! j) \<noteq> 0"
    then show "j = l"
      using slot [of j] slot [of l] nth_eq_iff_index_eq [OF h(3), of j l]
      by (auto simp: proc_init_def split: if_splits)
  next
    fix j assume j: "j < (16 :: nat)"
    show "0 \<le> pid (proc_set ?k ! j)" "pid (proc_set ?k ! j) \<le> proc_nprocs ?k"
      using slot [OF j] pid [of j] idx by (auto simp: proc_init_def)
    show "status (proc_set ?k ! j) = PROC_UNUSED" if "pid (proc_set ?k ! j) = 0"
      using slot [OF j] pid [of j] that by (auto simp: proc_init_def split: if_splits)
    show "j = proc_curr_idx ?k" if "status (proc_set ?k ! j) = PROC_RUNNING"
      using slot [OF j] h(5) [of j] that idx by (auto simp: proc_init_def split: if_splits)
  qed (use h(1,2) in \<open>auto simp: sample_kernel_def\<close>)
  moreover have "curr_status ?k = PROC_RUNNING" using cur h(2) h(5) by simp
  moreover have e: "earth_state ?k = sample_machine (pid (procs ! i)) (map pid (filter (\<lambda>p. active (status p)) procs)) m"
    by (simp add: sample_kernel_def)
  have len: "length (map pid (filter (\<lambda>p. active (status p)) procs)) \<le> 256"
    using h(1) length_filter_le [of "\<lambda>p. active (status p)" procs] by (simp only: length_map)
  have "distinct (map pid (filter (\<lambda>p. active (status p)) procs))"
    using h(3) by (simp add: distinct_map_filter)
  then have "tlb_ok (earth_state ?k)" unfolding e using sample_machine_ok [OF len] pid [OF h(2)] by simp
  moreover have "spaces_ok tlb_live ?k"
    unfolding spaces_ok_def layout_simps
  proof (intro allI impI)
    fix j assume j: "j < (16 :: nat)" "active (status (proc_set ?k ! j))"
    then have l: "j < length procs" using slot [OF j(1)] by (auto simp: proc_init_def split: if_splits)
    then show "tlb_live (earth_state ?k) (pid (proc_set ?k ! j))"
      using j slot [OF j(1)] pid [OF l] unfolding e sample_live [OF len] by auto
  qed
  moreover have "curr_vm_pid (earth_state ?k) = curr_pid ?k" using cur by (simp add: e sample_machine_def)
  moreover have "shell_ready ?k"
    using h(6) by (auto simp: shell_ready_def sample_kernel_def proc_init_def layout_simps)
  ultimately show ?thesis by (simp add: system_ok_def kernel_ok_def sched_ok_def idx layout_simps)
qed

lemma sample_area:
  assumes "length ps \<le> 256" and "c \<noteq> 0" and "c \<in> set ps"
  shows "tlb_arg (sample_machine c ps m) c = peek m (word_of_nat SYSCALL_ARG) syscall_size"
proof -
  have "curr_vm_pid (sample_machine c ps m) = c" "mem (sample_machine c ps m) = m"
    by (simp_all add: sample_machine_def)
  then show ?thesis using assms by (simp add: tlb_arg_def proc_page_def sample_live peek_sc)
qed

text \<open>Memory that is zero except for the type and the receiver of the current system call.\<close>

definition sample_mem :: "byte \<Rightarrow> byte \<Rightarrow> mem" where
  "sample_mem ty r = (\<lambda>a. if a = word_of_nat SYSCALL_ARG then ty
     else if a = word_of_nat (SYSCALL_ARG + 8) then r else 0)"

lemma sample_call:
  "call_type (peek (sample_mem ty r) (word_of_nat SYSCALL_ARG) syscall_size) = sint (u32_of_bytes ty 0 0 0)"
  "msg_receiver (peek (sample_mem ty r) (word_of_nat SYSCALL_ARG) syscall_size) = sint (u32_of_bytes r 0 0 0)"
  by (simp_all add: call_type_def msg_receiver_def get32_def nth_peek layout_simps sample_mem_def)

lemma small_cells: "sint (u32_of_bytes 1 0 0 0) = 1" "sint (u32_of_bytes 2 0 0 0) = 2"
  by code_simp+

definition sender_to_server :: "machine kernel" where
  "sender_to_server = sample_kernel [sample_proc 1 PROC_WAIT_TO_RECV 0, sample_proc 5 PROC_RUNNING 0] 1 (sample_mem 2 1)"

definition server_and_sender :: "machine kernel" where
  "server_and_sender = sample_kernel [sample_proc 1 PROC_RUNNING 0, sample_proc 5 PROC_WAIT_TO_SEND 1] 0 (sample_mem 1 0)"

lemma sample_systems_ok: "soft_system_ok sender_to_server" "soft_system_ok server_and_sender"
  unfolding sender_to_server_def server_and_sender_def
  by (rule sample_kernel_ok, simp add: sample_procs_ok_def sample_proc_def layout_simps)+

lemma sender_to_server_slots:
  "proc_set sender_to_server ! 0 = sample_proc 1 PROC_WAIT_TO_RECV 0" "curr_pid sender_to_server = 5"
  "call_type (tlb_arg (earth_state sender_to_server) 5) = 2" "msg_receiver (tlb_arg (earth_state sender_to_server) 5) = 1"
  by (simp_all add: sender_to_server_def sample_kernel_def sample_proc_def sample_area sample_call small_cells)

lemma server_and_sender_slots:
  "proc_set server_and_sender ! Suc 0 = sample_proc 5 PROC_WAIT_TO_SEND 1" "curr_pid server_and_sender = 1"
  "call_type (tlb_arg (earth_state server_and_sender) 1) = 1"
  "1 < j \<Longrightarrow> j < 16 \<Longrightarrow> proc_set server_and_sender ! j = proc_init"
  by (simp_all add: server_and_sender_def sample_kernel_def sample_proc_def sample_area sample_call small_cells nth_Cons')

section \<open>Messages\<close>

lemma sc_area_length: "soft_kernel_ok k \<Longrightarrow> i < 16 \<Longrightarrow> active (status (proc_set k ! i)) \<Longrightarrow>
    length (sc_area k (pid (proc_set k ! i))) = 1040"
  using st.arg_length st.kernel_okD(3,4) spaces_okD by (metis syscall_size_value(1))

lemma slot_pid_nonneg: "table_ok k \<Longrightarrow> p \<in> set (proc_set k) \<Longrightarrow> 0 \<le> pid p"
  using table_okD(1,3) by (metis in_set_conv_nth)

lemma other_pid:
  assumes "table_ok k" and "i < 16" and "j < 16" and "status (proc_set k ! i) \<noteq> status (proc_set k ! j)"
    and "status (proc_set k ! j) \<noteq> PROC_UNUSED"
  shows "pid (proc_set k ! i) \<noteq> pid (proc_set k ! j)"
proof
  assume e: "pid (proc_set k ! i) = pid (proc_set k ! j)"
  then have "pid (proc_set k ! i) \<noteq> 0" using table_okD(5) [OF assms(1,3)] assms(5) by auto
  then have "i = j" using table_okD(7) [OF assms(1-3) e] by simp
  then show False using assms(4) by simp
qed

lemma waiting_sender_last:
  assumes "i < length ps" and "waits_to_send me (ps ! i)"
    and "\<And>j. i < j \<Longrightarrow> j < length ps \<Longrightarrow> \<not> waits_to_send me (ps ! j)" and "\<And>p. p \<in> set ps \<Longrightarrow> 0 \<le> pid p"
  shows "waiting_sender me ps = pid (ps ! i)"
proof -
  have n: "pid p \<noteq> -1" if "p \<in> set ps" for p using assms(4) [OF that] by simp
  have "waiting_sender me ps \<noteq> -1" using waiting_sender_spec [of ps me] n assms(1,2) nth_mem by (auto split: if_splits)
  then obtain l where l: "l < length ps" "waits_to_send me (ps ! l)" "pid (ps ! l) = waiting_sender me ps"
    "\<And>j. l < j \<Longrightarrow> j < length ps \<Longrightarrow> \<not> waits_to_send me (ps ! j)"
    using waiting_sender_spec [of ps me] n by auto
  then have "l = i" using assms(1-3) by (metis nat_neq_iff)
  then show ?thesis using l(3) by simp
qed

lemma soft_syscall_send:
  assumes k: "soft_kernel_ok k" and j: "j < 16" "status (proc_set k ! j) = PROC_WAIT_TO_RECV"
    and b: "call_type (sc_area k (curr_pid k)) = 2" "msg_receiver (sc_area k (curr_pid k)) = pid (proc_set k ! j)"
  shows "\<exists>t k'. proc_syscall soft_tlb_earth k = Inr (t, k') \<and> soft_kernel_ok k' \<and>
    sc_area k' = (sc_area k)
      (curr_pid k := sc_from (curr_pid k) (sc_cleared (sc_area k (curr_pid k))),
       pid (proc_set k ! j) := set_sc_msg (sc_area k (pid (proc_set k ! j)))
         (sc_msg (sc_from (curr_pid k) (sc_cleared (sc_area k (curr_pid k))))))"
proof -
  note D = st.kernel_okD [OF k]
  have len: "length (sc_area k (curr_pid k)) = 1040" using sc_area_length [OF k D(7)] D(2) by simp
  obtain e1 where e1: "soft_kernel_ok (k\<lparr>earth_state := e1\<rparr>)"
    "tlb_arg e1 = (sc_area k)(curr_pid k := sc_cleared (sc_area k (curr_pid k)))"
    "proc_syscall soft_tlb_earth k = proc_send soft_tlb_earth (k\<lparr>earth_state := e1\<rparr>)"
    by (rule st.proc_syscall_start [OF k]) (simp add: b(1))
  have ne: "pid (proc_set k ! j) \<noteq> curr_pid k"
    using other_pid [OF D(1) j(1) D(7)] D(2) j(2) by simp
  have "sint (get32 (tlb_arg e1 (curr_pid k)) 2) = pid (proc_set k ! j)"
    using prepared_area(4) [OF len] b(2) by (simp add: e1(2) msg_receiver_def)
  then show ?thesis
    using st.proc_send_delivers [OF e1(1), of j] j ne by (simp add: e1(2,3))
qed

lemma soft_syscall_recv:
  assumes k: "soft_kernel_ok k" and b: "call_type (sc_area k (curr_pid k)) = 1"
    and s: "waiting_sender (curr_pid k) (proc_set k) = s" "s \<noteq> -1"
  shows "\<exists>t k'. proc_syscall soft_tlb_earth k = Inr (t, k') \<and> soft_kernel_ok k' \<and>
    sc_area k' = (sc_area k)(curr_pid k := set_sc_msg (sc_cleared (sc_area k (curr_pid k))) (sc_msg (sc_area k s)))"
proof -
  note D = st.kernel_okD [OF k]
  obtain e1 where e1: "soft_kernel_ok (k\<lparr>earth_state := e1\<rparr>)"
    "tlb_arg e1 = (sc_area k)(curr_pid k := sc_cleared (sc_area k (curr_pid k)))"
    "proc_syscall soft_tlb_earth k = proc_recv soft_tlb_earth (k\<lparr>earth_state := e1\<rparr>)"
    by (rule st.proc_syscall_start [OF k]) (simp add: b(1))
  have pid: "pid p \<noteq> -1" if "p \<in> set (proc_set k)" for p
    using slot_pid_nonneg [OF D(1) that] by simp
  obtain i where i: "i < 16" "status (proc_set k ! i) = PROC_WAIT_TO_SEND" "pid (proc_set k ! i) = s"
    using waiting_sender_spec [of "proc_set k" "curr_pid k"] pid s table_okD(1) [OF D(1)] by auto
  have "s \<noteq> curr_pid k"
    using other_pid [OF D(1) i(1) D(7)] D(2) i(2,3) by simp
  then show ?thesis using st.proc_recv_delivers [OF e1(1)] s by (simp add: e1(2,3))
qed



text \<open>
  C5: A receive system call while some process waits to send to the caller delivers the message of
  the highest-numbered such slot: the call does not fail, the kernel invariant holds after it, the
  caller's area holds that sender's message, the call is marked done with return value 0, and no other
  process's area changes.
\<close>

theorem syscall_recv_delivers:
  assumes "soft_kernel_ok k" and "call_type (sc_area k (curr_pid k)) = 1"
    and "i < 16" and "waits_to_send (curr_pid k) (proc_set k ! i)"
    and "\<And>j. i < j \<Longrightarrow> j < 16 \<Longrightarrow> \<not> waits_to_send (curr_pid k) (proc_set k ! j)"
  shows "\<exists>t k'. proc_syscall soft_tlb_earth k = Inr (t, k') \<and> soft_kernel_ok k' \<and>
    msg_content (sc_area k' (curr_pid k)) = msg_content (sc_area k (pid (proc_set k ! i))) \<and>
    msg_sender (sc_area k' (curr_pid k)) = msg_sender (sc_area k (pid (proc_set k ! i))) \<and>
    call_type (sc_area k' (curr_pid k)) = 0 \<and> call_retval (sc_area k' (curr_pid k)) = 0 \<and>
    (\<forall>q. q \<noteq> curr_pid k \<longrightarrow> sc_area k' q = sc_area k q)"
proof -
  note D = st.kernel_okD [OF assms(1)]
  have s: "waiting_sender (curr_pid k) (proc_set k) = pid (proc_set k ! i)"
    using waiting_sender_last [of i "proc_set k" "curr_pid k"] assms(3-5) table_okD(1) [OF D(1)] slot_pid_nonneg [OF D(1)] by simp
  have "0 \<le> pid (proc_set k ! i)" using table_okD(3) [OF D(1) assms(3)] .
  then have n: "pid (proc_set k ! i) \<noteq> -1" by simp
  have a: "length (sc_area k (curr_pid k)) = 1040" using sc_area_length [OF assms(1) D(7)] D(2) by simp
  have b: "length (sc_area k (pid (proc_set k ! i))) = 1040" using sc_area_length [OF assms(1,3)] assms(4) by simp
  show ?thesis
    using soft_syscall_recv [OF assms(1,2) s n] delivered_message [OF b prepared_area(1) [OF a]] prepared_area [OF a]
    by auto
qed

theorem syscall_recv_delivers_witness:
  "\<exists>t k'. proc_syscall soft_tlb_earth server_and_sender = Inr (t, k') \<and>
    msg_content (sc_area k' 1) = msg_content (sc_area server_and_sender 5)"
  using syscall_recv_delivers [of server_and_sender 1] sample_systems_ok(2)
  by (auto simp: server_and_sender_slots sample_proc_def system_ok_def proc_init_def)

section \<open>The invariant of the running system\<close>



text \<open>
  C37: A trap in a well-formed state either keeps the state well formed or stops the machine, and it
  stops only because no process can run, the system-call type is neither send nor receive, or the
  interrupt is neither a timer nor a software interrupt.
\<close>

theorem trap_outcomes:
  assumes "soft_system_ok k"
  shows "(case intr_entry soft_tlb_earth cause k of Inl f \<Rightarrow> f \<in> {no_runnable, bad_syscall, bad_interrupt}
      | Inr (t, k') \<Rightarrow> soft_system_ok k') \<and>
    (case excp_entry soft_tlb_earth cause k of Inl f \<Rightarrow> f \<in> {no_runnable, bad_syscall}
      | Inr (t, k') \<Rightarrow> soft_system_ok k')"
proof
  have k: "soft_kernel_ok k" "shell_ready k" "GPID_SHELL \<le> proc_nprocs k" using assms by (simp_all add: system_ok_def)
  show "case intr_entry soft_tlb_earth cause k of Inl f \<Rightarrow> f \<in> {no_runnable, bad_syscall, bad_interrupt}
      | Inr (t, k') \<Rightarrow> soft_system_ok k'"
    using st.intr_entry_post [OF k(1,2), of cause] nprocs_intr [of soft_tlb_earth cause k] k(3)
    by (auto simp: system_ok_def split: sum.splits prod.splits)
  show "case excp_entry soft_tlb_earth cause k of Inl f \<Rightarrow> f \<in> {no_runnable, bad_syscall}
      | Inr (t, k') \<Rightarrow> soft_system_ok k'"
    using st.excp_entry_post [OF k(1,2), of cause] nprocs_excp [of soft_tlb_earth cause k] k(3)
    by (auto simp: system_ok_def split: sum.splits prod.splits)
qed

theorem trap_outcomes_witness:
  "case excp_entry soft_tlb_earth EXCP_ID_ECALL_M sender_to_server of Inl f \<Rightarrow> f \<in> {no_runnable, bad_syscall}
      | Inr (t, k') \<Rightarrow> soft_system_ok k'"
  using trap_outcomes [OF sample_systems_ok(1)] by blast

text \<open>
  C6: Round-robin scheduling does not starve: a slot that can run is running after at most as many
  yields as its cyclic distance from the current slot, so after at most sixteen.
\<close>

theorem proc_yield_fair:
  assumes "soft_kernel_ok k" and "j < 16" and "runnable (status (proc_set k ! j))"
  shows "\<exists>n k'. 0 < n \<and> n \<le> slot_dist (proc_curr_idx k) j \<and> n \<le> 16 \<and> yields soft_tlb_earth n k = Inr k' \<and>
    proc_curr_idx k' = j \<and> curr_pid k' = pid (proc_set k ! j) \<and> curr_status k' = PROC_RUNNING"
proof -
  note D = st.kernel_okD [OF assms(1)]
  obtain n k' where n: "0 < n" "n \<le> slot_dist (proc_curr_idx k) j" "yields soft_tlb_earth n k = Inr k'"
    "proc_curr_idx k' = j" "curr_pid k' = pid (proc_set k ! j)" "curr_status k' = PROC_RUNNING"
    using st.yields_fair [OF D(1,3,4) assms(2,3)] by blast
  have "n \<le> 16" using n(2) slot_dist_mod [OF D(7) assms(2)] by linarith
  then show ?thesis using n by (intro exI [of _ n] exI [of _ k']) simp
qed

definition two_runnable :: "machine kernel" where
  "two_runnable = sample_kernel [sample_proc 1 PROC_RUNNING 0, sample_proc 5 PROC_RUNNABLE 0] 0 (sample_mem 0 0)"

theorem proc_yield_fair_witness:
  "\<exists>n k'. 0 < n \<and> n \<le> 1 \<and> yields soft_tlb_earth n two_runnable = Inr k' \<and> curr_pid k' = 5"
proof -
  have "soft_system_ok two_runnable"
    unfolding two_runnable_def by (rule sample_kernel_ok) (simp add: sample_procs_ok_def sample_proc_def layout_simps)
  moreover have "proc_set two_runnable ! 1 = sample_proc 5 PROC_RUNNABLE 0" "proc_curr_idx two_runnable = 0"
    by (simp_all add: two_runnable_def sample_kernel_def)
  ultimately show ?thesis
    using proc_yield_fair [of two_runnable 1] by (auto simp: system_ok_def sample_proc_def runnable_def slot_dist_def)
qed

section \<open>Context switches and traps\<close>

text \<open>
  C7: Switching the address space saves and restores memory: every page that any process has a frame
  for holds the same bytes in that process's address space before and after the switch, and the frame
  table does not change.
\<close>

theorem soft_tlb_switch_keeps_pages:
  assumes "tlb_ok m" and "p \<noteq> 0"
  shows "\<exists>m'. soft_tlb_switch p m = Inr m' \<and> tlb_ok m' \<and> curr_vm_pid m' = p \<and> table m' = table m \<and>
    (\<forall>r q. r \<noteq> 0 \<longrightarrow> has_page m r q \<longrightarrow> proc_page m' r q = proc_page m r q)"
  using assms by (rule soft_tlb_switch_pages)

theorem soft_tlb_switch_keeps_pages_witness:
  "\<exists>m'. soft_tlb_switch 5 (sample_machine 1 [1, 5] (sample_mem 2 1)) = Inr m' \<and>
    proc_page m' 1 SC_PAGE = page (sample_mem 2 1) SC_PAGE"
proof -
  let ?m = "sample_machine 1 [1, 5] (sample_mem 2 1)"
  have "tlb_live ?m 1" by (simp add: sample_live)
  then have "has_page ?m 1 SC_PAGE" by (simp add: tlb_live_def)
  moreover have "proc_page ?m 1 SC_PAGE = page (sample_mem 2 1) SC_PAGE"
    by (simp add: proc_page_def sample_machine_def)
  ultimately show ?thesis
    using soft_tlb_switch_keeps_pages [OF sample_machine_ok [of "[1, 5]" 1 "sample_mem 2 1"], of 5] by fastforce
qed


lemma mstatus_bits:
  "bit (2048 :: int) n \<longleftrightarrow> n = 11" "bit (131072 :: int) n \<longleftrightarrow> n = 17" "bit (6144 :: int) n \<longleftrightarrow> n = 11 \<or> n = 12"
proof -
  have "(2048 :: int) = 2 ^ 11" "(131072 :: int) = 2 ^ 17" "(6144 :: int) = 2 ^ 11 OR 2 ^ 12" by simp_all
  then show "bit (2048 :: int) n \<longleftrightarrow> n = 11" "bit (131072 :: int) n \<longleftrightarrow> n = 17"
      "bit (6144 :: int) n \<longleftrightarrow> n = 11 \<or> n = 12"
    by (auto simp only: bit_or_iff bit_exp_iff) simp_all
qed

text \<open>
  C40: Entering a process never lowers the privilege field MPP of mstatus: its bits after the entry are
  the old ones with the bits for the process added, so a user application entered from a trap taken in
  machine mode (MPP = 3) runs in machine mode.
\<close>

theorem enter_mstatus_mpp:
  "enter_mstatus p w AND push_bit 11 3 = (w AND push_bit 11 3) OR (if p < GPID_USER_START then push_bit 11 1 else 0)"
  by (rule bit_eqI) (auto simp: enter_mstatus_def Let_def bit_simps mstatus_bits)

lemma low_mask: "(0xFFFFFFFF :: u64) = mask 32" "(0xFFFFFFF :: u64) = mask 28"
  by (simp_all add: mask_eq_exp_minus_1)

lemma drop_bit_less:
  fixes a b :: u64
  assumes "drop_bit n a < drop_bit n b"
  shows "a < b"
proof (rule ccontr)
  assume "\<not> a < b"
  then have "unat b div 2 ^ n \<le> unat a div 2 ^ n" by (intro div_le_mono) (simp add: word_le_nat_alt not_less)
  moreover have "drop_bit n (unat a) < drop_bit n (unat b)"
    using assms unfolding word_less_nat_alt unat_drop_bit_eq .
  ultimately show False by (simp add: drop_bit_eq_div)
qed

lemma mtimecmp_halves:
  "drop_bit 32 (push_bit 32 (mask 28) OR (x AND mask 32) :: u64) = mask 28"
  "push_bit 32 (drop_bit 32 t) OR (t AND mask 32) = (t :: u64)"
  by (rule bit_eqI, auto simp: bit_simps)+

lemma mtimecmp_stores_eq:
  "mtimecmp_stores old t =
     [push_bit 32 (mask 28) OR (old AND mask 32), push_bit 32 (mask 28) OR (t AND mask 32),
      push_bit 32 (drop_bit 32 t) OR (t AND mask 32)]"
proof -
  have "(push_bit 32 (mask 28) OR (old AND mask 32)) AND NOT (mask 32) OR (t AND mask 32)
      = push_bit 32 (mask 28) OR (t AND mask 32 :: u64)"
    "(push_bit 32 (mask 28) OR (t AND mask 32)) AND mask 32 = (t AND mask 32 :: u64)"
    by (rule bit_eqI, auto simp: bit_simps)+
  then show ?thesis unfolding mtimecmp_stores_def Let_def low_mask by simp
qed

text \<open>
  C38: Setting the timer comparison register in three 32-bit stores ends with the requested time, and
  neither intermediate value is below the requested time, if the upper half of that time is below the
  7-digit constant 0xFFFFFFF that the first store writes; so no early timer interrupt occurs.
\<close>

theorem mtimecmp_set_no_glitch:
  assumes "drop_bit 32 time < 0xFFFFFFF"
  shows "mtimecmp (mtimecmp_set time m) = time \<and>
    (\<forall>w \<in> set (mtimecmp_stores (mtimecmp m) time). time \<le> w)"
proof -
  have "time < push_bit 32 (mask 28) OR (x AND mask 32)" for x :: u64
    by (rule drop_bit_less [of 32]) (use assms in \<open>simp only: mtimecmp_halves low_mask\<close>)
  then show ?thesis
    unfolding mtimecmp_set_def mtimecmp_stores_eq mtimecmp_halves(2) by (simp add: less_imp_le)
qed

theorem mtimecmp_set_no_glitch_witness:
  "mtimecmp (mtimecmp_set (7 + 24 * 1000 * 250) (sample_machine 1 [] (\<lambda>_. 0))) = 7 + 24 * 1000 * 250"
  using mtimecmp_set_no_glitch [of "7 + 24 * 1000 * 250" "sample_machine 1 [] (\<lambda>_. 0)"] by simp

end
