(* ===== verification/Mmc_Defs.thy ===== *)
theory Mmc_Defs
  imports Egos_Prelude
begin

text \<open>The constants of \<^verbatim>\<open>earth/modules/mmc/mmc.h\<close> that the driver uses.\<close>

definition SD_VERSION_SD :: u32 where "SD_VERSION_SD = 0x20000"
definition SD_VERSION_2 :: u32 where "SD_VERSION_2 = SD_VERSION_SD OR 0x20"
definition SD_VERSION_1_0 :: u32 where "SD_VERSION_1_0 = SD_VERSION_SD OR 0x10"
definition SD_VERSION_1_10 :: u32 where "SD_VERSION_1_10 = SD_VERSION_SD OR 0x1a"
definition MMC_VERSION_MMC :: u32 where "MMC_VERSION_MMC = 0x10000"
definition MMC_VERSION_UNKNOWN :: u32 where "MMC_VERSION_UNKNOWN = MMC_VERSION_MMC"
definition MMC_VERSION_1_2 :: u32 where "MMC_VERSION_1_2 = MMC_VERSION_MMC OR 0x12"
definition MMC_VERSION_1_4 :: u32 where "MMC_VERSION_1_4 = MMC_VERSION_MMC OR 0x14"
definition MMC_VERSION_2_2 :: u32 where "MMC_VERSION_2_2 = MMC_VERSION_MMC OR 0x22"
definition MMC_VERSION_3 :: u32 where "MMC_VERSION_3 = MMC_VERSION_MMC OR 0x30"
definition MMC_VERSION_4 :: u32 where "MMC_VERSION_4 = MMC_VERSION_MMC OR 0x40"
definition MMC_VERSION_4_1 :: u32 where "MMC_VERSION_4_1 = MMC_VERSION_MMC OR 0x41"
definition MMC_VERSION_4_2 :: u32 where "MMC_VERSION_4_2 = MMC_VERSION_MMC OR 0x42"
definition MMC_VERSION_4_3 :: u32 where "MMC_VERSION_4_3 = MMC_VERSION_MMC OR 0x43"
definition MMC_VERSION_4_41 :: u32 where "MMC_VERSION_4_41 = MMC_VERSION_MMC OR 0x44"
definition MMC_VERSION_4_5 :: u32 where "MMC_VERSION_4_5 = MMC_VERSION_MMC OR 0x45"
definition MMC_VERSION_5_0 :: u32 where "MMC_VERSION_5_0 = MMC_VERSION_MMC OR 0x50"
definition MMC_VERSION_5_1 :: u32 where "MMC_VERSION_5_1 = MMC_VERSION_MMC OR 0x51"
definition MMC_MODE_HS :: u32 where "MMC_MODE_HS = push_bit 0 1"
definition MMC_MODE_HS_52MHz :: u32 where "MMC_MODE_HS_52MHz = push_bit 1 1"
definition MMC_MODE_4BIT :: u32 where "MMC_MODE_4BIT = push_bit 2 1"
definition MMC_MODE_8BIT :: u32 where "MMC_MODE_8BIT = push_bit 3 1"
definition MMC_MODE_SPI :: u32 where "MMC_MODE_SPI = push_bit 4 1"
definition MMC_MODE_HC :: u32 where "MMC_MODE_HC = push_bit 5 1"
definition MMC_MODE_DDR_52MHz :: u32 where "MMC_MODE_DDR_52MHz = push_bit 6 1"
definition SD_DATA_4BIT :: u32 where "SD_DATA_4BIT = 0x00040000"
definition MMC_DATA_READ :: u32 where "MMC_DATA_READ = push_bit 0 1"
definition MMC_DATA_WRITE :: u32 where "MMC_DATA_WRITE = push_bit 1 1"
definition MMC_CMD_MANUAL :: u32 where "MMC_CMD_MANUAL = 1"
definition MMC_CMD_GO_IDLE_STATE :: u32 where "MMC_CMD_GO_IDLE_STATE = 0"
definition MMC_CMD_SEND_OP_COND :: u32 where "MMC_CMD_SEND_OP_COND = 1"
definition MMC_CMD_ALL_SEND_CID :: u32 where "MMC_CMD_ALL_SEND_CID = 2"
definition MMC_CMD_SWITCH :: u32 where "MMC_CMD_SWITCH = 6"
definition MMC_CMD_SELECT_CARD :: u32 where "MMC_CMD_SELECT_CARD = 7"
definition MMC_CMD_SEND_EXT_CSD :: u32 where "MMC_CMD_SEND_EXT_CSD = 8"
definition MMC_CMD_SEND_CSD :: u32 where "MMC_CMD_SEND_CSD = 9"
definition MMC_CMD_SEND_CID :: u32 where "MMC_CMD_SEND_CID = 10"
definition MMC_CMD_STOP_TRANSMISSION :: u32 where "MMC_CMD_STOP_TRANSMISSION = 12"
definition MMC_CMD_SEND_STATUS :: u32 where "MMC_CMD_SEND_STATUS = 13"
definition MMC_CMD_SET_BLOCKLEN :: u32 where "MMC_CMD_SET_BLOCKLEN = 16"
definition MMC_CMD_READ_SINGLE_BLOCK :: u32 where "MMC_CMD_READ_SINGLE_BLOCK = 17"
definition MMC_CMD_READ_MULTIPLE_BLOCK :: u32 where "MMC_CMD_READ_MULTIPLE_BLOCK = 18"
definition MMC_CMD_APP_CMD :: u32 where "MMC_CMD_APP_CMD = 55"
definition MMC_CMD_SPI_READ_OCR :: u32 where "MMC_CMD_SPI_READ_OCR = 58"
definition SD_CMD_SEND_RELATIVE_ADDR :: u32 where "SD_CMD_SEND_RELATIVE_ADDR = 3"
definition SD_CMD_SWITCH_FUNC :: u32 where "SD_CMD_SWITCH_FUNC = 6"
definition SD_CMD_SEND_IF_COND :: u32 where "SD_CMD_SEND_IF_COND = 8"
definition SD_CMD_APP_SET_BUS_WIDTH :: u32 where "SD_CMD_APP_SET_BUS_WIDTH = 6"
definition SD_CMD_APP_SEND_OP_COND :: u32 where "SD_CMD_APP_SEND_OP_COND = 41"
definition SD_CMD_APP_SEND_SCR :: u32 where "SD_CMD_APP_SEND_SCR = 51"
definition SD_HIGHSPEED_BUSY :: u32 where "SD_HIGHSPEED_BUSY = 0x00020000"
definition SD_HIGHSPEED_SUPPORTED :: u32 where "SD_HIGHSPEED_SUPPORTED = 0x00020000"
definition OCR_BUSY :: u32 where "OCR_BUSY = 0x80000000"
definition OCR_HCS :: u32 where "OCR_HCS = 0x40000000"
definition OCR_VOLTAGE_MASK :: u32 where "OCR_VOLTAGE_MASK = 0x007FFF80"
definition OCR_ACCESS_MODE :: u32 where "OCR_ACCESS_MODE = 0x60000000"
definition MMC_STATUS_MASK :: u32 where "MMC_STATUS_MASK = NOT 0x0206BF7F"
definition MMC_STATUS_RDY_FOR_DATA :: u32 where "MMC_STATUS_RDY_FOR_DATA = push_bit 8 1"
definition MMC_VDD_29_30 :: u32 where "MMC_VDD_29_30 = 0x00020000"
definition MMC_VDD_30_31 :: u32 where "MMC_VDD_30_31 = 0x00040000"
definition MMC_VDD_31_32 :: u32 where "MMC_VDD_31_32 = 0x00080000"
definition MMC_VDD_32_33 :: u32 where "MMC_VDD_32_33 = 0x00100000"
definition MMC_VDD_33_34 :: u32 where "MMC_VDD_33_34 = 0x00200000"
definition MMC_VDD_34_35 :: u32 where "MMC_VDD_34_35 = 0x00400000"
definition MMC_VDD_35_36 :: u32 where "MMC_VDD_35_36 = 0x00800000"
definition MMC_SWITCH_MODE_WRITE_BYTE :: u32 where "MMC_SWITCH_MODE_WRITE_BYTE = 0x03"
definition SD_SWITCH_CHECK :: u32 where "SD_SWITCH_CHECK = 0"
definition SD_SWITCH_SWITCH :: u32 where "SD_SWITCH_SWITCH = 1"
definition EXT_CSD_PART_CONF :: u32 where "EXT_CSD_PART_CONF = 179"
definition EXT_CSD_BUS_WIDTH :: u32 where "EXT_CSD_BUS_WIDTH = 183"
definition EXT_CSD_HS_TIMING :: u32 where "EXT_CSD_HS_TIMING = 185"
definition EXT_CSD_CMD_SET_NORMAL :: u32 where "EXT_CSD_CMD_SET_NORMAL = push_bit 0 1"
definition EXT_CSD_CARD_TYPE_HS_26 :: u32 where "EXT_CSD_CARD_TYPE_HS_26 = push_bit 0 1"
definition EXT_CSD_CARD_TYPE_HS_52 :: u32 where "EXT_CSD_CARD_TYPE_HS_52 = push_bit 1 1"
definition EXT_CSD_CARD_TYPE_HS :: u32 where "EXT_CSD_CARD_TYPE_HS = EXT_CSD_CARD_TYPE_HS_26 OR EXT_CSD_CARD_TYPE_HS_52"
definition EXT_CSD_CARD_TYPE_DDR_1_8V :: u32 where "EXT_CSD_CARD_TYPE_DDR_1_8V = push_bit 2 1"
definition EXT_CSD_CARD_TYPE_DDR_1_2V :: u32 where "EXT_CSD_CARD_TYPE_DDR_1_2V = push_bit 3 1"
definition EXT_CSD_CARD_TYPE_DDR_52 :: u32 where "EXT_CSD_CARD_TYPE_DDR_52 = EXT_CSD_CARD_TYPE_DDR_1_8V OR EXT_CSD_CARD_TYPE_DDR_1_2V"
definition EXT_CSD_BUS_WIDTH_4 :: u32 where "EXT_CSD_BUS_WIDTH_4 = 1"
definition EXT_CSD_BUS_WIDTH_8 :: u32 where "EXT_CSD_BUS_WIDTH_8 = 2"
definition EXT_CSD_BUS_DDR_4 :: u32 where "EXT_CSD_BUS_DDR_4 = 5"
definition EXT_CSD_BUS_DDR_8 :: u32 where "EXT_CSD_BUS_DDR_8 = 6"
definition MMC_RSP_PRESENT :: u32 where "MMC_RSP_PRESENT = push_bit 0 1"
definition MMC_RSP_136 :: u32 where "MMC_RSP_136 = push_bit 1 1"
definition MMC_RSP_CRC :: u32 where "MMC_RSP_CRC = push_bit 2 1"
definition MMC_RSP_BUSY :: u32 where "MMC_RSP_BUSY = push_bit 3 1"
definition MMC_RSP_OPCODE :: u32 where "MMC_RSP_OPCODE = push_bit 4 1"
definition MMC_RSP_NONE :: u32 where "MMC_RSP_NONE = 0"
definition MMC_RSP_R1 :: u32 where "MMC_RSP_R1 = MMC_RSP_PRESENT OR MMC_RSP_CRC OR MMC_RSP_OPCODE"
definition MMC_RSP_R1b :: u32 where "MMC_RSP_R1b = MMC_RSP_PRESENT OR MMC_RSP_CRC OR MMC_RSP_OPCODE OR MMC_RSP_BUSY"
definition MMC_RSP_R2 :: u32 where "MMC_RSP_R2 = MMC_RSP_PRESENT OR MMC_RSP_136 OR MMC_RSP_CRC"
definition MMC_RSP_R3 :: u32 where "MMC_RSP_R3 = MMC_RSP_PRESENT"
definition MMC_RSP_R6 :: u32 where "MMC_RSP_R6 = MMC_RSP_PRESENT OR MMC_RSP_CRC OR MMC_RSP_OPCODE"
definition MMC_RSP_R7 :: u32 where "MMC_RSP_R7 = MMC_RSP_PRESENT OR MMC_RSP_CRC OR MMC_RSP_OPCODE"
definition MMCPART_NOAVAILABLE :: u32 where "MMCPART_NOAVAILABLE = 0xff"
definition PART_ACCESS_MASK :: u32 where "PART_ACCESS_MASK = 0x7"
definition PART_SUPPORT :: u32 where "PART_SUPPORT = 0x1"
definition CARD_TYPE_SD :: u32 where "CARD_TYPE_SD = 0x8000001"
definition CARD_TYPE_MMC :: u32 where "CARD_TYPE_MMC = 0x8000000"
definition SDMMC_PARAMETER_MAGIC :: u32 where "SDMMC_PARAMETER_MAGIC = 0x6D6D6361"
definition SUNXI_SDMMC_PARAMETER_REGION_LBA_START :: u32 where "SUNXI_SDMMC_PARAMETER_REGION_LBA_START = 24504"
definition SUNXI_SDMMC_PARAMETER_REGION_SIZE_BYTE :: u32 where "SUNXI_SDMMC_PARAMETER_REGION_SIZE_BYTE = 512"
definition EXT_PARA0_ID :: u32 where "EXT_PARA0_ID = 0x55000000"
definition EXT_PARA0_TUNING_SUCCESS_FLAG :: u32 where "EXT_PARA0_TUNING_SUCCESS_FLAG = push_bit 0 1"
definition EXT_PARA1_1V8_GPIO_BIAS :: u32 where "EXT_PARA1_1V8_GPIO_BIAS = 0x1"
definition NO_CARD_ERR :: int where "NO_CARD_ERR = -16"
definition UNUSABLE_ERR :: int where "UNUSABLE_ERR = -17"
definition COMM_ERR :: int where "COMM_ERR = -18"
definition TIMEOUT :: int where "TIMEOUT = -19"

lemmas mmc_consts =
  SD_VERSION_SD_def
  SD_VERSION_2_def
  SD_VERSION_1_0_def
  SD_VERSION_1_10_def
  MMC_VERSION_MMC_def
  MMC_VERSION_UNKNOWN_def
  MMC_VERSION_1_2_def
  MMC_VERSION_1_4_def
  MMC_VERSION_2_2_def
  MMC_VERSION_3_def
  MMC_VERSION_4_def
  MMC_VERSION_4_1_def
  MMC_VERSION_4_2_def
  MMC_VERSION_4_3_def
  MMC_VERSION_4_41_def
  MMC_VERSION_4_5_def
  MMC_VERSION_5_0_def
  MMC_VERSION_5_1_def
  MMC_MODE_HS_def
  MMC_MODE_HS_52MHz_def
  MMC_MODE_4BIT_def
  MMC_MODE_8BIT_def
  MMC_MODE_SPI_def
  MMC_MODE_HC_def
  MMC_MODE_DDR_52MHz_def
  SD_DATA_4BIT_def
  MMC_DATA_READ_def
  MMC_DATA_WRITE_def
  MMC_CMD_MANUAL_def
  MMC_CMD_GO_IDLE_STATE_def
  MMC_CMD_SEND_OP_COND_def
  MMC_CMD_ALL_SEND_CID_def
  MMC_CMD_SWITCH_def
  MMC_CMD_SELECT_CARD_def
  MMC_CMD_SEND_EXT_CSD_def
  MMC_CMD_SEND_CSD_def
  MMC_CMD_SEND_CID_def
  MMC_CMD_STOP_TRANSMISSION_def
  MMC_CMD_SEND_STATUS_def
  MMC_CMD_SET_BLOCKLEN_def
  MMC_CMD_READ_SINGLE_BLOCK_def
  MMC_CMD_READ_MULTIPLE_BLOCK_def
  MMC_CMD_APP_CMD_def
  MMC_CMD_SPI_READ_OCR_def
  SD_CMD_SEND_RELATIVE_ADDR_def
  SD_CMD_SWITCH_FUNC_def
  SD_CMD_SEND_IF_COND_def
  SD_CMD_APP_SET_BUS_WIDTH_def
  SD_CMD_APP_SEND_OP_COND_def
  SD_CMD_APP_SEND_SCR_def
  SD_HIGHSPEED_BUSY_def
  SD_HIGHSPEED_SUPPORTED_def
  OCR_BUSY_def
  OCR_HCS_def
  OCR_VOLTAGE_MASK_def
  OCR_ACCESS_MODE_def
  MMC_STATUS_MASK_def
  MMC_STATUS_RDY_FOR_DATA_def
  MMC_VDD_29_30_def
  MMC_VDD_30_31_def
  MMC_VDD_31_32_def
  MMC_VDD_32_33_def
  MMC_VDD_33_34_def
  MMC_VDD_34_35_def
  MMC_VDD_35_36_def
  MMC_SWITCH_MODE_WRITE_BYTE_def
  SD_SWITCH_CHECK_def
  SD_SWITCH_SWITCH_def
  EXT_CSD_PART_CONF_def
  EXT_CSD_BUS_WIDTH_def
  EXT_CSD_HS_TIMING_def
  EXT_CSD_CMD_SET_NORMAL_def
  EXT_CSD_CARD_TYPE_HS_26_def
  EXT_CSD_CARD_TYPE_HS_52_def
  EXT_CSD_CARD_TYPE_HS_def
  EXT_CSD_CARD_TYPE_DDR_1_8V_def
  EXT_CSD_CARD_TYPE_DDR_1_2V_def
  EXT_CSD_CARD_TYPE_DDR_52_def
  EXT_CSD_BUS_WIDTH_4_def
  EXT_CSD_BUS_WIDTH_8_def
  EXT_CSD_BUS_DDR_4_def
  EXT_CSD_BUS_DDR_8_def
  MMC_RSP_PRESENT_def
  MMC_RSP_136_def
  MMC_RSP_CRC_def
  MMC_RSP_BUSY_def
  MMC_RSP_OPCODE_def
  MMC_RSP_NONE_def
  MMC_RSP_R1_def
  MMC_RSP_R1b_def
  MMC_RSP_R2_def
  MMC_RSP_R3_def
  MMC_RSP_R6_def
  MMC_RSP_R7_def
  MMCPART_NOAVAILABLE_def
  PART_ACCESS_MASK_def
  PART_SUPPORT_def
  CARD_TYPE_SD_def
  CARD_TYPE_MMC_def
  SDMMC_PARAMETER_MAGIC_def
  SUNXI_SDMMC_PARAMETER_REGION_LBA_START_def
  SUNXI_SDMMC_PARAMETER_REGION_SIZE_BYTE_def
  EXT_PARA0_ID_def
  EXT_PARA0_TUNING_SUCCESS_FLAG_def
  EXT_PARA1_1V8_GPIO_BIAS_def
  NO_CARD_ERR_def
  UNUSABLE_ERR_def
  COMM_ERR_def
  TIMEOUT_def

end
