(* ===== verification/Mmc.thy ===== *)
theory Mmc
  imports Mmc_Defs Egos_Layout
begin

text \<open>
  The SD/MMC core driver (\<^verbatim>\<open>earth/modules/mmc/mmc.c\<close>): card commands, block reads, identification and
  start-up. The host controller's operations are function pointers in \<^verbatim>\<open>struct mmc\<close>; here they are the
  parameter \<open>H\<close>, over an abstract host state. Log output and delays have no effect in the model.
\<close>

section \<open>State\<close>

record mmc =
  voltages :: u32
  version :: u32
  has_init :: bool
  control_num :: u32
  f_min :: u32
  f_max :: u32
  f_max_ddr :: u32
  high_capacity :: bool
  bus_width :: u32
  clock :: u32
  card_caps :: u32
  host_caps :: u32
  ocr :: u32
  scr :: "u32 list"
  csd :: "u32 list"
  cid :: "u32 list"
  rca :: u32
  part_config :: u32
  part_num :: u32
  tran_speed :: u32
  read_bl_len :: u32
  write_bl_len :: u32
  erase_grp_size :: u32
  capacity :: u64
  b_max :: u32
  lba :: u32
  blksz :: u32
  speed_mode :: u32

record mmc_cmd =
  cmdidx :: u32
  resp_type :: u32
  cmdarg :: u32
  cmd_flags :: u32

record mmc_data =
  data_flags :: u32
  blocks :: u32
  blocksize :: u32

text \<open>The speed modes of \<^verbatim>\<open>mmc_bsp.h\<close>.\<close>

definition DS26_SDR12 :: u32 where "DS26_SDR12 = 0"
definition HSSDR52_SDR25 :: u32 where "HSSDR52_SDR25 = 1"
definition HSDDR52_DDR50 :: u32 where "HSDDR52_DDR50 = 2"
definition HS400 :: u32 where "HS400 = 4"

text \<open>
  The state: the card's \<^verbatim>\<open>struct mmc\<close>, the host controller and the static parameter region
  \<^verbatim>\<open>mmc_arg_addr\<close>. \<open>send_cmd_fn\<close> returns the error code, the response words and the bytes that the
  controller stored in the data buffer; \<open>set_ios_fn\<close> returns the clock that it stored in \<^verbatim>\<open>mmc->clock\<close>.
\<close>

record 'h mmcs =
  dev :: mmc
  host :: 'h
  mmc_arg_addr :: "byte list"

record 'h mmc_ops =
  send_cmd_fn :: "mmc \<Rightarrow> mmc_cmd \<Rightarrow> mmc_data option \<Rightarrow> 'h \<Rightarrow> ((int \<times> u32 list \<times> byte list) \<times> 'h) res"
  set_ios_fn :: "mmc \<Rightarrow> 'h \<Rightarrow> (u32 \<times> 'h) res"
  init_fn :: "mmc \<Rightarrow> 'h \<Rightarrow> (int \<times> 'h) res"
  update_phase_fn :: "(mmc \<Rightarrow> 'h \<Rightarrow> (int \<times> 'h) res) option"
  host_caps_r_fn :: "byte list \<Rightarrow> mmc \<Rightarrow> 'h \<Rightarrow> (mmc \<times> 'h) res"

abbreviation IS_SD :: "mmc \<Rightarrow> bool" where "IS_SD m \<equiv> version m AND SD_VERSION_SD \<noteq> 0"

abbreviation mmc_host_is_spi :: "mmc \<Rightarrow> bool" where "mmc_host_is_spi m \<equiv> host_caps m AND MMC_MODE_SPI \<noteq> 0"

abbreviation cmd :: "u32 \<Rightarrow> u32 \<Rightarrow> u32 \<Rightarrow> mmc_cmd" where
  "cmd idx rt a \<equiv> \<lparr>cmdidx = idx, resp_type = rt, cmdarg = a, cmd_flags = 0\<rparr>"

abbreviation rd_data :: "u32 \<Rightarrow> u32 \<Rightarrow> mmc_data" where
  "rd_data n sz \<equiv> \<lparr>data_flags = MMC_DATA_READ, blocks = n, blocksize = sz\<rparr>"

text \<open>Sequencing: \<^verbatim>\<open>err = ...; if (err) return err;\<close> and a bare command.\<close>

definition thenE :: "(int \<times> 's) res \<Rightarrow> ('s \<Rightarrow> (int \<times> 's) res) \<Rightarrow> (int \<times> 's) res" where
  "thenE m f = bindE m (\<lambda>(err, s). if err \<noteq> 0 then Inr (err, s) else f s)"

definition upd :: "(mmc \<Rightarrow> mmc) \<Rightarrow> 'h mmcs \<Rightarrow> 'h mmcs" where
  "upd f s = s\<lparr>dev := f (dev s)\<rparr>"

definition mmc_send_cmd ::
    "'h mmc_ops \<Rightarrow> mmc_cmd \<Rightarrow> mmc_data option \<Rightarrow> 'h mmcs \<Rightarrow> ((int \<times> u32 list \<times> byte list) \<times> 'h mmcs) res" where
  "mmc_send_cmd H c d s =
     bindE (send_cmd_fn H (dev s) c d (host s)) (\<lambda>(r, h). Inr (r, s\<lparr>host := h\<rparr>))"

definition simple_cmd :: "'h mmc_ops \<Rightarrow> mmc_cmd \<Rightarrow> 'h mmcs \<Rightarrow> (int \<times> 'h mmcs) res" where
  "simple_cmd H c s = bindE (mmc_send_cmd H c None s) (\<lambda>((err, _, _), s). Inr (err, s))"

text \<open>A command whose response is used after the error check.\<close>

definition resp_cmd ::
    "'h mmc_ops \<Rightarrow> mmc_cmd \<Rightarrow> 'h mmcs \<Rightarrow> (u32 list \<Rightarrow> 'h mmcs \<Rightarrow> (int \<times> 'h mmcs) res) \<Rightarrow> (int \<times> 'h mmcs) res" where
  "resp_cmd H c s f =
     bindE (mmc_send_cmd H c None s) (\<lambda>((err, r, _), s). if err \<noteq> 0 then Inr (err, s) else f r s)"

section \<open>Status and block reads\<close>

text \<open>
  The loop of \<^verbatim>\<open>mmc_send_status\<close>; \<open>t\<close> is \<^verbatim>\<open>timeout\<close>. When the loop runs out, \<^verbatim>\<open>timeout--\<close> leaves -1 and
  the test \<^verbatim>\<open>!timeout\<close> behind it fails; it holds when the card is ready in the last round.
\<close>

fun mmc_send_status :: "'h mmc_ops \<Rightarrow> nat \<Rightarrow> 'h mmcs \<Rightarrow> (int \<times> 'h mmcs) res" where
  "mmc_send_status H t s =
     resp_cmd H (cmd MMC_CMD_SEND_STATUS MMC_RSP_R1 (push_bit 16 (rca (dev s)))) s (\<lambda>r s.
     if r ! 0 AND MMC_STATUS_RDY_FOR_DATA \<noteq> 0 then Inr (if t = 0 then TIMEOUT else 0, s)
     else if r ! 0 AND MMC_STATUS_MASK \<noteq> 0 then Inr (COMM_ERR, s)
     else case t of 0 \<Rightarrow> Inr (0, s) | Suc t \<Rightarrow> mmc_send_status H t s)"

declare mmc_send_status.simps [simp del]

definition mmc_set_blocklen :: "'h mmc_ops \<Rightarrow> u32 \<Rightarrow> 'h mmcs \<Rightarrow> (int \<times> 'h mmcs) res" where
  "mmc_set_blocklen H len s =
     (if speed_mode (dev s) = HSDDR52_DDR50 \<or> speed_mode (dev s) = HS400 then Inr (0, s)
      else simple_cmd H (cmd MMC_CMD_SET_BLOCKLEN MMC_RSP_R1 len) s)"

text \<open>The result is the number of blocks read (0 on an error) and the bytes stored at \<^verbatim>\<open>dst\<close>.\<close>

definition mmc_read_blocks ::
    "'h mmc_ops \<Rightarrow> u64 \<Rightarrow> u32 \<Rightarrow> 'h mmcs \<Rightarrow> ((u32 \<times> byte list) \<times> 'h mmcs) res" where
  "mmc_read_blocks H start blkcnt s =
     (let m = dev s;
          idx = (if blkcnt > 1 then MMC_CMD_READ_MULTIPLE_BLOCK else MMC_CMD_READ_SINGLE_BLOCK);
          a = (if high_capacity m then ucast start else ucast (start * ucast (read_bl_len m))) in
      bindE (mmc_send_cmd H (cmd idx MMC_RSP_R1 a) (Some (rd_data blkcnt (read_bl_len m))) s) (\<lambda>((err, _, d), s).
      if err \<noteq> 0 then Inr ((0, d), s)
      else if blkcnt > 1 then
        bindE (simple_cmd H (cmd MMC_CMD_STOP_TRANSMISSION MMC_RSP_R1b 0) s) (\<lambda>(err, s).
        if err \<noteq> 0 then Inr ((0, d), s) else
        bindE (mmc_send_status H 1000 s) (\<lambda>(_, s).
        Inr ((blkcnt, d), s)))
      else Inr ((blkcnt, d), s)))"

text \<open>
  The loop of \<^verbatim>\<open>mmc_bread\<close> stores at \<^verbatim>\<open>dst + off\<close>. With \<^verbatim>\<open>b_max\<close> 0 it does not end.
\<close>

definition buf_store :: "byte list \<Rightarrow> nat \<Rightarrow> byte list \<Rightarrow> byte list res" where
  "buf_store dst off d =
     (if off + length d \<le> length dst then Inr (put_at dst off d) else Inl (Undefined ''store outside buffer''))"

partial_function (option) bread_loop ::
    "'h mmc_ops \<Rightarrow> u32 \<Rightarrow> u64 \<Rightarrow> u32 \<Rightarrow> nat \<Rightarrow> byte list \<Rightarrow> 'h mmcs \<Rightarrow> ((u32 \<times> byte list) \<times> 'h mmcs) res option" where
  "bread_loop H blkcnt start todo off dst s =
     (let n = (if todo > b_max (dev s) then b_max (dev s) else todo) in
      bindO (Some (mmc_read_blocks H start n s)) (\<lambda>((k, d), s).
      bindO (Some (buf_store dst off d)) (\<lambda>dst.
      if k \<noteq> n then Some (Inr ((0, dst), s))
      else if todo - n > 0
      then bread_loop H blkcnt (start + ucast n) (todo - n) (off + unat (n * read_bl_len (dev s))) dst s
      else Some (Inr ((blkcnt, dst), s)))))"

text \<open>\<^verbatim>\<open>mmc_devices\<close> holds the registered devices; this driver registers only device 0.\<close>

definition MAX_MMC_NUM :: int where "MAX_MMC_NUM = 2"

definition find_mmc_device :: "int \<Rightarrow> 'h mmcs option list \<Rightarrow> 'h mmcs option res" where
  "find_mmc_device n devs =
     (if 0 \<le> n \<and> nat n < length devs then Inr (devs ! nat n) else Inl (Undefined ''mmc_devices: bad index''))"

definition mmc_bread ::
    "'h mmc_ops \<Rightarrow> int \<Rightarrow> u64 \<Rightarrow> u32 \<Rightarrow> byte list \<Rightarrow> 'h mmcs option list \<Rightarrow>
       ((u32 \<times> byte list) \<times> 'h mmcs option list) res option" where
  "mmc_bread H n start blkcnt dst devs =
     bindO (Some (find_mmc_device n devs)) (\<lambda>mmc.
     case mmc of
       None \<Rightarrow> Some (if blkcnt = 0 then Inl (Undefined ''mmc_bread: null device'') else Inr ((0, dst), devs))
     | Some s \<Rightarrow>
         if blkcnt = 0 then Some (Inr ((0, dst), devs))
         else if start + ucast blkcnt > ucast (lba (dev s)) then Some (Inr ((0, dst), devs))
         else bindO (Some (mmc_set_blocklen H (read_bl_len (dev s)) s)) (\<lambda>(err, s).
              if err \<noteq> 0 then Some (Inr ((0, dst), devs[nat n := Some s]))
              else bindO (bread_loop H blkcnt start blkcnt 0 dst s) (\<lambda>(r, s).
                   Some (Inr (r, devs[nat n := Some s])))))"

section \<open>Identification\<close>

definition mmc_go_idle :: "'h mmc_ops \<Rightarrow> 'h mmcs \<Rightarrow> (int \<times> 'h mmcs) res" where
  "mmc_go_idle H s = thenE (simple_cmd H (cmd MMC_CMD_GO_IDLE_STATE MMC_RSP_NONE 0) s) (\<lambda>s. Inr (0, s))"

text \<open>
  The polling loop of \<^verbatim>\<open>sd_send_op_cond\<close>; \<open>k\<close> is the code behind it, which gets the final \<^verbatim>\<open>timeout\<close> and
  the last response.
\<close>

fun sd_op_cond_loop ::
    "'h mmc_ops \<Rightarrow> nat \<Rightarrow> 'h mmcs \<Rightarrow> (int \<Rightarrow> u32 list \<Rightarrow> 'h mmcs \<Rightarrow> (int \<times> 'h mmcs) res) \<Rightarrow> (int \<times> 'h mmcs) res" where
  "sd_op_cond_loop H t s k =
     thenE (simple_cmd H (cmd MMC_CMD_APP_CMD MMC_RSP_R1 0) s) (\<lambda>s.
     let a = (if mmc_host_is_spi (dev s) then 0 else voltages (dev s) AND 0xff8000);
         a = (if version (dev s) = SD_VERSION_2 then a OR OCR_HCS else a) in
     resp_cmd H (cmd SD_CMD_APP_SEND_OP_COND MMC_RSP_R3 a) s (\<lambda>r s.
     if r ! 0 AND OCR_BUSY \<noteq> 0 then k (int t) r s
     else case t of 0 \<Rightarrow> k (-1) r s | Suc t \<Rightarrow> sd_op_cond_loop H t s k))"

declare sd_op_cond_loop.simps [simp del]

text \<open>In SPI mode the OCR is read with a command of its own.\<close>

definition read_ocr ::
    "'h mmc_ops \<Rightarrow> u32 list \<Rightarrow> 'h mmcs \<Rightarrow> (u32 list \<Rightarrow> 'h mmcs \<Rightarrow> (int \<times> 'h mmcs) res) \<Rightarrow> (int \<times> 'h mmcs) res" where
  "read_ocr H r s k =
     (if mmc_host_is_spi (dev s) then resp_cmd H (cmd MMC_CMD_SPI_READ_OCR MMC_RSP_R3 0) s k else k r s)"

definition sd_send_op_cond :: "'h mmc_ops \<Rightarrow> 'h mmcs \<Rightarrow> (int \<times> 'h mmcs) res" where
  "sd_send_op_cond H s =
     sd_op_cond_loop H 1000 s (\<lambda>timeout r s.
     if timeout \<le> 0 then Inr (UNUSABLE_ERR, s) else
     let s = upd (\<lambda>m. if version m \<noteq> SD_VERSION_2 then m\<lparr>version := SD_VERSION_1_0\<rparr> else m) s in
     read_ocr H r s (\<lambda>r s.
     Inr (0, upd (\<lambda>m. m\<lparr>ocr := r ! 0, high_capacity := (r ! 0 AND OCR_HCS = OCR_HCS), rca := 0\<rparr>) s)))"

fun mmc_op_cond_loop ::
    "'h mmc_ops \<Rightarrow> nat \<Rightarrow> u32 list \<Rightarrow> 'h mmcs \<Rightarrow> (int \<Rightarrow> u32 list \<Rightarrow> 'h mmcs \<Rightarrow> (int \<times> 'h mmcs) res) \<Rightarrow>
       (int \<times> 'h mmcs) res" where
  "mmc_op_cond_loop H t r s k =
     (let m = dev s;
          a = (if mmc_host_is_spi m then 0
               else (voltages m AND (r ! 0 AND OCR_VOLTAGE_MASK)) OR (r ! 0 AND OCR_ACCESS_MODE));
          a = (if host_caps m AND MMC_MODE_HC \<noteq> 0 then a OR OCR_HCS else a) in
      resp_cmd H (cmd MMC_CMD_SEND_OP_COND MMC_RSP_R3 a) s (\<lambda>r s.
      if r ! 0 AND OCR_BUSY \<noteq> 0 then k (int t) r s
      else case t of 0 \<Rightarrow> k (-1) r s | Suc t \<Rightarrow> mmc_op_cond_loop H t r s k))"

declare mmc_op_cond_loop.simps [simp del]

definition mmc_send_op_cond :: "'h mmc_ops \<Rightarrow> 'h mmcs \<Rightarrow> (int \<times> 'h mmcs) res" where
  "mmc_send_op_cond H s =
     bindE (mmc_go_idle H s) (\<lambda>(_, s).
     resp_cmd H (cmd MMC_CMD_SEND_OP_COND MMC_RSP_R3 0) s (\<lambda>r s.
     mmc_op_cond_loop H 10000 r s (\<lambda>timeout r s.
     if timeout \<le> 0 then Inr (UNUSABLE_ERR, s) else
     read_ocr H r s (\<lambda>r s.
     Inr (0, upd (\<lambda>m. m\<lparr>version := MMC_VERSION_UNKNOWN, ocr := r ! 0,
                          high_capacity := (r ! 0 AND OCR_HCS = OCR_HCS), rca := 1\<rparr>) s)))))"

definition mmc_send_if_cond :: "'h mmc_ops \<Rightarrow> 'h mmcs \<Rightarrow> (int \<times> 'h mmcs) res" where
  "mmc_send_if_cond H s =
     (let a = (if voltages (dev s) AND 0xff8000 \<noteq> 0 then push_bit 8 1 else 0) OR 0xaa in
      resp_cmd H (cmd SD_CMD_SEND_IF_COND MMC_RSP_R7 a) s (\<lambda>r s.
      if r ! 0 AND 0xff \<noteq> 0xaa then Inr (UNUSABLE_ERR, s)
      else Inr (0, upd (\<lambda>m. m\<lparr>version := SD_VERSION_2\<rparr>) s)))"

section \<open>Switching modes\<close>

text \<open>On success the 512 bytes of the register are passed on.\<close>

definition mmc_send_ext_csd :: "'h mmc_ops \<Rightarrow> 'h mmcs \<Rightarrow> ((int \<times> byte list) \<times> 'h mmcs) res" where
  "mmc_send_ext_csd H s =
     bindE (mmc_send_cmd H (cmd MMC_CMD_SEND_EXT_CSD MMC_RSP_R1 0) (Some (rd_data 1 512)) s)
       (\<lambda>((err, _, d), s). Inr ((err, d), s))"

definition mmc_update_phase :: "'h mmc_ops \<Rightarrow> 'h mmcs \<Rightarrow> (int \<times> 'h mmcs) res" where
  "mmc_update_phase H s =
     (case update_phase_fn H of
        None \<Rightarrow> Inr (0, s)
      | Some f \<Rightarrow> bindE (f (dev s) (host s)) (\<lambda>(err, h). Inr (err, s\<lparr>host := h\<rparr>)))"

text \<open>The error of the command itself is only logged: \<^verbatim>\<open>ret\<close> is overwritten.\<close>

definition mmc_switch :: "'h mmc_ops \<Rightarrow> byte \<Rightarrow> byte \<Rightarrow> byte \<Rightarrow> 'h mmcs \<Rightarrow> (int \<times> 'h mmcs) res" where
  "mmc_switch H set_arg index value s =
     bindE (simple_cmd H (cmd MMC_CMD_SWITCH MMC_RSP_R1b
         (push_bit 24 MMC_SWITCH_MODE_WRITE_BYTE OR push_bit 16 (ucast index) OR push_bit 8 (ucast value))) s) (\<lambda>(_, s).
     thenE (mmc_update_phase H s) (\<lambda>s.
     bindE (mmc_send_status H 1000 s) (\<lambda>(_, s).
     Inr (0, s))))"

text \<open>The retry loop of \<^verbatim>\<open>mmc_change_freq\<close>: at most six attempts.\<close>

fun retry_switch :: "'h mmc_ops \<Rightarrow> nat \<Rightarrow> 'h mmcs \<Rightarrow> (int \<times> 'h mmcs) res" where
  "retry_switch H n s =
     bindE (mmc_switch H (ucast EXT_CSD_CMD_SET_NORMAL) (ucast EXT_CSD_HS_TIMING) 1 s) (\<lambda>(err, s).
     if err = 0 then Inr (0, s) else case n of 0 \<Rightarrow> Inr (err, s) | Suc n \<Rightarrow> retry_switch H n s)"

declare retry_switch.simps [simp del]

definition mmc_change_freq :: "'h mmc_ops \<Rightarrow> 'h mmcs \<Rightarrow> (int \<times> 'h mmcs) res" where
  "mmc_change_freq H s =
     (let s = upd (\<lambda>m. m\<lparr>card_caps := 0\<rparr>) s in
      if mmc_host_is_spi (dev s) then Inr (0, s)
      else if version (dev s) < MMC_VERSION_4 then Inr (0, s) else
      let s = upd (\<lambda>m. m\<lparr>card_caps := card_caps m OR (MMC_MODE_4BIT OR MMC_MODE_8BIT)\<rparr>) s in
      bindE (mmc_send_ext_csd H s) (\<lambda>((err, ext_csd), s).
      if err \<noteq> 0 then Inr (err, s) else
      let cardtype = (ucast (ext_csd ! 196) :: u32) in
      thenE (retry_switch H 5 s) (\<lambda>s.
      bindE (mmc_send_ext_csd H s) (\<lambda>((err, ext_csd), s).
      if err \<noteq> 0 then Inr (err, s)
      else if ext_csd ! 185 = 0 then Inr (0, s)
      else if cardtype AND EXT_CSD_CARD_TYPE_HS \<noteq> 0 then
        let s = (if cardtype AND EXT_CSD_CARD_TYPE_DDR_52 \<noteq> 0
                 then upd (\<lambda>m. m\<lparr>card_caps := card_caps m OR MMC_MODE_DDR_52MHz, speed_mode := HSDDR52_DDR50\<rparr>) s
                 else upd (\<lambda>m. m\<lparr>speed_mode := HSSDR52_SDR25\<rparr>) s) in
        Inr (0, upd (\<lambda>m. m\<lparr>card_caps := card_caps m OR (MMC_MODE_HS_52MHz OR MMC_MODE_HS)\<rparr>) s)
      else Inr (0, upd (\<lambda>m. m\<lparr>card_caps := card_caps m OR MMC_MODE_HS, speed_mode := DS26_SDR12\<rparr>) s)))))"

definition mmc_switch_part :: "'h mmc_ops \<Rightarrow> u32 \<Rightarrow> 'h mmcs option \<Rightarrow> (int \<times> 'h mmcs option) res" where
  "mmc_switch_part H part_no d =
     (case d of
        None \<Rightarrow> Inr (-1, None)
      | Some s \<Rightarrow>
          bindE (mmc_switch H (ucast EXT_CSD_CMD_SET_NORMAL) (ucast EXT_CSD_PART_CONF)
            (ucast ((part_config (dev s) AND NOT PART_ACCESS_MASK) OR (part_no AND PART_ACCESS_MASK))) s)
          (\<lambda>(err, s). Inr (err, Some s)))"

definition mmc_be32_to_cpu :: "u32 \<Rightarrow> u32" where
  "mmc_be32_to_cpu x =
     (0x000000ff AND drop_bit 24 x) OR (0x0000ff00 AND drop_bit 8 x) OR
     (0x00ff0000 AND push_bit 8 x) OR (0xff000000 AND push_bit 24 x)"

definition be32_to_cpu :: "u32 \<Rightarrow> u32" where
  "be32_to_cpu x =
     push_bit 24 (x AND 0x000000ff) OR push_bit 8 (x AND 0x0000ff00) OR
     drop_bit 8 (x AND 0x00ff0000) OR drop_bit 24 (x AND 0xff000000)"

definition sd_switch_arg :: "u32 \<Rightarrow> nat \<Rightarrow> byte \<Rightarrow> u32" where
  "sd_switch_arg mode grp value =
     ((push_bit 31 mode OR 0xffffff) AND NOT (push_bit (grp * 4) 0xf)) OR push_bit (grp * 4) (ucast value)"

definition sd_switch ::
    "'h mmc_ops \<Rightarrow> u32 \<Rightarrow> nat \<Rightarrow> byte \<Rightarrow> 'h mmcs \<Rightarrow> ((int \<times> byte list) \<times> 'h mmcs) res" where
  "sd_switch H mode grp value s =
     bindE (mmc_send_cmd H (cmd SD_CMD_SWITCH_FUNC MMC_RSP_R1 (sd_switch_arg mode grp value)) (Some (rd_data 1 64)) s)
       (\<lambda>((err, _, d), s). Inr ((err, d), s))"

text \<open>\<^verbatim>\<open>retry_scr\<close>: up to four attempts to read the SCR.\<close>

fun retry_scr :: "'h mmc_ops \<Rightarrow> nat \<Rightarrow> 'h mmcs \<Rightarrow> ((int \<times> byte list) \<times> 'h mmcs) res" where
  "retry_scr H t s =
     bindE (mmc_send_cmd H (cmd SD_CMD_APP_SEND_SCR MMC_RSP_R1 0) (Some (rd_data 1 8)) s) (\<lambda>((err, _, d), s).
     if err \<noteq> 0 then (case t of 0 \<Rightarrow> Inr ((err, d), s) | Suc t \<Rightarrow> retry_scr H t s) else Inr ((0, d), s))"

declare retry_scr.simps [simp del]

text \<open>\<^verbatim>\<open>while (timeout--)\<close>: up to four checks while the high-speed function is busy.\<close>

fun check_switch :: "'h mmc_ops \<Rightarrow> nat \<Rightarrow> byte list \<Rightarrow> 'h mmcs \<Rightarrow> ((int \<times> byte list) \<times> 'h mmcs) res" where
  "check_switch H 0 status_buf s = Inr ((0, status_buf), s)"
| "check_switch H (Suc t) status_buf s =
     bindE (sd_switch H SD_SWITCH_CHECK 0 1 s) (\<lambda>((err, d), s).
     if err \<noteq> 0 then Inr ((err, d), s)
     else if be32_to_cpu (get32 d 7) AND SD_HIGHSPEED_BUSY = 0 then Inr ((0, d), s)
     else check_switch H t d s)"

definition sd_version_of :: "u32 \<Rightarrow> u32" where
  "sd_version_of scr0 =
     (let v = drop_bit 24 scr0 AND 0xf in
      if v = 0 then SD_VERSION_1_0 else if v = 1 then SD_VERSION_1_10 else if v = 2 then SD_VERSION_2
      else SD_VERSION_1_0)"

definition sd_change_freq :: "'h mmc_ops \<Rightarrow> 'h mmcs \<Rightarrow> (int \<times> 'h mmcs) res" where
  "sd_change_freq H s =
     (let s = upd (\<lambda>m. m\<lparr>card_caps := 0\<rparr>) s in
      if mmc_host_is_spi (dev s) then Inr (0, s) else
      thenE (simple_cmd H (cmd MMC_CMD_APP_CMD MMC_RSP_R1 (push_bit 16 (rca (dev s)))) s) (\<lambda>s.
      bindE (retry_scr H 3 s) (\<lambda>((err, d), s).
      if err \<noteq> 0 then Inr (err, s) else
      let scr0 = mmc_be32_to_cpu (get32 d 0);
          scr1 = mmc_be32_to_cpu (get32 d 1);
          s = upd (\<lambda>m. m\<lparr>scr := [scr0, scr1], version := sd_version_of scr0\<rparr>) s;
          s = (if scr0 AND SD_DATA_4BIT \<noteq> 0 then upd (\<lambda>m. m\<lparr>card_caps := card_caps m OR MMC_MODE_4BIT\<rparr>) s else s) in
      if version (dev s) = SD_VERSION_1_0 then Inr (0, s) else
      bindE (check_switch H 4 [] s) (\<lambda>((err, ss), s).
      if err \<noteq> 0 then Inr (err, s)
      else if be32_to_cpu (get32 ss 3) AND SD_HIGHSPEED_SUPPORTED = 0 then Inr (0, s) else
      bindE (sd_switch H SD_SWITCH_SWITCH 0 1 s) (\<lambda>((err, ss), s).
      if err \<noteq> 0 then Inr (err, s) else
      thenE (mmc_update_phase H s) (\<lambda>s.
      if be32_to_cpu (get32 ss 4) AND 0x0f000000 = 0x01000000
      then Inr (0, upd (\<lambda>m. m\<lparr>card_caps := card_caps m OR MMC_MODE_HS, speed_mode := HSSDR52_SDR25\<rparr>) s)
      else Inr (0, s)))))))"

section \<open>Clock and bus width\<close>

definition mmc_set_ios :: "'h mmc_ops \<Rightarrow> 'h mmcs \<Rightarrow> 'h mmcs res" where
  "mmc_set_ios H s = bindE (set_ios_fn H (dev s) (host s)) (\<lambda>(c, h). Inr (upd (\<lambda>m. m\<lparr>clock := c\<rparr>) (s\<lparr>host := h\<rparr>)))"

definition clamp_clock :: "mmc \<Rightarrow> u32 \<Rightarrow> u32" where
  "clamp_clock m c =
     (let c = (if c > f_max m then f_max m else c) in if c < f_min m then f_min m else c)"

definition mmc_set_clock :: "'h mmc_ops \<Rightarrow> u32 \<Rightarrow> 'h mmcs \<Rightarrow> 'h mmcs res" where
  "mmc_set_clock H c s = mmc_set_ios H (upd (\<lambda>m. m\<lparr>clock := clamp_clock m c\<rparr>) s)"

definition mmc_set_bus_width :: "'h mmc_ops \<Rightarrow> u32 \<Rightarrow> 'h mmcs \<Rightarrow> 'h mmcs res" where
  "mmc_set_bus_width H w s = mmc_set_ios H (upd (\<lambda>m. m\<lparr>bus_width := w\<rparr>) s)"

section \<open>The parameter region of an eMMC\<close>

text \<open>Fields of the region by 32-bit cell.\<close>

abbreviation region_magic :: "byte list \<Rightarrow> u32" where "region_magic b \<equiv> get32 b 5"
abbreviation region_add_sum :: "byte list \<Rightarrow> u32" where "region_add_sum b \<equiv> get32 b 6"
abbreviation region_length :: "byte list \<Rightarrow> u32" where "region_length b \<equiv> get32 b 7"
abbreviation region_card_type :: "byte list \<Rightarrow> u32" where "region_card_type b \<equiv> get32 b 26"

definition byte_sum :: "byte list \<Rightarrow> u32" where
  "byte_sum bs = foldl (\<lambda>a b. a + ucast b) 0 bs"

text \<open>
  \<^verbatim>\<open>mmc_read_blocks\<close> returns 0 on an error, never a negative number, so the test \<^verbatim>\<open>ret < 0\<close> is never
  true. \<open>n\<close> counts the retries that are left.
\<close>

fun read_info_retry :: "'h mmc_ops \<Rightarrow> u32 \<Rightarrow> nat \<Rightarrow> 'h mmcs \<Rightarrow> (int \<times> 'h mmcs) res" where
  "read_info_retry H len n s =
     (let again = (\<lambda>s. case n of 0 \<Rightarrow> Inr (-1, s) | Suc n \<Rightarrow> read_info_retry H len n s) in
      bindE (mmc_read_blocks H (ucast SUNXI_SDMMC_PARAMETER_REGION_LBA_START) len s) (\<lambda>((_, d), s).
      bindE (buf_store (mmc_arg_addr s) 0 d) (\<lambda>b.
      if region_magic b = SDMMC_PARAMETER_MAGIC then
        let sum = region_add_sum b; b = put32 b 6 0; s = s\<lparr>mmc_arg_addr := b\<rparr> in
        if unat (region_length b) > length b then Inl (Undefined ''mmc_read_info: checksum outside buffer'')
        else if byte_sum (take (unat (region_length b)) b) \<noteq> sum then again s
        else Inr (0, s)
      else again (s\<lparr>mmc_arg_addr := b\<rparr>))))"

declare read_info_retry.simps [simp del]

definition mmc_read_info :: "'h mmc_ops \<Rightarrow> u32 \<Rightarrow> 'h mmcs \<Rightarrow> (int \<times> 'h mmcs) res" where
  "mmc_read_info H len s = read_info_retry H len 3 s"

section \<open>Start-up\<close>

definition fbase :: "u32 list" where "fbase = [10000, 100000, 1000000, 10000000]"

definition multipliers :: "u32 list" where
  "multipliers = [0, 10, 12, 13, 15, 20, 25, 30, 35, 40, 45, 50, 55, 60, 70, 80]"

definition startup_identify ::
    "'h mmc_ops \<Rightarrow> 'h mmcs \<Rightarrow> ('h mmcs \<Rightarrow> (int \<times> 'h mmcs) res) \<Rightarrow> (int \<times> 'h mmcs) res" where
  "startup_identify H s k =
     resp_cmd H (cmd (if mmc_host_is_spi (dev s) then MMC_CMD_SEND_CID else MMC_CMD_ALL_SEND_CID) MMC_RSP_R2 0) s (\<lambda>r s.
     let s = upd (\<lambda>m. m\<lparr>cid := take 4 r\<rparr>) s in
     if mmc_host_is_spi (dev s) then k s
     else resp_cmd H (cmd SD_CMD_SEND_RELATIVE_ADDR MMC_RSP_R6 (push_bit 16 (rca (dev s)))) s (\<lambda>r s.
          k (if IS_SD (dev s) then upd (\<lambda>m. m\<lparr>rca := drop_bit 16 (r ! 0) AND 0xffff\<rparr>) s else s)))"

definition mmc_version_of :: "u32 \<Rightarrow> u32" where
  "mmc_version_of r0 =
     (let v = drop_bit 26 r0 AND 0xf in
      if v = 0 then MMC_VERSION_1_2 else if v = 1 then MMC_VERSION_1_4 else if v = 2 then MMC_VERSION_2_2
      else if v = 3 then MMC_VERSION_3 else if v = 4 then MMC_VERSION_4 else MMC_VERSION_1_2)"

definition csd_capacity :: "bool \<Rightarrow> u32 list \<Rightarrow> u32 \<Rightarrow> u64" where
  "csd_capacity hc c bl_len =
     (let csize = (if hc then push_bit 16 (c ! 1 AND 0x3f) OR drop_bit 16 (c ! 2 AND 0xffff0000)
                   else push_bit 2 (c ! 1 AND 0x3ff) OR drop_bit 30 (c ! 2 AND 0xc0000000));
          cmult = (if hc then 8 else drop_bit 15 (c ! 2 AND 0x00038000)) in
      push_bit (unat cmult + 2) (ucast csize + 1) * ucast bl_len)"

text \<open>What \<^verbatim>\<open>mmc_startup\<close> takes from the CSD. \<^verbatim>\<open>fbase\<close> has four entries for an index of three bits.\<close>

definition csd_fields :: "u32 list \<Rightarrow> mmc \<Rightarrow> mmc res" where
  "csd_fields r m =
     (let m = m\<lparr>csd := take 4 r\<rparr>;
          m = (if version m = MMC_VERSION_UNKNOWN then m\<lparr>version := mmc_version_of (r ! 0)\<rparr> else m);
          fi = unat (r ! 0 AND 0x7) in
      if fi \<ge> length fbase then Inl (Undefined ''mmc_startup: fbase index'') else
      let m = m\<lparr>tran_speed := fbase ! fi * multipliers ! unat (drop_bit 3 (r ! 0) AND 0xf)\<rparr>;
          m = m\<lparr>read_bl_len := push_bit (unat (drop_bit 16 (r ! 1) AND 0xf)) 1\<rparr>;
          m = m\<lparr>write_bl_len := (if IS_SD m then read_bl_len m else push_bit (unat (drop_bit 22 (r ! 3) AND 0xf)) 1)\<rparr>;
          m = m\<lparr>capacity := csd_capacity (high_capacity m) (csd m) (read_bl_len m)\<rparr>;
          m = (if read_bl_len m > 512 then m\<lparr>read_bl_len := 512\<rparr> else m) in
      Inr (if write_bl_len m > 512 then m\<lparr>write_bl_len := 512\<rparr> else m))"

definition startup_csd ::
    "'h mmc_ops \<Rightarrow> 'h mmcs \<Rightarrow> ('h mmcs \<Rightarrow> (int \<times> 'h mmcs) res) \<Rightarrow> (int \<times> 'h mmcs) res" where
  "startup_csd H s k =
     bindE (mmc_send_cmd H (cmd MMC_CMD_SEND_CSD MMC_RSP_R2 (push_bit 16 (rca (dev s)))) None s) (\<lambda>((err, r, _), s).
     bindE (mmc_send_status H 1000 s) (\<lambda>(_, s).
     if err \<noteq> 0 then Inr (err, s) else
     bindE (csd_fields r (dev s)) (\<lambda>m. k (s\<lparr>dev := m\<rparr>))))"

definition startup_select ::
    "'h mmc_ops \<Rightarrow> 'h mmcs \<Rightarrow> ('h mmcs \<Rightarrow> (int \<times> 'h mmcs) res) \<Rightarrow> (int \<times> 'h mmcs) res" where
  "startup_select H s k =
     thenE (if mmc_host_is_spi (dev s) then Inr (0, s)
            else simple_cmd H (cmd MMC_CMD_SELECT_CARD MMC_RSP_R1b (push_bit 16 (rca (dev s)))) s) (\<lambda>s.
     bindE (if IS_SD (dev s) then Inr s else
              bindE (mmc_read_info H (drop_bit 9 SUNXI_SDMMC_PARAMETER_REGION_SIZE_BYTE) s) (\<lambda>(_, s).
              bindE (host_caps_r_fn H (mmc_arg_addr s) (dev s) (host s)) (\<lambda>(m, h).
              Inr (s\<lparr>dev := m, host := h\<rparr>)))) (\<lambda>s.
     bindE (mmc_set_clock H 25000000 s) (\<lambda>s.
     k (upd (\<lambda>m. m\<lparr>erase_grp_size := 1, part_config := MMCPART_NOAVAILABLE\<rparr>) s))))"

definition ext_csd_version :: "byte \<Rightarrow> u32 \<Rightarrow> u32" where
  "ext_csd_version rv v =
     (if rv = 0 then MMC_VERSION_4 else if rv = 1 then MMC_VERSION_4_1 else if rv = 2 then MMC_VERSION_4_2
      else if rv = 3 then MMC_VERSION_4_3 else if rv = 5 then MMC_VERSION_4_41 else if rv = 6 then MMC_VERSION_4_5
      else if rv = 7 then MMC_VERSION_5_0 else if rv = 8 then MMC_VERSION_5_1 else v)"

text \<open>
  The sector count is assembled in a signed \<^verbatim>\<open>int\<close> and sign-extended to 64 bits. After a failed read the
  buffer is not initialised, but bytes 175 and 160 of it are tested all the same.
\<close>

definition ext_csd_fields :: "byte list \<Rightarrow> mmc \<Rightarrow> mmc" where
  "ext_csd_fields e m =
     (let m = m\<lparr>version := ext_csd_version (e ! 192) (version m)\<rparr>;
          cap = (scast (get32 (take 4 (drop 212 e)) 0) :: u64) * 512;
          m = (if e ! 192 \<ge> 2 \<and> drop_bit 20 cap > 2 * 1024 then m\<lparr>capacity := cap\<rparr> else m);
          m = m\<lparr>erase_grp_size :=
                 (if e ! 175 \<noteq> 0 then ucast (e ! 224) * 512 * 1024
                  else (drop_bit 10 (csd m ! 2 AND 0x00007c00) + 1) * (drop_bit 5 (csd m ! 2 AND 0x000003e0) + 1))\<rparr> in
      if ucast (e ! 160) AND PART_SUPPORT \<noteq> 0 then m\<lparr>part_config := ucast (e ! 179)\<rparr> else m)"

definition startup_ext_csd ::
    "'h mmc_ops \<Rightarrow> 'h mmcs \<Rightarrow> ('h mmcs \<Rightarrow> (int \<times> 'h mmcs) res) \<Rightarrow> (int \<times> 'h mmcs) res" where
  "startup_ext_csd H s k =
     (if \<not> IS_SD (dev s) \<and> version (dev s) \<ge> MMC_VERSION_4 then
        bindE (mmc_send_ext_csd H s) (\<lambda>((err, e), s).
        if err \<noteq> 0 then Inl (Undefined ''mmc_startup: unread ext_csd'') else k (upd (ext_csd_fields e) s))
      else k s)"

text \<open>The bus width: the card is switched first, then the host.\<close>

definition startup_bus_sd ::
    "'h mmc_ops \<Rightarrow> 'h mmcs \<Rightarrow> ('h mmcs \<Rightarrow> (int \<times> 'h mmcs) res) \<Rightarrow> (int \<times> 'h mmcs) res" where
  "startup_bus_sd H s k =
     thenE (if card_caps (dev s) AND MMC_MODE_4BIT \<noteq> 0 then
              thenE (simple_cmd H (cmd MMC_CMD_APP_CMD MMC_RSP_R1 (push_bit 16 (rca (dev s)))) s) (\<lambda>s.
              thenE (simple_cmd H (cmd SD_CMD_APP_SET_BUS_WIDTH MMC_RSP_R1 2) s) (\<lambda>s.
              bindE (mmc_set_bus_width H 4 s) (\<lambda>s. Inr (0, s))))
            else Inr (0, s)) (\<lambda>s.
     k (upd (\<lambda>m. m\<lparr>tran_speed := (if card_caps m AND MMC_MODE_HS \<noteq> 0 then 50000000 else 25000000)\<rparr>) s))"

definition startup_bus_mmc ::
    "'h mmc_ops \<Rightarrow> 'h mmcs \<Rightarrow> ('h mmcs \<Rightarrow> (int \<times> 'h mmcs) res) \<Rightarrow> (int \<times> 'h mmcs) res" where
  "startup_bus_mmc H s k =
     (let caps = card_caps (dev s); ddr = (caps AND MMC_MODE_DDR_52MHz \<noteq> 0);
          sw = (\<lambda>v w. thenE (mmc_switch H (ucast EXT_CSD_CMD_SET_NORMAL) (ucast EXT_CSD_BUS_WIDTH) (ucast v) s)
                     (\<lambda>s. bindE (mmc_set_bus_width H w s) (\<lambda>s. Inr (0, s)))) in
      thenE (if caps AND MMC_MODE_8BIT \<noteq> 0 then sw (if ddr then EXT_CSD_BUS_DDR_8 else EXT_CSD_BUS_WIDTH_8) 8
             else if caps AND MMC_MODE_4BIT \<noteq> 0 then sw (if ddr then EXT_CSD_BUS_DDR_4 else EXT_CSD_BUS_WIDTH_4) 4
             else Inr (0, s)) (\<lambda>s.
      k (upd (\<lambda>m. m\<lparr>tran_speed :=
            (if card_caps m AND MMC_MODE_DDR_52MHz \<noteq> 0 then 52000000
             else if card_caps m AND MMC_MODE_HS \<noteq> 0 \<and> card_caps m AND MMC_MODE_HS_52MHz \<noteq> 0 then 52000000
             else 26000000)\<rparr>) s)))"

definition restrict_caps :: "mmc \<Rightarrow> mmc" where
  "restrict_caps m =
     (let m = m\<lparr>card_caps := card_caps m AND host_caps m\<rparr> in
      if card_caps m AND MMC_MODE_DDR_52MHz = 0 \<and> \<not> IS_SD m
      then m\<lparr>speed_mode := (if speed_mode m = HSDDR52_DDR50 then HSSDR52_SDR25 else DS26_SDR12)\<rparr> else m)"

definition mmc_startup :: "'h mmc_ops \<Rightarrow> 'h mmcs \<Rightarrow> (int \<times> 'h mmcs) res" where
  "mmc_startup H s =
     startup_identify H s (\<lambda>s.
     startup_csd H s (\<lambda>s.
     startup_select H s (\<lambda>s.
     startup_ext_csd H s (\<lambda>s.
     thenE (if IS_SD (dev s) then sd_change_freq H s else mmc_change_freq H s) (\<lambda>s.
     thenE (mmc_update_phase H s) (\<lambda>s.
     let s = upd restrict_caps s in
     (if IS_SD (dev s) then startup_bus_sd else startup_bus_mmc) H s (\<lambda>s.
     bindE (mmc_set_clock H (tran_speed (dev s)) s) (\<lambda>s.
     Inr (0, upd (\<lambda>m. m\<lparr>blksz := read_bl_len m, lba := ucast (drop_bit 9 (capacity m))\<rparr>) s)))))))))"

section \<open>Initialisation\<close>

text \<open>
  The card type comes from the parameter region; \<open>retry\<close> bounds the \<^verbatim>\<open>goto retry_card\<close>, which is taken
  at most once, because it sets the type to SD first.
\<close>

definition set_card_type :: "u32 \<Rightarrow> 'h mmcs \<Rightarrow> 'h mmcs" where
  "set_card_type t s = s\<lparr>mmc_arg_addr := put32 (mmc_arg_addr s) 26 t\<rparr>"

definition select_voltage :: "'h mmc_ops \<Rightarrow> 'h mmcs \<Rightarrow> ((bool \<times> int) \<times> 'h mmcs) res" where
  "select_voltage H s =
     (let ct = region_card_type (mmc_arg_addr s);
          unusable = (\<lambda>(err, s). Inr ((False, if err \<noteq> 0 then UNUSABLE_ERR else 0), s)) in
      if ct = CARD_TYPE_SD then
        bindE (mmc_send_if_cond H s) (\<lambda>(_, s). bindE (sd_send_op_cond H s) unusable)
      else if ct = CARD_TYPE_MMC then bindE (mmc_send_op_cond H s) unusable
      else if control_num (dev s) = 2 then
        bindE (mmc_send_op_cond H s) (\<lambda>(err, s).
        if err \<noteq> 0 then Inr ((True, err), set_card_type CARD_TYPE_SD s) else Inr ((False, 0), s))
      else
        bindE (mmc_send_if_cond H s) (\<lambda>(_, s).
        bindE (sd_send_op_cond H s) (\<lambda>(err, s).
        if err \<noteq> 0 then bindE (mmc_send_op_cond H s) unusable else Inr ((False, 0), s))))"

fun init_card :: "'h mmc_ops \<Rightarrow> nat \<Rightarrow> 'h mmcs \<Rightarrow> (int \<times> 'h mmcs) res" where
  "init_card H n s =
     thenE (mmc_go_idle H s) (\<lambda>s.
     bindE (select_voltage H (upd (\<lambda>m. m\<lparr>part_num := 0\<rparr>) s)) (\<lambda>((retry, err), s).
     if retry then (case n of 0 \<Rightarrow> Inl (Undefined ''mmc_init: second retry'') | Suc n \<Rightarrow> init_card H n s)
     else if err \<noteq> 0 then Inr (err, s) else
     bindE (mmc_startup H s) (\<lambda>(err, s).
     Inr (err, upd (\<lambda>m. m\<lparr>has_init := (err = 0)\<rparr>) s))))"

declare init_card.simps [simp del]

definition mmc_init :: "'h mmc_ops \<Rightarrow> 'h mmcs \<Rightarrow> (int \<times> 'h mmcs) res" where
  "mmc_init H s =
     (if has_init (dev s) then Inr (0, s) else
      thenE (bindE (init_fn H (dev s) (host s)) (\<lambda>(err, h). Inr (err, s\<lparr>host := h\<rparr>))) (\<lambda>s.
      bindE (mmc_set_bus_width H 1 s) (\<lambda>s.
      bindE (mmc_set_clock H 1 s) (\<lambda>s.
      init_card H 1 s))))"

definition CONFIG_SYS_MMC_MAX_BLK_COUNT :: u32 where "CONFIG_SYS_MMC_MAX_BLK_COUNT = 65535"

text \<open>The registered pointer refers to the struct that the initialisation goes on to change.\<close>

definition mmc_register ::
    "'h mmc_ops \<Rightarrow> int \<Rightarrow> 'h mmcs \<Rightarrow> 'h mmcs option list \<Rightarrow> (int \<times> 'h mmcs option list) res" where
  "mmc_register H n s devs =
     (if \<not> (0 \<le> n \<and> nat n < length devs) then Inl (Undefined ''mmc_devices: bad index'') else
      let s = upd (\<lambda>m. if b_max m = 0 then m\<lparr>b_max := CONFIG_SYS_MMC_MAX_BLK_COUNT\<rparr> else m) s in
      bindE (mmc_init H s) (\<lambda>(err, s). Inr (err, devs[nat n := Some s])))"

definition mmc_unregister :: "int \<Rightarrow> 'h mmcs option list \<Rightarrow> (int \<times> 'h mmcs option list) res" where
  "mmc_unregister n devs =
     (if 0 \<le> n \<and> nat n < length devs then Inr (0, devs[nat n := None])
      else Inl (Undefined ''mmc_devices: bad index''))"

end
