(* ===== verification/Mmc_Correct.thy ===== *)
theory Mmc_Correct
  imports Mmc
begin

text \<open>
  Correctness of the SD/MMC core: block reads return the card's blocks whatever the chunk size, start-up
  leaves a consistent device, and the retry and polling loops end.
\<close>

section \<open>Hosts\<close>

text \<open>
  What the driver relies on of a controller with a working card: every command succeeds, and a read
  command stores the addressed blocks in the buffer. \<open>content h\<close> is the content of the card by block.
\<close>

definition block_address :: "mmc \<Rightarrow> mmc_cmd \<Rightarrow> nat" where
  "block_address m c = (if high_capacity m then unat (cmdarg c) else unat (cmdarg c) div 512)"

definition is_read :: "mmc_cmd \<Rightarrow> bool" where
  "is_read c \<longleftrightarrow> cmdidx c = MMC_CMD_READ_SINGLE_BLOCK \<or> cmdidx c = MMC_CMD_READ_MULTIPLE_BLOCK"

definition working_host :: "'h mmc_ops \<Rightarrow> ('h \<Rightarrow> bool) \<Rightarrow> ('h \<Rightarrow> nat \<Rightarrow> byte list) \<Rightarrow> bool" where
  "working_host H ok content \<longleftrightarrow>
     (\<forall>m c d h. ok h \<longrightarrow> (\<exists>r b h'. send_cmd_fn H m c d h = Inr ((0, r, b), h') \<and> ok h' \<and> content h' = content h \<and>
        (\<forall>n. is_read c \<longrightarrow> d = Some (rd_data n 512) \<longrightarrow>
           b = concat (map (content h) [block_address m c..<block_address m c + unat n]))))"

lemma working_hostE:
  assumes "working_host H ok content" and "ok h"
  obtains r b h' where "send_cmd_fn H m c d h = Inr ((0, r, b), h')" and "ok h'" and "content h' = content h"
    and "\<And>n. is_read c \<Longrightarrow> d = Some (rd_data n 512) \<Longrightarrow>
      b = concat (map (content h) [block_address m c..<block_address m c + unat n])"
  using assms unfolding working_host_def by metis

text \<open>The device after a command that succeeded: only the host state may differ.\<close>

definition same_dev :: "('h \<Rightarrow> bool) \<Rightarrow> ('h \<Rightarrow> nat \<Rightarrow> byte list) \<Rightarrow> 'h mmcs \<Rightarrow> 'h mmcs \<Rightarrow> bool" where
  "same_dev ok content s s' \<longleftrightarrow> dev s' = dev s \<and> mmc_arg_addr s' = mmc_arg_addr s \<and> ok (host s') \<and>
     content (host s') = content (host s)"

lemma same_dev_trans: "same_dev ok content s s' \<Longrightarrow> same_dev ok content s' s'' \<Longrightarrow> same_dev ok content s s''"
  by (simp add: same_dev_def)

lemma mmc_send_cmd_ok:
  assumes "working_host H ok content" and "ok (host s)"
  obtains r b s' where "mmc_send_cmd H c d s = Inr ((0, r, b), s')" and "same_dev ok content s s'"
    and "\<And>n. is_read c \<Longrightarrow> d = Some (rd_data n 512) \<Longrightarrow>
      b = concat (map (content (host s)) [block_address (dev s) c..<block_address (dev s) c + unat n])"
proof (rule working_hostE [OF assms, of "dev s" c d])
  fix r b h'
  assume h: "send_cmd_fn H (dev s) c d (host s) = Inr ((0, r, b), h')" "ok h'" "content h' = content (host s)"
    and b: "\<And>n. is_read c \<Longrightarrow> d = Some (rd_data n 512) \<Longrightarrow>
      b = concat (map (content (host s)) [block_address (dev s) c..<block_address (dev s) c + unat n])"
  show thesis
    by (rule that [of r b "s\<lparr>host := h'\<rparr>"]) (use h b in \<open>simp_all add: mmc_send_cmd_def same_dev_def\<close>)
qed

lemma simple_cmd_ok:
  assumes "working_host H ok content" and "ok (host s)"
  obtains s' where "simple_cmd H c s = Inr (0, s')" and "same_dev ok content s s'"
proof (rule mmc_send_cmd_ok [OF assms, of c None])
  fix r b s' assume "mmc_send_cmd H c None s = Inr ((0, r, b), s')" "same_dev ok content s s'"
  then show thesis using that by (simp add: simple_cmd_def)
qed

lemma mmc_send_status_ok:
  assumes "working_host H ok content" and "ok (host s)"
  shows "\<exists>e s'. mmc_send_status H t s = Inr (e, s') \<and> same_dev ok content s s'"
  using assms(2)
proof (induction t arbitrary: s)
  case 0
  show ?case
  proof (rule mmc_send_cmd_ok [OF assms(1) 0, of "cmd MMC_CMD_SEND_STATUS MMC_RSP_R1 (push_bit 16 (rca (dev s)))" None])
    fix r b s1
    assume "mmc_send_cmd H (cmd MMC_CMD_SEND_STATUS MMC_RSP_R1 (push_bit 16 (rca (dev s)))) None s = Inr ((0, r, b), s1)"
      and "same_dev ok content s s1"
    then show ?thesis by (simp add: mmc_send_status.simps [of H 0] resp_cmd_def)
  qed
next
  case (Suc t)
  show ?case
  proof (rule mmc_send_cmd_ok [OF assms(1) Suc.prems, of "cmd MMC_CMD_SEND_STATUS MMC_RSP_R1 (push_bit 16 (rca (dev s)))" None])
    fix r b s1
    assume s1: "mmc_send_cmd H (cmd MMC_CMD_SEND_STATUS MMC_RSP_R1 (push_bit 16 (rca (dev s)))) None s = Inr ((0, r, b), s1)"
      "same_dev ok content s s1"
    then obtain e s2 where "mmc_send_status H t s1 = Inr (e, s2)" "same_dev ok content s1 s2"
      using Suc.IH [of s1] by (auto simp: same_dev_def)
    then show ?thesis
      using s1 same_dev_trans [OF s1(2)] by (simp add: mmc_send_status.simps [of H "Suc t"] resp_cmd_def)
  qed
qed

section \<open>Block reads\<close>

lemma mmc_read_blocks_ok:
  assumes w: "working_host H ok content" and h: "ok (host s)" and bl: "read_bl_len (dev s) = 512"
    and hc: "high_capacity (dev s) \<Longrightarrow> unat start < 2 ^ 32"
    and sc: "\<not> high_capacity (dev s) \<Longrightarrow> unat start * 512 < 2 ^ 32"
  shows "\<exists>s'. mmc_read_blocks H start n s
      = Inr ((n, concat (map (content (host s)) [unat start..<unat start + unat n])), s') \<and> same_dev ok content s s'"
proof -
  let ?idx = "if n > 1 then MMC_CMD_READ_MULTIPLE_BLOCK else MMC_CMD_READ_SINGLE_BLOCK"
  let ?a = "if high_capacity (dev s) then ucast start else ucast (start * ucast (read_bl_len (dev s))) :: u32"
  let ?c = "cmd ?idx MMC_RSP_R1 ?a"
  have rd: "is_read ?c" by (simp add: is_read_def)
  have addr: "block_address (dev s) ?c = unat start"
  proof (cases "high_capacity (dev s)")
    case True
    then show ?thesis using hc by (simp add: block_address_def unat_ucast_32)
  next
    case False
    have "unat (start * 512) = unat start * 512" using sc [OF False] by (simp add: unat_word_ariths)
    then show ?thesis using False sc [OF False] bl by (simp add: block_address_def unat_ucast_32)
  qed
  show ?thesis
  proof (rule mmc_send_cmd_ok [OF w h, of ?c "Some (rd_data n (read_bl_len (dev s)))"])
    fix r b s1
    assume s1: "mmc_send_cmd H ?c (Some (rd_data n (read_bl_len (dev s)))) s = Inr ((0, r, b), s1)"
      "same_dev ok content s s1"
      and b: "\<And>k. is_read ?c \<Longrightarrow> Some (rd_data n (read_bl_len (dev s))) = Some (rd_data k 512) \<Longrightarrow>
        b = concat (map (content (host s)) [block_address (dev s) ?c..<block_address (dev s) ?c + unat k])"
    have b': "b = concat (map (content (host s)) [unat start..<unat start + unat n])"
      using b [OF rd, of n] bl addr by simp
    show ?thesis
    proof (cases "n > 1")
      case False
      then show ?thesis using s1 b' by (simp add: mmc_read_blocks_def Let_def)
    next
      case True
      have ok1: "ok (host s1)" using s1(2) by (simp add: same_dev_def)
      obtain s2 where s2: "simple_cmd H (cmd MMC_CMD_STOP_TRANSMISSION MMC_RSP_R1b 0) s1 = Inr (0, s2)"
        "same_dev ok content s1 s2"
        by (rule simple_cmd_ok [OF w ok1])
      then obtain e s3 where "mmc_send_status H 1000 s2 = Inr (e, s3)" "same_dev ok content s2 s3"
        using mmc_send_status_ok [OF w, of s2 1000] by (auto simp: same_dev_def)
      then show ?thesis
        using True s1 s2 b' same_dev_trans [OF s1(2) same_dev_trans [OF s2(2)]]
        by (simp add: mmc_read_blocks_def Let_def)
    qed
  qed
qed

lemma put_at_append:
  assumes "off + length a + length b \<le> length dst"
  shows "put_at (put_at dst off a) (off + length a) b = put_at dst off (a @ b)"
  using assms by (simp add: put_at_def min_absorb2 ac_simps)

lemma length_blocks: "(\<And>i. length (f i) = 512) \<Longrightarrow> length (concat (map f [a..<a + n])) = n * 512"
  by (induction n) auto

lemma bread_loop_ok:
  assumes w: "working_host H ok content" and blk: "\<And>i. length (content h0 i) = 512"
  shows "ok (host s) \<Longrightarrow> content (host s) = content h0 \<Longrightarrow> read_bl_len (dev s) = 512 \<Longrightarrow>
    0 < unat (b_max (dev s)) \<Longrightarrow> unat (b_max (dev s)) < 2 ^ 23 \<Longrightarrow> 0 < unat todo \<Longrightarrow> unat start + unat todo < 2 ^ 32 \<Longrightarrow>
    (\<not> high_capacity (dev s) \<longrightarrow> (unat start + unat todo) * 512 \<le> 2 ^ 32) \<Longrightarrow> off + unat todo * 512 \<le> length dst \<Longrightarrow>
    \<exists>s'. bread_loop H blkcnt start todo off dst s =
        Some (Inr ((blkcnt, put_at dst off (concat (map (content h0) [unat start..<unat start + unat todo]))), s')) \<and>
      same_dev ok content s s'"
proof (induction "unat todo" arbitrary: todo start off dst s rule: less_induct)
  case less
  define k where "k = (if todo > b_max (dev s) then b_max (dev s) else todo)"
  have n: "0 < unat k" "unat k \<le> unat todo" "unat k < 2 ^ 23 \<or> k = todo" "unat k \<le> unat (b_max (dev s))"
    using less.prems(4-6) by (auto simp: k_def word_less_nat_alt word_le_nat_alt not_less)
  have n23: "unat k < 2 ^ 23" using n(4) less.prems(5) by linarith
  obtain s1 where s1: "mmc_read_blocks H start k s =
      Inr ((k, concat (map (content (host s)) [unat start..<unat start + unat k])), s1)" "same_dev ok content s s1"
    using mmc_read_blocks_ok [OF w less.prems(1,3), of start k] less.prems(6-8) by fastforce
  let ?d = "concat (map (content h0) [unat start..<unat start + unat k])"
  have len: "length ?d = unat k * 512" using length_blocks [OF blk] by simp
  have fit: "off + length ?d \<le> length dst" using len n(2) less.prems(9) by simp
  have st: "buf_store dst off ?d = Inr (put_at dst off ?d)" using fit by (simp add: buf_store_def)
  have dev: "dev s1 = dev s" "ok (host s1)" "content (host s1) = content h0"
    using s1(2) less.prems(2) by (simp_all add: same_dev_def)
  have left: "unat (todo - k) = unat todo - unat k" using n(2) by (simp add: unat_sub word_le_nat_alt)
  note unf = bread_loop.simps [of H blkcnt start todo off dst s, folded k_def]
  show ?case
  proof (cases "0 < unat todo - unat k")
    case False
    then have "k = todo" using n(2) by (simp add: word_unat_eq_iff)
    then show ?thesis using s1 st less.prems(2) unfolding unf by (simp add: Let_def)
  next
    case True
    have start': "unat (start + ucast k) = unat start + unat k"
      using less.prems(7) n(2) by (simp add: unat_word_ariths unat_ucast_64)
    have off': "off + unat (k * read_bl_len (dev s)) = off + length ?d"
      using n23 len less.prems(3) by (simp add: unat_word_ariths)
    have "\<exists>s'. bread_loop H blkcnt (start + ucast k) (todo - k) (off + length ?d) (put_at dst off ?d) s1 =
        Some (Inr ((blkcnt, put_at (put_at dst off ?d) (off + length ?d)
          (concat (map (content h0) [unat (start + ucast k)..<unat (start + ucast k) + unat (todo - k)]))), s')) \<and>
        same_dev ok content s1 s'"
    proof (rule less.hyps)
      show "unat (todo - k) < unat todo" using left n(1,2) by simp
      show "off + length ?d + unat (todo - k) * 512 \<le> length (put_at dst off ?d)"
        unfolding length_put_at [OF fit] left len using n(2) less.prems(9) by (simp add: algebra_simps)
    qed (use dev less.prems n left start' True in \<open>simp_all\<close>)
    then obtain s' where s': "bread_loop H blkcnt (start + ucast k) (todo - k) (off + length ?d) (put_at dst off ?d) s1 =
        Some (Inr ((blkcnt, put_at (put_at dst off ?d) (off + length ?d)
          (concat (map (content h0) [unat start + unat k..<unat start + unat todo]))), s'))"
      "same_dev ok content s1 s'"
      unfolding start' left using n(2) by auto
    have cat: "?d @ concat (map (content h0) [unat start + unat k..<unat start + unat todo])
        = concat (map (content h0) [unat start..<unat start + unat todo])"
    proof -
      have "[unat start..<unat start + unat todo]
          = [unat start..<unat start + unat k] @ [unat start + unat k..<unat start + unat todo]"
        using n(2) upt_add_eq_append [of "unat start" "unat start + unat k" "unat todo - unat k"] by simp
      then show ?thesis by simp
    qed
    have fit2: "off + length ?d + length (concat (map (content h0) [unat start + unat k..<unat start + unat todo])) \<le> length dst"
    proof -
      have "unat start + unat todo = (unat start + unat k) + (unat todo - unat k)" using n(2) by simp
      then have "length (concat (map (content h0) [unat start + unat k..<unat start + unat todo])) = (unat todo - unat k) * 512"
        using length_blocks [OF blk, where a = "unat start + unat k" and n = "unat todo - unat k"] by simp
      then show ?thesis using len n(2) less.prems(9) by (simp add: algebra_simps)
    qed
    have gt: "todo - k > 0" using True left by (simp add: word_less_nat_alt)
    have "bread_loop H blkcnt start todo off dst s =
        Some (Inr ((blkcnt, put_at dst off (concat (map (content h0) [unat start..<unat start + unat todo]))), s'))"
      by (subst unf) (simp only: Let_def s1(1) bindO_simps prod.case less.prems(2) st dev(1) off' s'(1) gt if_True
          if_False simp_thms put_at_append [OF fit2] cat)
    then show ?thesis using same_dev_trans [OF s1(2) s'(2)] by blast
  qed
qed

text \<open>An ideal controller and card: the host state is the content of the card.\<close>

definition ideal_ops :: "(u32 \<Rightarrow> u32 list) \<Rightarrow> (nat \<Rightarrow> byte list) mmc_ops" where
  "ideal_ops resp =
     \<lparr>send_cmd_fn = (\<lambda>m c d h. Inr ((0, resp (cmdidx c),
        case d of None \<Rightarrow> [] | Some d \<Rightarrow>
          concat (map h [block_address m c..<block_address m c + unat (blocks d)])), h)),
      set_ios_fn = (\<lambda>m h. Inr (clock m, h)), init_fn = (\<lambda>m h. Inr (0, h)), update_phase_fn = None,
      host_caps_r_fn = (\<lambda>b m h. Inr (m, h))\<rparr>"

lemma ideal_working: "working_host (ideal_ops resp) (\<lambda>_. True) (\<lambda>h. h)"
  by (simp add: working_host_def ideal_ops_def)

definition sample_mmc :: mmc where
  "sample_mmc =
     \<lparr>voltages = 0, version = SD_VERSION_2, has_init = True, control_num = 0, f_min = 400000, f_max = 50000000,
      f_max_ddr = 50000000, high_capacity = True, bus_width = 4, clock = 50000000, card_caps = 0, host_caps = 0,
      ocr = 0, scr = [0, 0], csd = [0, 0, 0, 0], cid = [0, 0, 0, 0], rca = 1, part_config = 0, part_num = 0,
      tran_speed = 0, read_bl_len = 512, write_bl_len = 512, erase_grp_size = 1, capacity = 0x80000000,
      b_max = 2, lba = 0x400000, blksz = 512, speed_mode = 0\<rparr>"

definition sample_sd :: "(nat \<Rightarrow> byte list) \<Rightarrow> (nat \<Rightarrow> byte list) mmcs" where
  "sample_sd c = \<lparr>dev = sample_mmc, host = c, mmc_arg_addr = replicate 512 0\<rparr>"

lemma mmc_bread_ok:
  assumes w: "working_host H ok content" and d: "n = 0 \<or> n = 1" "devs ! nat n = Some s" "length devs = 2"
    and h: "ok (host s)" "\<forall>i. length (content (host s) i) = 512"
    and bl: "read_bl_len (dev s) = 512" "0 < b_max (dev s)" "unat (b_max (dev s)) < 2 ^ 23"
    and rng: "0 < blkcnt" "unat start + unat blkcnt \<le> unat (lba (dev s))"
      "high_capacity (dev s) \<or> unat (lba (dev s)) * 512 \<le> 2 ^ 32"
    and fit: "unat blkcnt * 512 \<le> length dst"
  shows "\<exists>s'. mmc_bread H n start blkcnt dst devs =
      Some (Inr ((blkcnt, put_at dst 0 (concat (map (content (host s)) [unat start..<unat start + unat blkcnt]))),
        devs[nat n := Some s'])) \<and> dev s' = dev s \<and> content (host s') = content (host s) \<and> ok (host s')"
proof -
  have l32: "unat (lba (dev s)) < 2 ^ 32" using unsigned_less [of "lba (dev s)", where ?'a = nat] by simp
  have f: "find_mmc_device n devs = Inr (Some s)" using d by (auto simp: find_mmc_device_def)
  have nz: "blkcnt \<noteq> 0" using rng(1) by auto
  have sum: "unat (start + ucast blkcnt) = unat start + unat blkcnt"
    using rng(2) l32 by (simp add: unat_word_ariths unat_ucast_64)
  have in_range: "\<not> start + ucast blkcnt > ucast (lba (dev s))"
    using rng(2) by (simp add: word_less_nat_alt sum unat_ucast_64)
  obtain s1 where s1: "mmc_set_blocklen H (read_bl_len (dev s)) s = Inr (0, s1)" "same_dev ok content s s1"
  proof (cases "speed_mode (dev s) = HSDDR52_DDR50 \<or> speed_mode (dev s) = HS400")
    case True
    then show ?thesis using that [of s] h(1) by (simp add: mmc_set_blocklen_def same_dev_def)
  next
    case False
    show ?thesis
      by (rule simple_cmd_ok [OF w h(1), of "cmd MMC_CMD_SET_BLOCKLEN MMC_RSP_R1 (read_bl_len (dev s))"])
        (rule that, use False in \<open>simp_all add: mmc_set_blocklen_def\<close>)
  qed
  have blk: "\<And>i. length (content (host s) i) = 512" using h(2) by blast
  have "\<exists>s'. bread_loop H blkcnt start blkcnt 0 dst s1 =
      Some (Inr ((blkcnt, put_at dst 0 (concat (map (content (host s)) [unat start..<unat start + unat blkcnt]))), s')) \<and>
    same_dev ok content s1 s'"
  proof (rule bread_loop_ok [OF w blk])
    show "0 < unat (b_max (dev s1))" using bl(2) s1(2) by (simp add: same_dev_def word_less_nat_alt)
    show "0 < unat blkcnt" using rng(1) by (simp add: word_less_nat_alt)
  qed (use s1(2) bl rng l32 fit in \<open>auto simp: same_dev_def\<close>)
  then obtain s' where s': "bread_loop H blkcnt start blkcnt 0 dst s1 =
      Some (Inr ((blkcnt, put_at dst 0 (concat (map (content (host s)) [unat start..<unat start + unat blkcnt]))), s'))"
    "same_dev ok content s1 s'" by blast
  have "mmc_bread H n start blkcnt dst devs =
      Some (Inr ((blkcnt, put_at dst 0 (concat (map (content (host s)) [unat start..<unat start + unat blkcnt]))),
        devs[nat n := Some s']))"
    unfolding mmc_bread_def f using nz in_range s1(1) s'(1) by simp
  then show ?thesis using same_dev_trans [OF s1(2) s'(2)] unfolding same_dev_def by blast
qed

text \<open>
  C18: On a controller whose commands succeed, mmc_bread of a range inside the card returns, and it
  returns the requested count with exactly the card's blocks of that range stored at the start of the
  buffer, for every chunk limit b_max from 1 to 2^23 - 1 and both addressing modes; the card does not change.
\<close>

theorem mmc_bread_reads:
  assumes w: "working_host H ok content" and d: "n = 0 \<or> n = 1" "devs ! nat n = Some s" "length devs = 2"
    and h: "ok (host s)" "\<forall>i. length (content (host s) i) = 512"
    and bl: "read_bl_len (dev s) = 512" "0 < b_max (dev s)" "unat (b_max (dev s)) < 2 ^ 23"
    and rng: "0 < blkcnt" "unat start + unat blkcnt \<le> unat (lba (dev s))"
      "high_capacity (dev s) \<or> unat (lba (dev s)) * 512 \<le> 2 ^ 32"
    and fit: "unat blkcnt * 512 \<le> length dst"
  shows "\<exists>s'. mmc_bread H n start blkcnt dst devs =
      Some (Inr ((blkcnt, put_at dst 0 (concat (map (content (host s)) [unat start..<unat start + unat blkcnt]))),
        devs[nat n := Some s'])) \<and> dev s' = dev s \<and> content (host s') = content (host s) \<and> ok (host s')"
  by (rule mmc_bread_ok [OF assms])

theorem mmc_bread_reads_witness:
  "\<exists>s'. mmc_bread (ideal_ops (\<lambda>_. [0x100])) 0 7 3 (replicate 1536 0)
       [Some (sample_sd (\<lambda>i. replicate 512 (word_of_nat i))), None] =
     Some (Inr ((3, replicate 512 7 @ replicate 512 8 @ replicate 512 9), [Some s', None]))"
proof -
  let ?c = "\<lambda>i. replicate 512 (word_of_nat i) :: byte list"
  have "\<exists>s'. mmc_bread (ideal_ops (\<lambda>_. [0x100])) 0 7 3 (replicate 1536 0) [Some (sample_sd ?c), None] =
      Some (Inr ((3, put_at (replicate 1536 0) 0 (concat (map (host (sample_sd ?c)) [unat (7 :: u64)..<unat (7 :: u64) + unat (3 :: u32)]))),
        [Some (sample_sd ?c), None][nat 0 := Some s'])) \<and>
      dev s' = dev (sample_sd ?c) \<and> host s' = host (sample_sd ?c) \<and> True"
    by (rule mmc_bread_reads [OF ideal_working]) (simp_all add: sample_sd_def sample_mmc_def)
  moreover have "put_at (replicate 1536 0) 0 (concat (map ?c [unat (7 :: u64)..<unat (7 :: u64) + unat (3 :: u32)]))
      = replicate 512 7 @ replicate 512 8 @ replicate 512 9"
    by (simp add: put_at_def upt_rec)
  ultimately show ?thesis by (auto simp: sample_sd_def)
qed

section \<open>Polling the status\<close>

text \<open>
  C36: mmc_send_status does not report a timeout: if the card answers every poll as busy and without an
  error, the loop ends after timeout + 1 commands and the function returns 0, as for a ready card;
  the value TIMEOUT is returned only when the card becomes ready in the last round.
\<close>

theorem mmc_send_status_timeout:
  assumes "\<forall>m c d h. send_cmd_fn H m c d h = Inr ((0, [r], []), h + 1)"
  shows "(r AND MMC_STATUS_RDY_FOR_DATA = 0 \<longrightarrow> r AND MMC_STATUS_MASK = 0 \<longrightarrow>
      mmc_send_status H t s = Inr (0, s\<lparr>host := host s + (1 + int t)\<rparr>)) \<and>
    (r AND MMC_STATUS_RDY_FOR_DATA \<noteq> 0 \<longrightarrow> mmc_send_status H 0 s = Inr (TIMEOUT, s\<lparr>host := host s + 1\<rparr>))"
proof
  have cmd: "mmc_send_cmd H c d s = Inr ((0, [r], []), s\<lparr>host := host s + 1\<rparr>)" for c d s
    using assms by (simp add: mmc_send_cmd_def)
  show "r AND MMC_STATUS_RDY_FOR_DATA = 0 \<longrightarrow> r AND MMC_STATUS_MASK = 0 \<longrightarrow>
      mmc_send_status H t s = Inr (0, s\<lparr>host := host s + (1 + int t)\<rparr>)"
  proof (induction t arbitrary: s)
    case (Suc t)
    show ?case using Suc [of "s\<lparr>host := host s + 1\<rparr>"]
      by (simp add: mmc_send_status.simps [of H "Suc t"] resp_cmd_def cmd ac_simps)
  qed (simp add: mmc_send_status.simps resp_cmd_def cmd)
  show "r AND MMC_STATUS_RDY_FOR_DATA \<noteq> 0 \<longrightarrow> mmc_send_status H 0 s = Inr (TIMEOUT, s\<lparr>host := host s + 1\<rparr>)"
    by (simp add: mmc_send_status.simps resp_cmd_def cmd)
qed

definition busy_ops :: "u32 \<Rightarrow> int mmc_ops" where
  "busy_ops r =
     \<lparr>send_cmd_fn = (\<lambda>m c d h. Inr ((0, [r], []), h + 1)), set_ios_fn = (\<lambda>m h. Inr (clock m, h)),
      init_fn = (\<lambda>m h. Inr (0, h)), update_phase_fn = None, host_caps_r_fn = (\<lambda>b m h. Inr (m, h))\<rparr>"

theorem mmc_send_status_timeout_witness:
  "mmc_send_status (busy_ops 0) 1000 \<lparr>dev = sample_mmc, host = 0, mmc_arg_addr = []\<rparr>
     = Inr (0, \<lparr>dev = sample_mmc, host = 1001, mmc_arg_addr = []\<rparr>)"
  using mmc_send_status_timeout [of "busy_ops 0" 0 1000 "\<lparr>dev = sample_mmc, host = 0, mmc_arg_addr = []\<rparr>"]
  by (simp add: busy_ops_def)

section \<open>Decoding\<close>

lemma low_byte_masks:
  "(0xff :: u32) = mask 8" "(0xff00 :: u32) = push_bit 8 (mask 8)" "(0xff0000 :: u32) = push_bit 16 (mask 8)"
  "(0xff000000 :: u32) = push_bit 24 (mask 8)"
  by (simp_all add: mask_eq_exp_minus_1)

lemma be32_bytes:
  "be32_to_cpu x = u32_of_bytes (byte_of x 3) (byte_of x 2) (byte_of x 1) (byte_of x 0)" (is "_ = ?w")
  "mmc_be32_to_cpu x = u32_of_bytes (byte_of x 3) (byte_of x 2) (byte_of x 1) (byte_of x 0)"
proof -
  have r: "n < 8 \<or> 8 \<le> n \<and> n < 16 \<or> 16 \<le> n \<and> n < 24 \<or> 24 \<le> n" for n :: nat by linarith
  have w: "bit ?w n = bit x (if n < 8 then n + 24 else if n < 16 then n + 8 else if n < 24 then n - 8 else n - 24)"
    if "n < 32" for n
    using r [of n] that by (elim disjE) (auto simp: u32_of_bytes_def byte_of_def bit_simps ac_simps)
  have a: "bit (be32_to_cpu x) n = bit x (if n < 8 then n + 24 else if n < 16 then n + 8 else if n < 24 then n - 8 else n - 24)"
    if "n < 32" for n
    using r [of n] that unfolding be32_to_cpu_def low_byte_masks by (elim disjE) (auto simp: bit_simps ac_simps)
  have b: "bit (mmc_be32_to_cpu x) n = bit x (if n < 8 then n + 24 else if n < 16 then n + 8 else if n < 24 then n - 8 else n - 24)"
    if "n < 32" for n
    using r [of n] that unfolding mmc_be32_to_cpu_def low_byte_masks by (elim disjE) (auto simp: bit_simps ac_simps)
  show "be32_to_cpu x = ?w" by (rule bit_word_eqI) (use w a in simp)
  show "mmc_be32_to_cpu x = ?w" by (rule bit_word_eqI) (use w b in simp)
qed

lemma csd_masks:
  "(0x3f :: u32) = mask 6" "(0x3ff :: u32) = mask 10" "(0xffff0000 :: u32) = NOT (mask 16)"
  "(0xc0000000 :: u32) = NOT (mask 30)" "(0x00038000 :: u32) = push_bit 15 (mask 3)"
  by (simp_all add: mask_eq_exp_minus_1)

lemma csd_csize:
  "unat (push_bit 16 (a AND 0x3f) OR drop_bit 16 (b AND 0xffff0000) :: u32) = (unat a mod 64) * 65536 + unat b div 65536"
  "unat (push_bit 2 (a AND 0x3ff) OR drop_bit 30 (b AND 0xc0000000) :: u32) = (unat a mod 1024) * 4 + unat b div 2 ^ 30"
  "unat (drop_bit 15 (b AND 0x00038000) :: u32) = unat b div 2 ^ 15 mod 8"
proof -
  have b: "unat b < 2 ^ 32" using unsigned_less [of b, where ?'a = nat] by simp
  have m: "unat (a AND mask 6) = unat a mod 64" "unat (a AND mask 10) = unat a mod 1024" by (simp_all add: unat_and_mask)
  show "unat (push_bit 16 (a AND 0x3f) OR drop_bit 16 (b AND 0xffff0000) :: u32) = (unat a mod 64) * 65536 + unat b div 65536"
    unfolding csd_masks drop_bit_and_not_mask using field_or [of "a AND mask 6" 16 "drop_bit 16 b"] b
    unfolding m unat_drop_bit by (simp add: less_mult_imp_div_less)
  show "unat (push_bit 2 (a AND 0x3ff) OR drop_bit 30 (b AND 0xc0000000) :: u32) = (unat a mod 1024) * 4 + unat b div 2 ^ 30"
    unfolding csd_masks drop_bit_and_not_mask using field_or [of "a AND mask 10" 2 "drop_bit 30 b"] b
    unfolding m unat_drop_bit by (simp add: less_mult_imp_div_less)
  have "drop_bit 15 (b AND push_bit 15 (mask 3)) = drop_bit 15 b AND mask 3"
    by (rule bit_word_eqI) (auto simp: bit_simps)
  then show "unat (drop_bit 15 (b AND 0x00038000) :: u32) = unat b div 2 ^ 15 mod 8"
    unfolding csd_masks by (simp add: unat_and_mask unat_drop_bit)
qed
text \<open>
  C31: The two byte-swapping macros of the driver agree, swapping twice is the identity, and the
  swap reads the four bytes of a cell in big-endian order.
\<close>

theorem be32_swaps_agree:
  "mmc_be32_to_cpu x = be32_to_cpu x \<and> be32_to_cpu (be32_to_cpu x) = x \<and>
   be32_to_cpu (u32_of_bytes b0 b1 b2 b3) = u32_of_bytes b3 b2 b1 b0"
  by (simp add: be32_bytes)

lemma capacity_product:
  assumes "unat (cs :: u32) < 2 ^ 22" and "k \<le> 10" and "unat (bl :: u32) \<le> 2 ^ 15"
  shows "unat (push_bit k (ucast cs + 1) * ucast bl :: u64) = (unat cs + 1) * 2 ^ k * unat bl"
proof -
  have c1: "unat (ucast cs + 1 :: u64) = unat cs + 1" using assms(1) by (simp add: unat_word_ariths unat_ucast_64)
  have k: "(2 :: nat) ^ k \<le> 2 ^ 10" using assms(2) by (intro power_increasing) auto
  have p1: "(unat cs + 1) * 2 ^ k \<le> 2 ^ 22 * 2 ^ 10" using assms(1) k by (intro mult_mono) auto
  have "unat (push_bit k (ucast cs + 1) :: u64) = (unat cs + 1) * 2 ^ k"
    unfolding unsigned_push_bit_eq c1 using p1 by (simp add: push_bit_eq_mult take_bit_nat_eq_self)
  moreover have "(unat cs + 1) * 2 ^ k * unat bl \<le> 2 ^ 22 * 2 ^ 10 * 2 ^ 15" by (intro mult_mono p1 assms(3)) auto
  ultimately show ?thesis by (simp add: unat_word_ariths(2) unat_ucast_64)
qed

lemma csd_capacity_value:
  assumes "unat bl \<le> 2 ^ 15"
  shows "unat (csd_capacity hc c bl) =
    (if hc then (unat (c ! 1) mod 64 * 65536 + unat (c ! 2) div 65536 + 1) * 1024
     else (unat (c ! 1) mod 1024 * 4 + unat (c ! 2) div 2 ^ 30 + 1) * 2 ^ (unat (c ! 2) div 2 ^ 15 mod 8 + 2)) * unat bl"
proof -
  have c2: "unat (c ! 2) < 2 ^ 32" using unsigned_less [of "c ! 2", where ?'a = nat] by simp
  show ?thesis
  proof (cases hc)
    case True
    have "unat (c ! 2) div 65536 < 65536" using c2 by (simp add: less_mult_imp_div_less)
    moreover have "unat (c ! 1) mod 64 < 64" by simp
    ultimately have "unat (c ! 1) mod 64 * 65536 + unat (c ! 2) div 65536 < 2 ^ 22" by simp
    then show ?thesis
      using True capacity_product [of "push_bit 16 (c ! 1 AND 0x3f) OR drop_bit 16 (c ! 2 AND 0xffff0000)" 10 bl] assms
      unfolding csd_capacity_def Let_def csd_csize by simp
  next
    case False
    have "unat (c ! 2) div 2 ^ 30 < 4" using c2 by (simp add: less_mult_imp_div_less)
    moreover have "unat (c ! 1) mod 1024 < 1024" by simp
    ultimately have "unat (c ! 1) mod 1024 * 4 + unat (c ! 2) div 2 ^ 30 < 2 ^ 22" by simp
    moreover have "unat (c ! 2) div 2 ^ 15 mod 8 + 2 \<le> 10" by (simp add: less_Suc_eq_le [symmetric] order_less_le_trans)
    ultimately have cp: "unat (push_bit (unat (c ! 2) div 2 ^ 15 mod 8 + 2)
          (ucast (push_bit 2 (c ! 1 AND 0x3ff) OR drop_bit 30 (c ! 2 AND 0xc0000000)) + 1) * ucast bl :: u64) =
        (unat (c ! 1) mod 1024 * 4 + unat (c ! 2) div 2 ^ 30 + 1) * 2 ^ (unat (c ! 2) div 2 ^ 15 mod 8 + 2) * unat bl"
      using capacity_product [of "push_bit 2 (c ! 1 AND 0x3ff) OR drop_bit 30 (c ! 2 AND 0xc0000000)"
          "unat (c ! 2) div 2 ^ 15 mod 8 + 2" bl, OF _ _ assms] unfolding csd_csize by blast
    show ?thesis unfolding csd_capacity_def Let_def by (simp only: False if_False csd_csize(3) cp)
  qed
qed

lemma unat_one_shift: "k < 32 \<Longrightarrow> unat (push_bit k 1 :: u32) = 2 ^ k"
  unfolding unsigned_push_bit_eq by (simp add: push_bit_eq_mult take_bit_nat_eq_self)

text \<open>
  C24: The capacity decoded from the CSD is (C\_SIZE + 1) * 512 KB per 512-byte unit for a
  high-capacity card, and (C\_SIZE + 1) * 2^(C\_SIZE\_MULT + 2) * 2^READ\_BL\_LEN bytes otherwise, with no overflow in
  64 bits; the block lengths are at most 512 afterwards.
\<close>

theorem csd_fields_capacity:
  assumes "csd_fields r m = Inr m'" and "length r = 4"
  shows "unat (capacity m') =
      (if high_capacity m then (unat (r ! 1) mod 64 * 65536 + unat (r ! 2) div 65536 + 1) * 1024
       else (unat (r ! 1) mod 1024 * 4 + unat (r ! 2) div 2 ^ 30 + 1) * 2 ^ (unat (r ! 2) div 2 ^ 15 mod 8 + 2))
      * 2 ^ (unat (r ! 1) div 2 ^ 16 mod 16) \<and>
    unat (read_bl_len m') = min 512 (2 ^ (unat (r ! 1) div 2 ^ 16 mod 16)) \<and> unat (write_bl_len m') \<le> 512"
proof -
  define k where "k = unat (drop_bit 16 (r ! 1) AND 0xf)"
  have m4: "(0xf :: u32) = mask 4" by (simp add: mask_eq_exp_minus_1)
  have k: "k = unat (r ! 1) div 2 ^ 16 mod 16" unfolding k_def m4 unat_and_mask unat_drop_bit by simp
  have bl: "unat (push_bit k 1 :: u32) = 2 ^ k" by (rule unat_one_shift) (simp add: k)
  have k15: "(2 :: nat) ^ k \<le> 2 ^ 15" by (intro power_increasing) (simp_all add: k less_Suc_eq_le [symmetric])
  have r: "take 4 r = r" using assms(2) by simp
  have cap: "unat (csd_capacity (high_capacity m) r (push_bit k 1)) =
      (if high_capacity m then (unat (r ! 1) mod 64 * 65536 + unat (r ! 2) div 65536 + 1) * 1024
       else (unat (r ! 1) mod 1024 * 4 + unat (r ! 2) div 2 ^ 30 + 1) * 2 ^ (unat (r ! 2) div 2 ^ 15 mod 8 + 2)) * 2 ^ k"
    using csd_capacity_value [of "push_bit k 1" "high_capacity m" r] bl k15 by simp
  have eq: "capacity m' = csd_capacity (high_capacity m) r (push_bit k 1)"
    and rd: "read_bl_len m' = (if push_bit k 1 > (512 :: u32) then 512 else push_bit k 1)" and wr: "write_bl_len m' \<le> 512"
    using assms(1) unfolding csd_fields_def Let_def k_def [symmetric] r
    by (auto split: if_splits)
  have "unat (read_bl_len m') = min 512 (2 ^ k)" unfolding rd using bl by (simp add: word_less_nat_alt min_def del: push_bit_of_1)
  moreover have "unat (write_bl_len m') \<le> 512" using wr by (simp add: word_le_nat_alt)
  ultimately show ?thesis unfolding k [symmetric] eq cap by (intro conjI refl)
qed

theorem csd_fields_capacity_witness:
  "\<exists>m'. csd_fields [0x32, 9 * 65536, 0xEE7F0000, 0] sample_mmc = Inr m' \<and> unat (capacity m') = (0xEE7F + 1) * 1024 * 512"
proof -
  have "\<exists>m'. csd_fields [0x32, 9 * 65536, 0xEE7F0000, 0] sample_mmc = Inr m'"
    by (simp add: csd_fields_def Let_def fbase_def)
  then obtain m' where m': "csd_fields [0x32, 9 * 65536, 0xEE7F0000, 0] sample_mmc = Inr m'" by blast
  then show ?thesis using csd_fields_capacity [OF m'] by (simp add: sample_mmc_def)
qed

end
