(* ===== verification/Mmc_Startup.thy ===== *)
theory Mmc_Startup
  imports Mmc_Correct
begin

text \<open>
  Initialisation of the card: what a successful start-up guarantees on any controller, and that the
  jump back in \<^verbatim>\<open>mmc_init\<close> is taken at most once.
\<close>

section \<open>Operations that keep the device\<close>

text \<open>\<open>keeps m s\<close>: if \<open>m\<close> returns, it has changed nothing of \<open>s\<close> but the host state.\<close>

definition keeps :: "('a \<times> 'h mmcs) res \<Rightarrow> 'h mmcs \<Rightarrow> bool" where
  "keeps m s \<longleftrightarrow> (\<forall>a s'. m = Inr (a, s') \<longrightarrow> dev s' = dev s \<and> mmc_arg_addr s' = mmc_arg_addr s)"

lemma keepsD: "keeps m s \<Longrightarrow> m = Inr (a, s') \<Longrightarrow> dev s' = dev s \<and> mmc_arg_addr s' = mmc_arg_addr s"
  by (simp add: keeps_def)

named_theorems keeps_intros \<open>operations that keep the device\<close>

lemma keeps_Inr [keeps_intros]: "keeps (Inr (a, s)) s" "keeps (Inl e) s"
  by (simp_all add: keeps_def)

lemma keeps_bind:
  assumes "keeps m s" and "\<And>a s'. dev s' = dev s \<Longrightarrow> mmc_arg_addr s' = mmc_arg_addr s \<Longrightarrow> keeps (f (a, s')) s'"
  shows "keeps (bindE m f) s"
proof (cases m)
  case (Inr x)
  obtain a s1 where x: "x = (a, s1)" by (cases x)
  have s1: "dev s1 = dev s" "mmc_arg_addr s1 = mmc_arg_addr s" using keepsD [OF assms(1)] Inr x by simp_all
  show ?thesis using keepsD [OF assms(2) [OF s1]] s1 unfolding keeps_def Inr x bindE_Inr by metis
qed (simp add: keeps_Inr)

lemma keeps_send_cmd [keeps_intros]: "keeps (mmc_send_cmd H c d s) s"
  by (auto simp: keeps_def mmc_send_cmd_def bindE_eq_Inr_iff)

lemma keeps_simple_cmd [keeps_intros]: "keeps (simple_cmd H c s) s"
  by (auto simp: keeps_def simple_cmd_def mmc_send_cmd_def bindE_eq_Inr_iff)

lemma keeps_then:
  assumes "keeps m s" and "\<And>s'. dev s' = dev s \<Longrightarrow> mmc_arg_addr s' = mmc_arg_addr s \<Longrightarrow> keeps (f s') s'"
  shows "keeps (thenE m f) s"
  unfolding thenE_def by (rule keeps_bind [OF assms(1)]) (use assms(2) in \<open>auto simp: keeps_Inr\<close>)

lemma keeps_resp_cmd:
  assumes "\<And>r s'. dev s' = dev s \<Longrightarrow> mmc_arg_addr s' = mmc_arg_addr s \<Longrightarrow> keeps (f r s') s'"
  shows "keeps (resp_cmd H c s f) s"
  unfolding resp_cmd_def by (rule keeps_bind [OF keeps_send_cmd]) (use assms in \<open>auto simp: keeps_Inr\<close>)

lemma keeps_send_status [keeps_intros]: "keeps (mmc_send_status H t s) s"
proof (induction t arbitrary: s)
  case 0
  show ?case unfolding mmc_send_status.simps [of H 0] by (rule keeps_resp_cmd) (simp add: keeps_Inr)
next
  case (Suc t)
  show ?case unfolding mmc_send_status.simps [of H "Suc t"] by (rule keeps_resp_cmd) (simp add: keeps_Inr Suc)
qed

lemma keeps_update_phase [keeps_intros]: "keeps (mmc_update_phase H s) s"
  by (auto simp: keeps_def mmc_update_phase_def bindE_eq_Inr_iff split: option.splits)

lemma keeps_go_idle [keeps_intros]: "keeps (mmc_go_idle H s) s"
  unfolding mmc_go_idle_def by (rule keeps_then [OF keeps_simple_cmd]) (rule keeps_Inr)

lemma keeps_switch [keeps_intros]: "keeps (mmc_switch H a b c s) s"
  unfolding mmc_switch_def
  by (rule keeps_bind [OF keeps_simple_cmd], simp, rule keeps_then [OF keeps_update_phase],
      rule keeps_bind [OF keeps_send_status], simp add: keeps_Inr)

section \<open>Success of a sequence\<close>

lemma thenE_success: "thenE m f = Inr (0, s') \<longleftrightarrow> (\<exists>s1. m = Inr (0, s1) \<and> f s1 = Inr (0, s'))"
  by (auto simp: thenE_def bindE_eq_Inr_iff split: if_splits)

lemma set_clock_dev:
  assumes "mmc_set_clock H c s = Inr s'"
  shows "\<exists>m h h'. clock m = clamp_clock (dev s) c \<and> set_ios_fn H m h = Inr (clock (dev s'), h') \<and>
    dev s' = (dev s)\<lparr>clock := clock (dev s')\<rparr>"
proof -
  let ?m = "(dev s)\<lparr>clock := clamp_clock (dev s) c\<rparr>"
  obtain d h' where "set_ios_fn H ?m (host s) = Inr (d, h')" "dev s' = (dev s)\<lparr>clock := d\<rparr>"
    using assms by (auto simp: mmc_set_clock_def mmc_set_ios_def upd_def bindE_eq_Inr_iff)
  then show ?thesis by (intro exI [of _ ?m] exI [of _ "host s"] exI [of _ h']) simp
qed

lemma set_bus_width_dev: "mmc_set_bus_width H w s = Inr s' \<Longrightarrow> \<exists>c. dev s' = (dev s)\<lparr>bus_width := w, clock := c\<rparr>"
  by (auto simp: mmc_set_bus_width_def mmc_set_ios_def upd_def bindE_eq_Inr_iff)

lemma same_bus: "m\<lparr>bus_width := bus_width m, clock := clock m, tran_speed := t\<rparr> = m\<lparr>tran_speed := t\<rparr>"
  by (cases m) simp

lemma startup_bus_sd_success:
  assumes "startup_bus_sd H s k = Inr (0, s')"
  shows "\<exists>s1 w c. k s1 = Inr (0, s') \<and> (card_caps (dev s) AND MMC_MODE_4BIT \<noteq> 0 \<longrightarrow> w = 4) \<and>
    dev s1 = (dev s)\<lparr>bus_width := w, clock := c,
      tran_speed := (if card_caps (dev s) AND MMC_MODE_HS \<noteq> 0 then 50000000 else 25000000)\<rparr>"
proof (cases "card_caps (dev s) AND MMC_MODE_4BIT = 0")
  case True
  then show ?thesis
    using assms
    by (intro exI [of _ "upd (\<lambda>m. m\<lparr>tran_speed := (if card_caps m AND MMC_MODE_HS \<noteq> 0 then 50000000 else 25000000)\<rparr>) s"]
        exI [of _ "bus_width (dev s)"] exI [of _ "clock (dev s)"]) (simp add: startup_bus_sd_def thenE_success same_bus upd_def)
next
  case False
  then obtain s1 s2 s3 where
    s: "simple_cmd H (cmd MMC_CMD_APP_CMD MMC_RSP_R1 (push_bit 16 (rca (dev s)))) s = Inr (0, s1)"
      "simple_cmd H (cmd SD_CMD_APP_SET_BUS_WIDTH MMC_RSP_R1 2) s1 = Inr (0, s2)" "mmc_set_bus_width H 4 s2 = Inr s3"
      "k (upd (\<lambda>m. m\<lparr>tran_speed := (if card_caps m AND MMC_MODE_HS \<noteq> 0 then 50000000 else 25000000)\<rparr>) s3) = Inr (0, s')"
    using assms by (auto simp: startup_bus_sd_def thenE_success bindE_eq_Inr_iff)
  obtain c where "dev s3 = (dev s)\<lparr>bus_width := 4, clock := c\<rparr>"
    using set_bus_width_dev [OF s(3)] keepsD [OF keeps_simple_cmd s(1)] keepsD [OF keeps_simple_cmd s(2)] by auto
  then show ?thesis
    using s(4) by (intro exI [of _ "upd (\<lambda>m. m\<lparr>tran_speed := (if card_caps m AND MMC_MODE_HS \<noteq> 0 then 50000000 else 25000000)\<rparr>) s3"]
        exI [of _ 4] exI [of _ c]) (simp add: upd_def)
qed

lemma startup_bus_mmc_success:
  assumes "startup_bus_mmc H s k = Inr (0, s')"
  shows "\<exists>s1 w c t. k s1 = Inr (0, s') \<and> dev s1 = (dev s)\<lparr>bus_width := w, clock := c, tran_speed := t\<rparr>"
proof -
  let ?t = "\<lambda>m. if card_caps m AND MMC_MODE_DDR_52MHz \<noteq> 0 then 52000000
      else if card_caps m AND MMC_MODE_HS \<noteq> 0 \<and> card_caps m AND MMC_MODE_HS_52MHz \<noteq> 0 then 52000000 else 26000000 :: u32"
  have fin: "\<exists>s1 w c t. k s1 = Inr (0, s') \<and> dev s1 = (dev s)\<lparr>bus_width := w, clock := c, tran_speed := t\<rparr>"
    if "k (upd (\<lambda>m. m\<lparr>tran_speed := ?t m\<rparr>) s2) = Inr (0, s')" "dev s2 = (dev s)\<lparr>bus_width := w, clock := c\<rparr>" for s2 w c
    using that by (intro exI [of _ "upd (\<lambda>m. m\<lparr>tran_speed := ?t m\<rparr>) s2"] exI [of _ w] exI [of _ c] exI [of _ "?t (dev s2)"]) (simp add: upd_def)
  have sw: "\<exists>s1 w c t. k s1 = Inr (0, s') \<and> dev s1 = (dev s)\<lparr>bus_width := w, clock := c, tran_speed := t\<rparr>"
    if "mmc_switch H a b c s = Inr (0, s1)" "mmc_set_bus_width H w s1 = Inr s2"
      "k (upd (\<lambda>m. m\<lparr>tran_speed := ?t m\<rparr>) s2) = Inr (0, s')" for a b c w s1 s2
    using set_bus_width_dev [OF that(2)] keepsD [OF keeps_switch that(1)] fin [OF that(3)] by auto
  have same: "(dev s)\<lparr>bus_width := bus_width (dev s), clock := clock (dev s)\<rparr> = dev s" by (cases "dev s") simp
  have no: "\<exists>s1 w c t. k s1 = Inr (0, s') \<and> dev s1 = (dev s)\<lparr>bus_width := w, clock := c, tran_speed := t\<rparr>"
    if "k (upd (\<lambda>m. m\<lparr>tran_speed := ?t m\<rparr>) s) = Inr (0, s')"
    by (rule fin [OF that same [symmetric]])
  show ?thesis
    using assms no sw
    unfolding startup_bus_mmc_def Let_def thenE_success
    by (auto simp: thenE_success bindE_eq_Inr_iff split: if_split_asm)
qed

section \<open>A successful start-up\<close>

lemma resp_cmd_success: "resp_cmd H c s f = Inr (0, s') \<Longrightarrow> \<exists>r s1. f r s1 = Inr (0, s')"
  by (auto simp: resp_cmd_def bindE_eq_Inr_iff split: if_split_asm)

lemma startup_identify_success:
  assumes "startup_identify H s k = Inr (0, s')" shows "\<exists>s1. k s1 = Inr (0, s')"
proof -
  obtain r s1 where "(let s = upd (\<lambda>m. m\<lparr>cid := take 4 r\<rparr>) s1 in
     if mmc_host_is_spi (dev s) then k s
     else resp_cmd H (cmd SD_CMD_SEND_RELATIVE_ADDR MMC_RSP_R6 (push_bit 16 (rca (dev s)))) s (\<lambda>r s.
          k (if IS_SD (dev s) then upd (\<lambda>m. m\<lparr>rca := drop_bit 16 (r ! 0) AND 0xffff\<rparr>) s else s))) = Inr (0, s')"
    using resp_cmd_success [OF assms [unfolded startup_identify_def]] by blast
  then show ?thesis unfolding Let_def by (auto split: if_split_asm dest!: resp_cmd_success)
qed

lemma startup_csd_success: "startup_csd H s k = Inr (0, s') \<Longrightarrow> \<exists>s1. k s1 = Inr (0, s')"
  by (auto simp: startup_csd_def bindE_eq_Inr_iff split: if_split_asm)

lemma startup_select_success: "startup_select H s k = Inr (0, s') \<Longrightarrow> \<exists>s1. k s1 = Inr (0, s')"
  unfolding startup_select_def thenE_success bindE_eq_Inr_iff by blast

lemma startup_ext_csd_success: "startup_ext_csd H s k = Inr (0, s') \<Longrightarrow> \<exists>s1. k s1 = Inr (0, s')"
  by (auto simp: startup_ext_csd_def bindE_eq_Inr_iff split: if_split_asm)

lemma startup_last_steps:
  assumes "mmc_startup H s = Inr (0, s')"
  shows "\<exists>s0. (if IS_SD (dev (upd restrict_caps s0)) then startup_bus_sd else startup_bus_mmc) H (upd restrict_caps s0) (\<lambda>s.
     bindE (mmc_set_clock H (tran_speed (dev s)) s) (\<lambda>s.
     Inr (0, upd (\<lambda>m. m\<lparr>blksz := read_bl_len m, lba := ucast (drop_bit 9 (capacity m))\<rparr>) s))) = Inr (0, s')"
proof -
  obtain s1 where "startup_csd H s1 (\<lambda>s. startup_select H s (\<lambda>s. startup_ext_csd H s (\<lambda>s.
     thenE (if IS_SD (dev s) then sd_change_freq H s else mmc_change_freq H s) (\<lambda>s.
     thenE (mmc_update_phase H s) (\<lambda>s.
     let s = upd restrict_caps s in
     (if IS_SD (dev s) then startup_bus_sd else startup_bus_mmc) H s (\<lambda>s.
     bindE (mmc_set_clock H (tran_speed (dev s)) s) (\<lambda>s.
     Inr (0, upd (\<lambda>m. m\<lparr>blksz := read_bl_len m, lba := ucast (drop_bit 9 (capacity m))\<rparr>) s)))))))) = Inr (0, s')"
    using startup_identify_success [OF assms [unfolded mmc_startup_def]] by blast
  from startup_csd_success [OF this] show ?thesis
    unfolding Let_def by (blast dest!: startup_select_success startup_ext_csd_success thenE_success [THEN iffD1])
qed

lemma clamp_clock_same: "f_max m' = f_max m \<Longrightarrow> f_min m' = f_min m \<Longrightarrow> clamp_clock m' c = clamp_clock m c"
  by (simp add: clamp_clock_def Let_def)

lemma restrict_caps_caps: "card_caps (restrict_caps m) AND NOT (host_caps (restrict_caps m)) = 0"
  by (simp add: restrict_caps_def Let_def and.assoc)


definition sample_card :: "u32 \<Rightarrow> u32 list" where
  "sample_card c = (if c = MMC_CMD_SEND_CSD then [0x32, 9 * 65536, 0xEE7F0000, 0] else [0x100, 0, 0, 0])"

definition sample_spi :: "(nat \<Rightarrow> byte list) mmcs" where
  "sample_spi = \<lparr>dev = sample_mmc\<lparr>host_caps := MMC_MODE_SPI\<rparr>, host = (\<lambda>_. []), mmc_arg_addr = replicate 512 0\<rparr>"

lemma ideal_steps:
  "mmc_send_cmd (ideal_ops r) c None s = Inr ((0, r (cmdidx c), []), s)"
  "resp_cmd (ideal_ops r) c s f = f (r (cmdidx c)) s"
  "simple_cmd (ideal_ops r) c s = Inr (0, s)"
  "mmc_update_phase (ideal_ops r) s = Inr (0, s)"
  "mmc_set_clock (ideal_ops r) x s = Inr (upd (\<lambda>m. m\<lparr>clock := clamp_clock m x\<rparr>) s)"
  "mmc_set_bus_width (ideal_ops r) x s = Inr (upd (\<lambda>m. m\<lparr>bus_width := x\<rparr>) s)"
  by (simp_all add: mmc_send_cmd_def resp_cmd_def simple_cmd_def mmc_update_phase_def mmc_set_clock_def
      mmc_set_bus_width_def mmc_set_ios_def ideal_ops_def upd_def)

lemma ideal_startup_csd:
  "\<exists>m. csd_fields (sample_card MMC_CMD_SEND_CSD) (sample_mmc\<lparr>host_caps := MMC_MODE_SPI, cid := c\<rparr>) = Inr m \<and>
     version m = SD_VERSION_2 \<and> host_caps m = MMC_MODE_SPI"
  by (simp add: csd_fields_def sample_card_def sample_mmc_def fbase_def mmc_consts)


section \<open>The retry of the card type\<close>

definition region_kept :: "('a \<times> 'h mmcs) res \<Rightarrow> byte list \<Rightarrow> bool" where
  "region_kept m b \<longleftrightarrow> (\<forall>a s'. m = Inr (a, s') \<longrightarrow> mmc_arg_addr s' = b)"

lemma region_kept_Inr: "mmc_arg_addr s = b \<Longrightarrow> region_kept (Inr (a, s)) b"
  by (simp add: region_kept_def)

lemma region_kept_bind:
  assumes "region_kept m b" and "\<And>a s'. mmc_arg_addr s' = b \<Longrightarrow> region_kept (f (a, s')) b"
  shows "region_kept (bindE m f) b"
proof (cases m)
  case (Inr x)
  obtain a s1 where x: "x = (a, s1)" by (cases x)
  have "mmc_arg_addr s1 = b" using assms(1) by (simp add: region_kept_def Inr x)
  then show ?thesis using assms(2) by (simp add: Inr x)
qed (simp add: region_kept_def)

lemma region_kept_resp_cmd:
  assumes "mmc_arg_addr s = b" and "\<And>r s'. mmc_arg_addr s' = b \<Longrightarrow> region_kept (f r s') b"
  shows "region_kept (resp_cmd H c s f) b"
  unfolding resp_cmd_def
proof (rule region_kept_bind)
  show "region_kept (mmc_send_cmd H c None s) b"
    using keepsD [OF keeps_send_cmd] assms(1) unfolding region_kept_def by blast
qed (use assms(2) in \<open>auto intro: region_kept_Inr\<close>)

lemma region_kept_op_cond_loop:
  assumes "\<And>t r s'. mmc_arg_addr s' = b \<Longrightarrow> region_kept (k t r s') b"
  shows "mmc_arg_addr s = b \<Longrightarrow> region_kept (mmc_op_cond_loop H t r s k) b"
proof (induction t arbitrary: r s)
  case 0
  show ?case
    unfolding mmc_op_cond_loop.simps [of H 0] Let_def
    by (rule region_kept_resp_cmd [OF 0]) (use assms in simp)
next
  case (Suc t)
  show ?case
    unfolding mmc_op_cond_loop.simps [of H "Suc t"] Let_def
    by (rule region_kept_resp_cmd [OF Suc.prems]) (use assms Suc.IH in simp)
qed

lemma region_kept_op_cond:
  assumes "mmc_send_op_cond H s = Inr (e, s')" shows "mmc_arg_addr s' = mmc_arg_addr s"
proof -
  let ?b = "mmc_arg_addr s"
  have "region_kept (mmc_go_idle H s) ?b"
    using keepsD [OF keeps_go_idle] unfolding region_kept_def by blast
  then have "region_kept (mmc_send_op_cond H s) ?b"
    unfolding mmc_send_op_cond_def
    by (intro region_kept_bind) (auto simp: read_ocr_def upd_def intro!: region_kept_Inr region_kept_resp_cmd region_kept_op_cond_loop)
  then show ?thesis using assms by (simp add: region_kept_def)
qed

lemma select_voltage_retry:
  assumes "select_voltage H s = Inr ((True, e), s')" "108 \<le> length (mmc_arg_addr s)"
  shows "region_card_type (mmc_arg_addr s') = CARD_TYPE_SD"
proof -
  obtain s1 where "mmc_send_op_cond H s = Inr (e, s1)" "s' = set_card_type CARD_TYPE_SD s1"
    using assms(1) by (auto simp: select_voltage_def bindE_eq_Inr_iff Let_def split: if_split_asm)
  then show ?thesis
    using assms(2) region_kept_op_cond [of H s] by (simp add: set_card_type_def get32_put32_same)
qed

lemma select_voltage_sd:
  assumes "region_card_type (mmc_arg_addr s) = CARD_TYPE_SD"
  shows "select_voltage H s \<noteq> Inr ((True, e), s')"
  using assms by (auto simp: select_voltage_def bindE_eq_Inr_iff)

lemma bindE_same: "(\<And>x. m = Inr x \<Longrightarrow> f x = g x) \<Longrightarrow> bindE m f = bindE m g"
  by (cases m) simp_all

text \<open>Two bounds on the retries agree if they do where a retry is asked for.\<close>

lemma init_card_same:
  assumes "\<And>e s1 s2. mmc_arg_addr s1 = mmc_arg_addr s \<Longrightarrow> select_voltage H s1 = Inr ((True, e), s2) \<Longrightarrow>
    (case n of 0 \<Rightarrow> Inl (Undefined ''mmc_init: second retry'') | Suc n \<Rightarrow> init_card H n s2) =
    (case n' of 0 \<Rightarrow> Inl (Undefined ''mmc_init: second retry'') | Suc n \<Rightarrow> init_card H n s2)"
  shows "init_card H n s = init_card H n' s"
  unfolding init_card.simps [of H n] init_card.simps [of H n'] thenE_def
proof (rule bindE_same, clarify, simp, rule impI, rule bindE_same, clarify)
  fix e s1 r v s2
  assume i: "mmc_go_idle H s = Inr (0, s1)" and v: "select_voltage H (upd (part_num_update (\<lambda>_. 0)) s1) = Inr ((r, v), s2)"
  have "mmc_arg_addr (upd (part_num_update (\<lambda>_. 0)) s1) = mmc_arg_addr s"
    using keepsD [OF keeps_go_idle i] by (simp add: upd_def)
  from assms [OF this, of v s2] v show "(if r then case n of 0 \<Rightarrow> Inl (Undefined ''mmc_init: second retry'') | Suc n \<Rightarrow> init_card H n s2
      else if v \<noteq> 0 then Inr (v, s2) else bindE (mmc_startup H s2) (\<lambda>(err, s). Inr (err, upd (has_init_update (\<lambda>_. err = 0)) s))) =
     (if r then case n' of 0 \<Rightarrow> Inl (Undefined ''mmc_init: second retry'') | Suc n \<Rightarrow> init_card H n s2
      else if v \<noteq> 0 then Inr (v, s2) else bindE (mmc_startup H s2) (\<lambda>(err, s). Inr (err, upd (has_init_update (\<lambda>_. err = 0)) s)))"
    by simp
qed

text \<open>
  C20: The jump back in mmc_init to try the other card type is taken at most once: any larger bound on the
  number of jumps gives the same result, because the jump stores the type SD, for which it is not taken.
\<close>

theorem init_card_retries_once:
  assumes "108 \<le> length (mmc_arg_addr s)"
  shows "init_card H (Suc n) s = init_card H 1 s"
proof -
  have "init_card H n s2 = init_card H 0 s2" if "region_card_type (mmc_arg_addr s2) = CARD_TYPE_SD" for s2
    by (rule init_card_same) (metis select_voltage_sd that)
  then show ?thesis
    by (intro init_card_same) (metis (no_types, lifting) One_nat_def assms old.nat.simps(5) select_voltage_retry)
qed

theorem init_card_retries_once_witness:
  "init_card (ideal_ops sample_card) 8 sample_spi = init_card (ideal_ops sample_card) 1 sample_spi"
  using init_card_retries_once [of sample_spi "ideal_ops sample_card" 7] by (simp add: sample_spi_def)

end
