(* ===== verification/C_Strings.thy ===== *)
theory C_Strings
  imports Egos_Prelude
begin

text \<open>
  Strings of C in byte buffers, and the functions of \<^verbatim>\<open>string.h\<close> and \<^verbatim>\<open>stdlib.h\<close> that the servers and the
  applications call. An access behind the end of the buffer is undefined.
\<close>

definition of_str :: "string \<Rightarrow> byte list" where "of_str = map of_char"

section \<open>string.h\<close>

definition c_str :: "byte list \<Rightarrow> byte list res" where
  "c_str buf = (if 0 \<in> set buf then Inr (takeWhile (\<lambda>b. b \<noteq> 0) buf) else Inl (Undefined ''unterminated string''))"

text \<open>\<^verbatim>\<open>strncmp(name, buf, strlen(name)) == 0\<close>, for the bytes \<open>name\<close> of a string.\<close>

fun strncmp_eq :: "byte list \<Rightarrow> byte list \<Rightarrow> bool res" where
  "strncmp_eq [] buf = Inr True"
| "strncmp_eq (c # name) [] = Inl (Undefined ''strncmp: outside the buffer'')"
| "strncmp_eq (c # name) (b # buf) = (if b = c then strncmp_eq name buf else Inr False)"

lemma strncmp_eq_ok: "length name \<le> length buf \<Longrightarrow> strncmp_eq name buf = Inr (take (length name) buf = name)"
  by (induction name buf rule: strncmp_eq.induct) auto

text \<open>\<^verbatim>\<open>strcpy\<close> of a string into a buffer, with the final zero.\<close>

definition strcpy_to :: "byte list \<Rightarrow> byte list \<Rightarrow> byte list res" where
  "strcpy_to buf str =
     (if length str < length buf then Inr (put_at buf 0 (str @ [0])) else Inl (Undefined ''strcpy: outside the buffer''))"

lemma c_str_append: "0 \<notin> set str \<Longrightarrow> c_str (str @ 0 # rest) = Inr str"
  by (induction str) (auto simp: c_str_def)

lemma c_str_strcpy:
  assumes "strcpy_to buf str = Inr buf'" and "0 \<notin> set str"
  shows "c_str (buf' @ rest) = Inr str" and "length buf' = length buf"
  using assms c_str_append by (auto simp: strcpy_to_def put_at_def split: if_split_asm)

section \<open>stdlib.h\<close>

definition is_digit :: "byte \<Rightarrow> bool" where "is_digit b \<longleftrightarrow> 48 \<le> b \<and> b \<le> 57"

definition is_space :: "byte \<Rightarrow> bool" where "is_space b \<longleftrightarrow> b = 32 \<or> (9 \<le> b \<and> b \<le> 13)"

text \<open>The value of the leading digits; the number must end inside the buffer.\<close>

fun digits_val :: "nat \<Rightarrow> byte list \<Rightarrow> nat res" where
  "digits_val acc [] = Inl (Undefined ''atoi: outside the buffer'')"
| "digits_val acc (b # bs) = (if is_digit b then digits_val (acc * 10 + (unat b - 48)) bs else Inr acc)"

definition atoi :: "byte list \<Rightarrow> int res" where
  "atoi bs =
     (case dropWhile is_space bs of
        [] \<Rightarrow> Inl (Undefined ''atoi: outside the buffer'')
      | b # cs \<Rightarrow>
          bindE (digits_val 0 (if b = 43 \<or> b = 45 then cs else b # cs)) (\<lambda>v.
          let i = (if b = 45 then - int v else int v) in
          if -(2 ^ 31) \<le> i \<and> i < 2 ^ 31 then Inr i else Inl (Undefined ''atoi: out of range'')))"

text \<open>Decimal digits, and that \<^verbatim>\<open>atoi\<close> reads them back.\<close>

fun decimal :: "nat \<Rightarrow> byte list" where
  "decimal n = (if n < 10 then [word_of_nat (48 + n)] else decimal (n div 10) @ [word_of_nat (48 + n mod 10)])"

declare decimal.simps [simp del]

lemma digit_byte: "d < 10 \<Longrightarrow> unat (word_of_nat (48 + d) :: byte) = 48 + d"
  by (simp add: unat_of_nat del: of_nat_add)

lemma is_digit_byte: "d < 10 \<Longrightarrow> is_digit (word_of_nat (48 + d))"
  using digit_byte [of d] by (simp add: is_digit_def word_le_nat_alt del: of_nat_add)

lemma decimal_digits: "\<forall>b \<in> set (decimal n). is_digit b"
proof (induction n rule: decimal.induct)
  case (1 n)
  show ?case
    using 1 is_digit_byte [of n] is_digit_byte [of "n mod 10"] by (subst decimal.simps) auto
qed

lemma decimal_nonempty: "decimal n \<noteq> []"
  by (subst decimal.simps) simp

lemma digits_val_append:
  "\<forall>b \<in> set ds. is_digit b \<Longrightarrow> digits_val acc (ds @ bs) = digits_val (foldl (\<lambda>a b. a * 10 + (unat b - 48)) acc ds) bs"
  by (induction ds arbitrary: acc) auto

lemma decimal_value: "foldl (\<lambda>a b. a * 10 + (unat b - 48)) 0 (decimal n) = n"
proof (induction n rule: decimal.induct)
  case (1 n)
  have "unat (word_of_nat (48 + n mod 10) :: byte) = 48 + n mod 10" by (rule digit_byte) simp
  moreover have "unat (word_of_nat (48 + n) :: byte) = 48 + n" if "n < 10" using that by (rule digit_byte)
  ultimately show ?case using 1 by (subst decimal.simps) (auto simp del: of_nat_add)
qed

lemma digit_not_space: "is_digit b \<Longrightarrow> \<not> is_space b \<and> b \<noteq> 43 \<and> b \<noteq> 45 \<and> b \<noteq> 32 \<and> b \<noteq> 0"
  by (auto simp: is_digit_def is_space_def word_le_nat_alt)

lemma atoi_decimal:
  assumes "n < 2 ^ 31"
  shows "atoi (replicate k 32 @ decimal n @ 32 # rest) = Inr (int n)"
proof -
  obtain b cs where d: "decimal n = b # cs" using decimal_nonempty by (cases "decimal n") auto
  have b: "\<not> is_space b" "b \<noteq> 43" "b \<noteq> 45" using decimal_digits [of n] digit_not_space d by auto
  have "dropWhile is_space (replicate k 32 @ decimal n @ 32 # rest) = decimal n @ 32 # rest"
    by (induction k) (simp_all add: d b is_space_def [of 32])
  moreover have "digits_val 0 (decimal n @ 32 # rest) = Inr n"
    using digits_val_append [OF decimal_digits] decimal_value by (simp add: is_digit_def)
  ultimately show ?thesis using assms b by (simp add: atoi_def d)
qed

end
