(* ===== verification/Servers.thy ===== *)
theory Servers
  imports C_Strings Process Inode_Store
begin

text \<open>
  The file server (\<^verbatim>\<open>apps/system/sys_file.c\<close>), the directory server (\<^verbatim>\<open>apps/system/sys_dir.c\<close>) and their
  client functions (\<^verbatim>\<open>library/servers/servers.c\<close>). Requests and replies are the bytes of the structs of
  \<^verbatim>\<open>library/servers/servers.h\<close>. A client sends a request and receives the next message: this pair of
  system calls is the parameter \<open>rpc\<close>, which returns the sender and the 1024 bytes of content. The
  message loop of a server is given by its body: from the received bytes to the bytes of the reply.
\<close>

section \<open>Requests and replies (servers.h)\<close>

type_synonym 's rpc = "int \<Rightarrow> byte list \<Rightarrow> 's \<Rightarrow> ((int \<times> byte list) \<times> 's) res"

definition CMD_NARGS :: nat where "CMD_NARGS = 16"
definition CMD_ARG_LEN :: nat where "CMD_ARG_LEN = 32"
definition DIR_NAME_SIZE :: nat where "DIR_NAME_SIZE = 32"

definition PROC_SPAWN :: u32 where "PROC_SPAWN = 0"
definition PROC_EXIT :: u32 where "PROC_EXIT = 1"
definition PROC_KILLALL :: u32 where "PROC_KILLALL = 2"
definition CMD_OK :: u32 where "CMD_OK = 0"
definition CMD_ERROR :: u32 where "CMD_ERROR = 1"
definition FILE_READ :: u32 where "FILE_READ = 1"
definition FILE_OK :: u32 where "FILE_OK = 0"
definition FILE_ERROR :: u32 where "FILE_ERROR = 1"
definition DIR_LOOKUP :: u32 where "DIR_LOOKUP = 1"
definition DIR_OK :: u32 where "DIR_OK = 0"
definition DIR_ERROR :: u32 where "DIR_ERROR = 1"

lemmas server_consts =
  CMD_NARGS_def CMD_ARG_LEN_def DIR_NAME_SIZE_def PROC_SPAWN_def PROC_EXIT_def PROC_KILLALL_def CMD_OK_def
  CMD_ERROR_def FILE_READ_def FILE_OK_def FILE_ERROR_def DIR_LOOKUP_def DIR_OK_def DIR_ERROR_def

definition le32 :: "u32 \<Rightarrow> byte list" where
  "le32 w = [byte_of w 0, byte_of w 1, byte_of w 2, byte_of w 3]"

text \<open>\<^verbatim>\<open>struct file_request\<close>; its block is not initialised for a read.\<close>

definition file_request :: "u32 \<Rightarrow> u32 \<Rightarrow> u32 \<Rightarrow> byte list \<Rightarrow> byte list" where
  "file_request ty ino offset blk = le32 ty @ le32 ino @ le32 offset @ blk"

definition dir_request :: "u32 \<Rightarrow> u32 \<Rightarrow> byte list \<Rightarrow> byte list" where
  "dir_request ty ino name = le32 ty @ le32 ino @ name"

lemma length_le32 [simp]: "length (le32 w) = 4"
  by (simp add: le32_def)

lemma get32_le32 [simp]: "get32 (le32 w @ rest) 0 = w"
  by (simp add: get32_def le32_def)

lemma get32_append: "length xs = 4 * k \<Longrightarrow> k \<le> i \<Longrightarrow> get32 (xs @ ys) i = get32 ys (i - k)"
  by (auto simp: get32_def nth_append le_iff_add)

section \<open>Clients (servers.c)\<close>

definition file_read :: "'s rpc \<Rightarrow> byte list \<Rightarrow> u32 \<Rightarrow> u32 \<Rightarrow> 's \<Rightarrow> ((int \<times> block) \<times> 's) res" where
  "file_read rpc blk file_ino offset s =
     bindE (rpc GPID_FILE (file_request FILE_READ file_ino offset blk) s) (\<lambda>((sender, buf), s).
     if sender \<noteq> GPID_FILE then Inl (Fatal ''file_read: an error occurred'')
     else Inr ((if get32 buf 0 = FILE_OK then 0 else -1, take BLOCK_SIZE (drop 4 buf)), s))"

text \<open>\<open>stale\<close> is the \<^verbatim>\<open>name\<close> field of the request on the stack before \<^verbatim>\<open>strcpy\<close>.\<close>

definition dir_lookup :: "'s rpc \<Rightarrow> byte list \<Rightarrow> u32 \<Rightarrow> byte list \<Rightarrow> 's \<Rightarrow> (int \<times> 's) res" where
  "dir_lookup rpc stale dir_ino name s =
     bindE (strcpy_to stale name) (\<lambda>nm.
     bindE (rpc GPID_DIR (dir_request DIR_LOOKUP dir_ino nm) s) (\<lambda>((sender, buf), s).
     if sender \<noteq> GPID_DIR then Inl (Fatal ''dir_lookup: an error occurred'')
     else Inr (if get32 buf 0 = DIR_OK then sint (get32 buf 1) else -1, s)))"

section \<open>The file server (sys\_file.c)\<close>

text \<open>
  Request and reply share the buffer. After a read that fails, the reply carries the bytes that are
  left in it.
\<close>

definition sys_file_step :: "'s inode_store \<Rightarrow> byte list \<Rightarrow> 's \<Rightarrow> (byte list \<times> 's) res" where
  "sys_file_step fs buf s =
     (if get32 buf 0 = FILE_READ then
        bindE (read_fn fs (get32 buf 1) (get32 buf 2) s) (\<lambda>(r, s).
        let buf = (case r of None \<Rightarrow> buf | Some b \<Rightarrow> put_at buf 4 b);
            buf = put32 buf 0 (if r \<noteq> None then FILE_OK else FILE_ERROR) in
        Inr (take (4 + BLOCK_SIZE) buf, s))
      else Inl (Fatal ''sys_file: request not implemented''))"

section \<open>The directory server (sys\_dir.c)\<close>

text \<open>
  The search loop. The bound \<^verbatim>\<open>strlen(buf) - namelen\<close> is computed in \<^verbatim>\<open>unsigned long\<close>, so it is close to
  \<open>2 ^ 64\<close> when the name is longer than the directory.
\<close>

function lookup_loop :: "byte list \<Rightarrow> byte list \<Rightarrow> nat \<Rightarrow> nat \<Rightarrow> int res" where
  "lookup_loop buf name bound i =
     (if i < bound then
        (case strncmp_eq name (drop i buf) of
           Inl e \<Rightarrow> Inl e
         | Inr eq \<Rightarrow>
             if eq \<and> i + length name \<ge> length buf then Inl (Undefined ''dir_do_lookup: outside buf'')
             else if eq \<and> buf ! (i + length name) = 32 \<and> (i = 0 \<or> buf ! (i - 1) = 32)
             then atoi (drop (i + length name) buf)
             else lookup_loop buf name bound (Suc i))
      else Inr (-1))"
  by pat_completeness auto
termination
proof (relation "measure (\<lambda>(buf, name, bound, i). length buf - i)", goal_cases)
  case (2 buf name bound i eq)
  have "i < length buf"
  proof (rule ccontr)
    assume "\<not> i < length buf"
    then have "drop i buf = []" by simp
    then show False using 2 by (cases name) auto
  qed
  then show ?case by simp
qed simp

declare lookup_loop.simps [simp del]

definition lookup_in :: "byte list \<Rightarrow> byte list \<Rightarrow> int res" where
  "lookup_in buf name =
     bindE (c_str buf) (\<lambda>str.
     lookup_loop buf name (unat (word_of_nat (length str) - word_of_nat (length name) :: u64)) 0)"

definition dir_do_lookup :: "'s rpc \<Rightarrow> byte list \<Rightarrow> u32 \<Rightarrow> byte list \<Rightarrow> 's \<Rightarrow> (int \<times> 's) res" where
  "dir_do_lookup rpc blk dir_ino name s =
     bindE (file_read rpc blk dir_ino 0 s) (\<lambda>((_, buf), s).
     bindE (lookup_in buf name) (\<lambda>r. Inr (r, s)))"

definition sys_dir_step :: "'s rpc \<Rightarrow> byte list \<Rightarrow> byte list \<Rightarrow> 's \<Rightarrow> (byte list \<times> 's) res" where
  "sys_dir_step rpc blk buf s =
     (if get32 buf 0 = DIR_LOOKUP then
        bindE (c_str (drop 8 buf)) (\<lambda>name.
        bindE (dir_do_lookup rpc blk (get32 buf 1) name s) (\<lambda>(ino, s).
        let buf = put32 buf 1 (word_of_int ino);
            buf = put32 buf 0 (if get32 buf 1 = -1 then DIR_ERROR else DIR_OK) in
        Inr (take 8 buf, s)))
      else Inl (Fatal ''sys_dir: request not implemented''))"

section \<open>A server behind its clients\<close>

text \<open>
  One round trip through the kernel to the server \<open>srv\<close> with message-loop body \<open>h\<close>: of the 1024 bytes of a
  message, those behind the sent ones are left over from earlier messages (\<open>area\<close>).
\<close>

definition serve :: "int \<Rightarrow> (byte list \<Rightarrow> 's \<Rightarrow> (byte list \<times> 's) res) \<Rightarrow> byte list \<Rightarrow> 's rpc" where
  "serve srv h area to msg s =
     (if to \<noteq> srv then Inl (Fatal ''serve: another server'')
      else bindE (h (put_at area 0 msg) s) (\<lambda>(reply, s). Inr ((srv, put_at area 0 reply), s)))"

end
