(* ===== verification/Fs_Disk.thy ===== *)
theory Fs_Disk
  imports Mmc_Correct Mkfs_Correct
begin

text \<open>
  The disk below the file server: the driver entry points of \<^verbatim>\<open>earth/dev_disk.c\<close> over the SD card and
  the inode store of \<^verbatim>\<open>library/file/disk.c\<close> over the driver. A read may change the state of the
  controller, so its contract is the weaker \<open>reading_store\<close>, which suffices to read a treedisk.
\<close>

section \<open>The driver (dev\_disk.c)\<close>

definition sdc_no :: int where "sdc_no = 0"

text \<open>The count that \<^verbatim>\<open>mmc_bread\<close> returns is dropped: a failed read leaves \<open>dst\<close> as it was and reports 0.\<close>

definition disk_read ::
    "'h mmc_ops \<Rightarrow> int \<Rightarrow> int \<Rightarrow> byte list \<Rightarrow> 'h mmcs option list \<Rightarrow> ((int \<times> byte list) \<times> 'h mmcs option list) res option" where
  "disk_read H block_no nblocks dst devs =
     bindO (mmc_bread H sdc_no (word_of_int block_no) (word_of_int nblocks) dst devs) (\<lambda>((_, dst), devs).
     Some (Inr ((0, dst), devs)))"

definition disk_write :: "int \<Rightarrow> int \<Rightarrow> byte list \<Rightarrow> 'h mmcs option list \<Rightarrow> (int \<times> 'h mmcs option list) res" where
  "disk_write block_no nblocks src devs = Inl (Fatal ''Write op not yet implemented'')"

section \<open>The inode store (disk.c)\<close>

text \<open>
  \<open>buf\<close> gives the bytes that the caller's buffer holds before a read. A driver that never returns is a
  stop, as everywhere in an inode store.
\<close>

definition stop_or :: "'a res option \<Rightarrow> 'a res" where
  "stop_or r = (case r of None \<Rightarrow> Inl (Fatal ''endless loop'') | Some r \<Rightarrow> r)"

definition fs_disk_getsize :: "u32 \<Rightarrow> 's \<Rightarrow> (int \<times> 's) res" where
  "fs_disk_getsize ino s = Inr (int (FS_DISK_SIZE div BLOCK_SIZE), s)"

definition fs_disk_setsize :: "u32 \<Rightarrow> u32 \<Rightarrow> 's \<Rightarrow> (int \<times> 's) res" where
  "fs_disk_setsize ino nblocks s = Inl (Fatal ''disk: cannot set the size'')"

definition fs_disk_read ::
    "'h mmc_ops \<Rightarrow> ('h mmcs option list \<Rightarrow> block) \<Rightarrow> u32 \<Rightarrow> u32 \<Rightarrow> 'h mmcs option list \<Rightarrow>
       (block option \<times> 'h mmcs option list) res" where
  "fs_disk_read H buf ino offset devs =
     bindE (stop_or (disk_read H (sint (word_of_nat GRASS_FS_START + offset)) 1 (buf devs) devs)) (\<lambda>((r, b), devs).
     Inr (if r < 0 then None else Some b, devs))"

definition fs_disk_write ::
    "u32 \<Rightarrow> u32 \<Rightarrow> block \<Rightarrow> 'h mmcs option list \<Rightarrow> (int \<times> 'h mmcs option list) res" where
  "fs_disk_write ino offset b devs = disk_write (sint (word_of_nat GRASS_FS_START + offset)) 1 b devs"

definition fs_disk_init :: "'h mmc_ops \<Rightarrow> ('h mmcs option list \<Rightarrow> block) \<Rightarrow> 'h mmcs option list inode_store" where
  "fs_disk_init H buf =
     \<lparr>getsize_fn = fs_disk_getsize, setsize_fn = fs_disk_setsize,
      read_fn = fs_disk_read H buf, write_fn = fs_disk_write\<rparr>"

section \<open>Reading a treedisk whose store changes state\<close>

locale reading_store =
  fixes store :: "'s inode_store"
    and ino :: u32
    and ok :: "'s \<Rightarrow> bool"
    and nblk :: nat
    and view :: "'s \<Rightarrow> u32 \<Rightarrow> block"
  assumes read_view: "ok s \<Longrightarrow> unat off < nblk \<Longrightarrow>
      \<exists>s'. read_fn store ino off s = Inr (Some (view s off), s') \<and> ok s' \<and> view s' = view s"
    and view_block: "ok s \<Longrightarrow> unat off < nblk \<Longrightarrow> length (view s off) = 512"

sublocale readable_store \<subseteq> reading: reading_store store ino ok nblk view
  by unfold_locales (use read_ok view_length in blast)+

context reading_store
begin

lemma below_read_view:
  assumes "ok s" and "unat off < nblk"
  obtains s' where "below_read (treedisk_mk_state store ino) off s = Inr (Some (view s off), s')"
    and "ok s'" and "view s' = view s"
  using read_view [OF assms] by (auto simp: below_read_def treedisk_mk_state_def)

lemma read_walk_view:
  assumes "ok s" and "\<And>b. b \<in> set (tree_blocks (view s) n r) \<Longrightarrow> unat b < nblk"
  shows "\<exists>s'. treedisk_read_walk (treedisk_mk_state store ino) off n r s = Inr (Some (tree_read (view s) n r off), s') \<and>
    ok s' \<and> view s' = view s"
  using assms
proof (induction n arbitrary: r s)
  case 0
  show ?case
  proof (cases "r = 0")
    case False
    have "unat r < nblk" using 0(2) False by simp
    then obtain s' where "below_read (treedisk_mk_state store ino) r s = Inr (Some (view s r), s')" "ok s'" "view s' = view s"
      using below_read_view [OF 0(1)] by blast
    then show ?thesis using False by (simp add: treedisk_read_walk.simps [of _ _ 0] tree_read_def)
  qed (use 0 in \<open>simp add: treedisk_read_walk.simps [of _ _ 0]\<close>)
next
  case (Suc n)
  show ?case
  proof (cases "r = 0")
    case False
    have "unat r < nblk" using Suc.prems(2) tree_root_in [OF False] by blast
    then obtain s1 where s1: "below_read (treedisk_mk_state store ino) r s = Inr (Some (view s r), s1)" "ok s1" "view s1 = view s"
      using below_read_view [OF Suc.prems(1)] by blast
    have "unat b < nblk" if "b \<in> set (tree_blocks (view s1) n (get32 (view s r) (ref_index off n)))" for b
      using that Suc.prems(2) tree_blocks_child_subset [OF False ref_index_less] unfolding s1(3) by (meson subsetD)
    from Suc.IH [OF s1(2) this] s1 show ?thesis
      using False by (simp add: treedisk_read_walk.simps [of _ _ "Suc n"] tree_read_Suc)
  qed (use Suc.prems in \<open>simp add: treedisk_read_walk.simps [of _ _ "Suc n"]\<close>)
qed

lemma get_snapshot_view:
  assumes "ok s" and "fs_ok nblk (view s) bs"
  shows "\<exists>s'. treedisk_get_snapshot (treedisk_mk_state store ino) i s =
    Inr (if unat i < fs_inodes (view s)
         then Some \<lparr>superblock = view s 0, inodeblock = view s (fs_blkno i), inode_blockno = fs_blkno i,
                     inode = unat i mod INODES_PER_BLOCK\<rparr>
         else None, s') \<and> ok s' \<and> view s' = view s"
proof -
  have "unat (0 :: u32) < nblk" using fs_okD(1) [OF assms(2)] by simp
  then obtain s1 where s1: "below_read (treedisk_mk_state store ino) 0 s = Inr (Some (view s 0), s1)" "ok s1" "view s1 = view s"
    using below_read_view [OF assms(1)] by blast
  show ?thesis
  proof (cases "unat i < fs_inodes (view s)")
    case True
    obtain s2 where "below_read (treedisk_mk_state store ino) (fs_blkno i) s1 = Inr (Some (view s (fs_blkno i)), s2)"
        "ok s2" "view s2 = view s"
      using below_read_view [OF s1(2) fs_blkno_range [OF assms(2) True]] s1(3) by metis
    then show ?thesis
      using True s1 by (simp add: treedisk_get_snapshot_def fs_inodes_def fs_blkno_def [symmetric] Let_def)
  next
    case False
    then show ?thesis using s1 by (simp add: treedisk_get_snapshot_def fs_inodes_def)
  qed
qed

lemma treedisk_read_view:
  assumes "ok s" and "fs_ok nblk (view s) bs"
  shows "\<exists>s'. treedisk_read (treedisk_mk_state store ino) i off s =
      Inr (Option.bind (fs_files (view s) i) (afile_read off), s') \<and> ok s' \<and> view s' = view s"
proof -
  obtain s1 where s1: "treedisk_get_snapshot (treedisk_mk_state store ino) i s =
    Inr (if unat i < fs_inodes (view s)
         then Some \<lparr>superblock = view s 0, inodeblock = view s (fs_blkno i), inode_blockno = fs_blkno i,
                     inode = unat i mod INODES_PER_BLOCK\<rparr>
         else None, s1)" "ok s1" "view s1 = view s"
    using get_snapshot_view [OF assms] by blast
  show ?thesis
  proof (cases "unat i < fs_inodes (view s) \<and> off < fs_size (view s) i")
    case True
    have "unat b < nblk" if "b \<in> set (fs_tree (view s) i)" for b
      using heap_okD(6) [OF fs_heap_split [OF assms(2) True [THEN conjunct1]]] that by simp
    then have "\<exists>s'. treedisk_read_walk (treedisk_mk_state store ino) off (nlevels_of (fs_size (view s) i)) (fs_root (view s) i) s1
        = Inr (Some (tree_read (view s1) (nlevels_of (fs_size (view s) i)) (fs_root (view s) i) off), s') \<and> ok s' \<and> view s' = view s1"
      unfolding fs_tree_def s1(3) [symmetric] by (rule read_walk_view [OF s1(2)])
    then show ?thesis
      using True s1 nlevels_of_bound [of off "fs_size (view s) i"]
      by (auto simp: treedisk_read_def fs_files_def afile_read_def fs_data_def tree_file_def Let_def not_less
          fs_size_def [symmetric] fs_root_def [symmetric])
  next
    case False
    then show ?thesis
      using s1 by (auto simp: treedisk_read_def fs_files_def afile_read_def Let_def fs_size_def [symmetric])
  qed
qed

lemma file_block_length:
  assumes "ok s" and "fs_ok nblk (view s) bs" and "Option.bind (fs_files (view s) i) (afile_read off) = Some b"
  shows "length b = 512"
proof -
  have i: "unat i < fs_inodes (view s)" and b: "b = fs_data (view s) i off"
    using assms(3) by (auto simp: fs_files_def afile_read_def split: if_split_asm)
  let ?n = "nlevels_of (fs_size (view s) i)" and ?r = "fs_root (view s) i"
  have "unat x < nblk" if "x \<in> set (tree_blocks (view s) ?n ?r)" for x
    using heap_okD(6) [OF fs_heap_split [OF assms(2) i]] that by (simp add: fs_tree_def)
  then have "length (tree_read (view s) ?n ?r off) = 512"
    using tree_leaf_in [of "view s" ?n ?r off] view_block [OF assms(1)] by (auto simp: tree_read_def)
  then show ?thesis by (simp add: b fs_data_def tree_file_def)
qed

end

section \<open>The disk of a working card\<close>

text \<open>
  \<open>card_ok\<close>: device 0 is a card that is set up for reading and holds the four megabytes of the disk map.
\<close>

definition card_ok :: "('h \<Rightarrow> bool) \<Rightarrow> ('h \<Rightarrow> nat \<Rightarrow> byte list) \<Rightarrow> 'h mmcs option list \<Rightarrow> bool" where
  "card_ok ok content devs \<longleftrightarrow> length devs = 2 \<and> (case devs ! 0 of None \<Rightarrow> False | Some s \<Rightarrow>
     ok (host s) \<and> (\<forall>i. length (content (host s) i) = 512) \<and> read_bl_len (dev s) = 512 \<and>
     0 < b_max (dev s) \<and> unat (b_max (dev s)) < 2 ^ 23 \<and> 8192 \<le> unat (lba (dev s)) \<and>
     (high_capacity (dev s) \<or> unat (lba (dev s)) * 512 \<le> 2 ^ 32))"

definition card_block :: "('h \<Rightarrow> nat \<Rightarrow> byte list) \<Rightarrow> 'h mmcs option list \<Rightarrow> nat \<Rightarrow> block" where
  "card_block content devs i = (case devs ! 0 of None \<Rightarrow> [] | Some s \<Rightarrow> content (host s) i)"

definition fs_view :: "('h \<Rightarrow> nat \<Rightarrow> byte list) \<Rightarrow> 'h mmcs option list \<Rightarrow> u32 \<Rightarrow> block" where
  "fs_view content devs off =
     (if unat off < FS_DISK_SIZE div BLOCK_SIZE then card_block content devs (GRASS_FS_START + unat off) else [])"

lemma disk_read_ok:
  assumes w: "working_host H ok content" and c: "card_ok ok content devs"
    and r: "0 \<le> b" "0 < n" "nat b + nat n \<le> 8192" "nat n * 512 \<le> length dst"
  shows "\<exists>devs'. disk_read H b n dst devs =
      Some (Inr ((0, put_at dst 0 (concat (map (card_block content devs) [nat b..<nat b + nat n]))), devs')) \<and>
    card_ok ok content devs' \<and> card_block content devs' = card_block content devs"
proof -
  obtain s where s: "devs ! 0 = Some s" and l: "length devs = 2" using c by (auto simp: card_ok_def split: option.splits)
  note c' = c [unfolded card_ok_def s option.simps]
  have b: "unat (word_of_int b :: u64) = nat b" and n: "unat (word_of_int n :: u32) = nat n"
    using r by (simp_all add: unsigned_of_int take_bit_int_eq_self nat_less_iff)
  have "0 < (word_of_int n :: u32)" using r(2) n by (simp add: word_less_nat_alt)
  then have "\<exists>s'. mmc_bread H 0 (word_of_int b) (word_of_int n) dst devs =
      Some (Inr ((word_of_int n, put_at dst 0 (concat (map (content (host s)) [unat (word_of_int b :: u64)..<unat (word_of_int b :: u64) + unat (word_of_int n :: u32)]))),
        devs[nat 0 := Some s'])) \<and> dev s' = dev s \<and> content (host s') = content (host s) \<and> ok (host s')"
    by (intro mmc_bread_ok [OF w]) (use c' r in \<open>simp_all add: b n s\<close>)
  then obtain s' where s': "mmc_bread H 0 (word_of_int b) (word_of_int n) dst devs =
      Some (Inr ((word_of_int n, put_at dst 0 (concat (map (content (host s)) [nat b..<nat b + nat n]))), devs[0 := Some s']))"
    "dev s' = dev s" "content (host s') = content (host s)" "ok (host s')" by (auto simp: b n)
  have cb: "card_block content devs = content (host s)" by (rule ext) (simp add: card_block_def s)
  have "card_ok ok content (devs[0 := Some s'])" using c' unfolding card_ok_def by (simp add: l s')
  moreover have "card_block content (devs[0 := Some s']) = card_block content devs"
    unfolding cb by (rule ext) (simp add: card_block_def l s')
  moreover have "disk_read H b n dst devs =
      Some (Inr ((0, put_at dst 0 (concat (map (card_block content devs) [nat b..<nat b + nat n]))), devs[0 := Some s']))"
    unfolding disk_read_def sdc_no_def s'(1) cb by simp
  ultimately show ?thesis by blast
qed

lemma card_block_length: "card_ok ok content devs \<Longrightarrow> length (card_block content devs i) = 512"
  by (auto simp: card_ok_def card_block_def split: option.splits)

lemma disk_read_block:
  assumes w: "working_host H ok content" and c: "card_ok ok content devs" and "k < 8192" "length dst = 512"
  obtains devs' where "disk_read H (int k) 1 dst devs = Some (Inr ((0, card_block content devs k), devs'))"
    and "card_ok ok content devs'" and "card_block content devs' = card_block content devs"
proof -
  have r: "0 \<le> int k" "0 < (1 :: int)" "nat (int k) + nat 1 \<le> 8192" "nat 1 * 512 \<le> length dst" using assms(3,4) by simp_all
  have "put_at dst 0 (concat (map (card_block content devs) [nat (int k)..<nat (int k) + nat 1])) = card_block content devs k"
    using assms(4) card_block_length [OF c] by (simp add: put_at_def upt_rec)
  then show thesis using that disk_read_ok [OF w c r] by auto
qed

lemma sint_small:
  assumes "unat w < 2 ^ 31"
  shows "sint (w :: u32) = int (unat w)"
proof -
  have "int (unat w) < int (2 ^ 31)" using assms by (simp only: of_nat_less_iff)
  then have "uint w < 2 ^ 31" by simp
  then have "signed_take_bit 31 (uint w) = uint w"
    by (intro signed_take_bit_int_eq_self) (use uint_ge_0 [of w] in linarith)+
  then show ?thesis by (simp add: sint_uint)
qed

lemma fs_disk_reading:
  assumes w: "working_host H ok content" and "\<And>devs. length (buf devs) = 512"
  shows "reading_store (fs_disk_init H buf) 0 (card_ok ok content) 4096 (fs_view content)"
proof
  fix devs and off :: u32
  assume c: "card_ok ok content devs" and off: "unat off < 4096"
  have b: "sint (word_of_nat GRASS_FS_START + off) = int (4096 + unat off)"
    using off sint_small [of "word_of_nat GRASS_FS_START + off"] by (simp add: layout_simps unat_word_ariths)
  show "\<exists>devs'. read_fn (fs_disk_init H buf) 0 off devs = Inr (Some (fs_view content devs off), devs') \<and>
      card_ok ok content devs' \<and> fs_view content devs' = fs_view content devs"
  proof (rule disk_read_block [OF w c])
    show "4096 + unat off < 8192" "length (buf devs) = 512" using off assms(2) by simp_all
  next
    fix devs'
    assume r: "disk_read H (int (4096 + unat off)) 1 (buf devs) devs =
        Some (Inr ((0, card_block content devs (4096 + unat off)), devs'))"
      and d: "card_ok ok content devs'" "card_block content devs' = card_block content devs"
    have "read_fn (fs_disk_init H buf) 0 off devs = Inr (Some (fs_view content devs off), devs')"
      by (simp only: fs_disk_init_def inode_store.simps fs_disk_read_def b r) (use off in \<open>simp add: stop_or_def fs_view_def layout_simps\<close>)
    moreover have "fs_view content devs' = fs_view content devs" by (rule ext) (simp add: fs_view_def fun_cong [OF d(2)])
    ultimately show ?thesis using d(1) by blast
  qed
  show "length (fs_view content devs off) = 512" using card_block_length [OF c] off by (simp add: fs_view_def layout_simps)
qed

end
