(* ===== verification/Servers_Correct.thy ===== *)
theory Servers_Correct
  imports Servers Fs_Disk
begin

text \<open>
  Correctness of the file and directory servers: a client's read through the file server is the read of
  the file system, and a lookup through the directory server finds the entry of a directory in the
  format that \<^verbatim>\<open>mkfs\<close> writes. The last section composes the layers from the disk image to a lookup.
\<close>

section \<open>The text of a directory\<close>

text \<open>An entry is a name, at least one blank, the inode number and a blank.\<close>

type_synonym dir_entry = "byte list \<times> nat \<times> nat"

fun dir_line :: "dir_entry \<Rightarrow> byte list" where
  "dir_line (nm, k, i) = nm @ replicate (Suc k) 32 @ decimal i @ [32]"

definition dir_text :: "dir_entry list \<Rightarrow> byte list" where
  "dir_text es = concat (map dir_line es)"

definition dir_name :: "byte list \<Rightarrow> bool" where
  "dir_name nm \<longleftrightarrow> 0 \<notin> set nm \<and> 32 \<notin> set nm \<and> (\<exists>b \<in> set nm. \<not> is_digit b)"

definition dir_find :: "dir_entry list \<Rightarrow> byte list \<Rightarrow> int" where
  "dir_find es nm = (case map_of (map (\<lambda>(nm, _, i). (nm, int i)) es) nm of None \<Rightarrow> -1 | Some i \<Rightarrow> i)"

definition dir_ok :: "dir_entry list \<Rightarrow> bool" where
  "dir_ok es \<longleftrightarrow> (\<forall>(nm, k, i) \<in> set es. dir_name nm \<and> i < 2 ^ 31)"

text \<open>Search for a word, by structural recursion: the text behind the first one that is \<open>nm\<close>.\<close>

fun find_word :: "bool \<Rightarrow> byte list \<Rightarrow> byte list \<Rightarrow> byte list option" where
  "find_word start nm [] = None"
| "find_word start nm (c # cs) =
     (if start \<and> take (length nm) (c # cs) = nm \<and> length nm < length (c # cs) \<and> (c # cs) ! length nm = 32
      then Some (drop (length nm) (c # cs)) else find_word (c = 32) nm cs)"

lemma find_word_skip: "32 \<notin> set w \<Longrightarrow> find_word False nm (w @ 32 # t) = find_word False nm (32 # t)"
  by (induction w) auto

lemma find_word_blank: "nm \<noteq> [] \<Longrightarrow> 32 \<notin> set nm \<Longrightarrow> find_word start nm (32 # t) = find_word True nm t"
  by (cases nm) auto

lemma word_prefix:
  assumes "32 \<notin> set w" and "32 \<notin> set nm"
  shows "take (length nm) (w @ 32 # t) = nm \<and> length nm < length (w @ 32 # t) \<and> (w @ 32 # t) ! length nm = 32 \<longleftrightarrow> nm = w"
  using assms
proof (induction w arbitrary: nm)
  case Nil
  then show ?case by (cases nm) auto
next
  case (Cons c w)
  show ?case
  proof (cases nm)
    case Nil
    then show ?thesis using Cons.prems by auto
  next
    case (Cons d nm')
    then show ?thesis using Cons.IH [of nm'] Cons.prems by auto
  qed
qed

lemma find_word_word:
  assumes "w \<noteq> []" "32 \<notin> set w" "32 \<notin> set nm"
  shows "find_word True nm (w @ 32 # t) = (if nm = w then Some (32 # t) else find_word False nm (32 # t))"
proof -
  obtain c cs where w: "w = c # cs" using assms(1) by (cases w) auto
  have "c \<noteq> 32" "32 \<notin> set cs" using assms(2) w by auto
  then show ?thesis
    using word_prefix [OF assms(2,3), of t] find_word_skip [of cs nm t] by (auto simp: w)
qed

declare find_word.simps [simp del]

lemma find_word_blanks:
  "nm \<noteq> [] \<Longrightarrow> 32 \<notin> set nm \<Longrightarrow> find_word start nm (replicate (Suc k) 32 @ t) = find_word True nm t"
  by (induction k arbitrary: start) (simp_all add: find_word_blank)

lemma decimal_word: "dir_name nm \<Longrightarrow> nm \<noteq> decimal i" "32 \<notin> set (decimal i)"
  using decimal_digits [of i] digit_not_space unfolding dir_name_def by auto

lemma find_word_line:
  assumes nm: "dir_name nm" and w: "dir_name w"
  shows "find_word True nm (dir_line (w, k, i) @ t) =
    (if nm = w then Some (replicate (Suc k) 32 @ decimal i @ 32 # t) else find_word True nm t)"
proof -
  have ne: "nm \<noteq> []" "32 \<notin> set nm" "w \<noteq> []" "32 \<notin> set w" using nm w by (auto simp: dir_name_def)
  have "find_word True nm (decimal i @ 32 # t) = find_word True nm t"
    using find_word_word [OF decimal_nonempty decimal_word(2) ne(2)] decimal_word(1) [OF nm] ne
    by (simp add: find_word_blank)
  then show ?thesis
    using find_word_word [OF ne(3,4,2)] find_word_blanks [OF ne(1,2), of False k] by simp
qed

lemma find_word_text:
  assumes "dir_name nm" "dir_ok es"
  shows "case find_word True nm (dir_text es) of None \<Rightarrow> dir_find es nm = -1
    | Some t \<Rightarrow> \<exists>k i r. t = replicate (Suc k) 32 @ decimal i @ 32 # r \<and> dir_find es nm = int i \<and> i < 2 ^ 31"
  using assms(2)
proof (induction es)
  case Nil
  show ?case by (simp add: dir_text_def dir_find_def find_word.simps)
next
  case (Cons e es)
  obtain w k i where e: "e = (w, k, i)" by (cases e)
  have w: "dir_name w" "i < 2 ^ 31" and es: "dir_ok es" using Cons.prems by (auto simp: dir_ok_def e)
  have step: "find_word True nm (dir_text (e # es)) =
      (if nm = w then Some (replicate (Suc k) 32 @ decimal i @ 32 # dir_text es) else find_word True nm (dir_text es))"
    using find_word_line [OF assms(1) w(1)] by (simp add: dir_text_def e)
  show ?case
  proof (cases "nm = w")
    case True
    have "find_word True nm (dir_text (e # es)) = Some (replicate (Suc k) 32 @ decimal i @ 32 # dir_text es)"
      "dir_find (e # es) nm = int i"
      using step True by (simp_all add: dir_find_def e)
    then show ?thesis using w(2) by (auto simp del: replicate_Suc)
  next
    case False
    then have "find_word True nm (dir_text (e # es)) = find_word True nm (dir_text es)"
      "dir_find (e # es) nm = dir_find es nm"
      using step by (auto simp: dir_find_def e)
    then show ?thesis using Cons.IH [OF es] by (simp only:)
  qed
qed

section \<open>The loop of the directory server\<close>

lemma find_word_short: "length t \<le> length nm \<Longrightarrow> find_word start nm t = None"
  by (induction t arbitrary: start) (auto simp: find_word.simps)

lemma lookup_loop_word:
  assumes buf: "buf = text @ 0 # rest" and len: "length text = length nm + bound" and "i \<le> length text"
  shows "lookup_loop buf nm bound i =
    (case find_word (i = 0 \<or> text ! (i - 1) = 32) nm (drop i text) of None \<Rightarrow> Inr (-1)
     | Some t \<Rightarrow> atoi (t @ 0 # rest))"
  using assms(3)
proof (induction "length text - i" arbitrary: i rule: less_induct)
  case less
  show ?case
  proof (cases "i < bound")
    case False
    then have "find_word (i = 0 \<or> text ! (i - 1) = 32) nm (drop i text) = None"
      using len by (intro find_word_short) simp
    then show ?thesis using False by (simp add: lookup_loop.simps)
  next
    case True
    let ?n = "length nm"
    have il: "i + ?n < length text" "i < length text" using True len by simp_all
    obtain c cs where d: "drop i text = c # cs" "c = text ! i" "cs = drop (Suc i) text"
      using il(2) Cons_nth_drop_Suc by metis
    have eq: "strncmp_eq nm (drop i buf) = Inr (take ?n (c # cs) = nm)"
      using il strncmp_eq_ok [of nm "drop i buf"] by (simp add: buf d(1) [symmetric])
    have nx: "buf ! (i + ?n) = (c # cs) ! ?n" "?n < length (c # cs)" "\<not> i + ?n \<ge> length buf"
      using il unfolding d(1) [symmetric] by (simp_all add: buf nth_append)
    have "i - 1 < length text" using il(2) by linarith
    then have pv: "buf ! (i - 1) = text ! (i - 1)" by (simp add: buf nth_append)
    have rest: "drop (i + ?n) buf = drop ?n (c # cs) @ 0 # rest"
      using il unfolding d(1) [symmetric] by (simp add: buf add.commute)
    have IH: "lookup_loop buf nm bound (Suc i) =
        (case find_word (c = 32) nm cs of None \<Rightarrow> Inr (-1) | Some t \<Rightarrow> atoi (t @ 0 # rest))"
      using less.hyps [of "Suc i"] il(2) by (simp add: d(2,3))
    show ?thesis
      unfolding lookup_loop.simps [of buf nm bound i] d(1) find_word.simps(2)
      using True nx(2,3) by (auto simp: eq nx(1) pv [unfolded One_nat_def] rest IH)
  qed
qed

lemma lookup_in_text:
  assumes "dir_ok es" "dir_name nm" "length nm \<le> length (dir_text es)" "length (dir_text es) < 2 ^ 64" "0 \<notin> set (dir_text es)"
  shows "lookup_in (dir_text es @ 0 # rest) nm = Inr (dir_find es nm)"
proof -
  let ?t = "dir_text es"
  have "unat (word_of_nat (length ?t) - word_of_nat (length nm) :: u64) = length ?t - length nm"
    using assms(3,4) by (simp add: unat_sub word_le_nat_alt unat_of_nat)
  then have "lookup_in (?t @ 0 # rest) nm =
      (case find_word True nm ?t of None \<Rightarrow> Inr (-1) | Some t \<Rightarrow> atoi (t @ 0 # rest))"
    using lookup_loop_word [of "?t @ 0 # rest" ?t rest nm "length ?t - length nm" 0] assms(3)
    by (simp add: lookup_in_def c_str_append [OF assms(5)])
  then show ?thesis
    using find_word_text [OF assms(2,1)] atoi_decimal by (auto split: option.splits simp del: replicate_Suc)
qed

section \<open>Reading through the file server\<close>

lemma put_at_0: "length xs \<le> length buf \<Longrightarrow> put_at buf 0 xs = xs @ drop (length xs) buf"
  by (simp add: put_at_def)

lemma put32_le32: "put32 (le32 a @ rest) 0 w = le32 w @ rest"
  by (simp add: put32_def le32_def)

lemma get32_second [simp]: "get32 (le32 a @ le32 b @ rest) (Suc 0) = b"
  using get32_append [of "le32 a" 1 1] by simp

lemma get32_third [simp]: "get32 (le32 a @ le32 b @ le32 c @ rest) 2 = c"
  using get32_append [of "le32 a @ le32 b" 2 2] by simp

lemma put32_second: "put32 (le32 a @ le32 b @ rest) (Suc 0) w = le32 a @ le32 w @ rest"
  by (simp add: put32_def le32_def)

lemma sys_file_reply:
  assumes "read_fn fs ino off s = Inr (r, s')" and "length blk = 512" "length area = 1024"
    and "\<And>b. r = Some b \<Longrightarrow> length b = 512"
  shows "sys_file_step fs (put_at area 0 (file_request FILE_READ ino off blk)) s =
    Inr (case r of Some b \<Rightarrow> le32 FILE_OK @ b
         | None \<Rightarrow> le32 FILE_ERROR @ le32 ino @ le32 off @ take 504 blk, s')"
proof -
  have buf: "put_at area 0 (file_request FILE_READ ino off blk) =
      le32 FILE_READ @ le32 ino @ le32 off @ blk @ drop 524 area"
    using assms(2,3) by (simp add: put_at_0 file_request_def)
  show ?thesis
    unfolding sys_file_step_def buf
    using assms by (cases r) (simp_all add: put_at_def put32_le32 Let_def layout_simps)
qed

lemma file_read_served:
  assumes "read_fn fs ino off s = Inr (r, s')" and "length blk = 512" "length area = 1024"
    and "\<And>b. r = Some b \<Longrightarrow> length b = 512"
  shows "file_read (serve GPID_FILE (sys_file_step fs) area) blk ino off s =
    Inr (case r of Some b \<Rightarrow> (0, b) | None \<Rightarrow> (-1, le32 ino @ le32 off @ take 504 blk), s')"
proof -
  define reply where "reply = (case r of Some b \<Rightarrow> le32 FILE_OK @ b
         | None \<Rightarrow> le32 FILE_ERROR @ le32 ino @ le32 off @ take 504 blk)"
  have "sys_file_step fs (put_at area 0 (file_request FILE_READ ino off blk)) s = Inr (reply, s')"
    unfolding reply_def by (rule sys_file_reply [OF assms])
  then have "serve GPID_FILE (sys_file_step fs) area GPID_FILE (file_request FILE_READ ino off blk) s =
      Inr ((GPID_FILE, put_at area 0 reply), s')"
    by (simp add: serve_def)
  moreover have "put_at area 0 reply = reply @ drop 516 area"
    using assms(2-4) by (cases r) (simp_all add: put_at_0 reply_def)
  ultimately show ?thesis
    using assms(2-4) by (cases r) (simp_all add: file_read_def reply_def layout_simps FILE_OK_def FILE_ERROR_def)
qed

section \<open>Looking up through the directory server\<close>

lemma dir_lookup_served:
  assumes r: "file_read rpc blk ino 0 s = Inr ((e, buf), s')" and l: "lookup_in buf name = Inr i"
    and i: "-1 \<le> i" "i < 2 ^ 31" and len: "length stale = 32" "length name < 32" "length area = 1024" "0 \<notin> set name"
  shows "dir_lookup (serve GPID_DIR (sys_dir_step rpc blk) area) stale ino name s = Inr (i, s')"
proof -
  obtain nm where nm: "strcpy_to stale name = Inr nm" using len(1,2) by (simp add: strcpy_to_def)
  have c: "c_str (nm @ rest) = Inr name" "length nm = 32" for rest
    using c_str_strcpy [OF nm len(4)] len(1) by auto
  have buf: "put_at area 0 (dir_request DIR_LOOKUP ino nm) = le32 DIR_LOOKUP @ le32 ino @ nm @ drop 40 area"
    using len c(2) by (simp add: put_at_0 dir_request_def)
  have d: "dir_do_lookup rpc blk ino name s = Inr (i, s')" by (simp add: dir_do_lookup_def r l)
  have step: "sys_dir_step rpc blk (put_at area 0 (dir_request DIR_LOOKUP ino nm)) s =
      Inr (le32 (if (word_of_int i :: u32) = -1 then DIR_ERROR else DIR_OK) @ le32 (word_of_int i), s')"
    unfolding sys_dir_step_def buf by (simp add: c d put32_second put32_le32 Let_def)
  have si: "sint (word_of_int i :: u32) = i"
    using i by (simp add: signed_of_int signed_take_bit_int_eq_self)
  have neg: "(word_of_int i :: u32) = -1 \<longleftrightarrow> i = -1"
  proof
    assume "(word_of_int i :: u32) = -1"
    then have "sint (word_of_int i :: u32) = sint (-1 :: u32)" by simp
    then show "i = -1" unfolding si by simp
  qed simp
  have "serve GPID_DIR (sys_dir_step rpc blk) area GPID_DIR (dir_request DIR_LOOKUP ino nm) s =
      Inr ((GPID_DIR, le32 (if i = -1 then DIR_ERROR else DIR_OK) @ le32 (word_of_int i) @ drop 8 area), s')"
    using len(3) by (simp add: serve_def step neg put_at_0)
  then show ?thesis by (simp add: dir_lookup_def nm si DIR_OK_def DIR_ERROR_def)
qed

section \<open>Names longer than the directory\<close>

lemma strncmp_eq_zero:
  assumes "0 \<notin> set name" "0 \<in> set buf" "length (takeWhile (\<lambda>b. b \<noteq> 0) buf) < length name"
  shows "strncmp_eq name buf = Inr False"
  using assms by (induction name buf rule: strncmp_eq.induct) (auto split: if_split_asm)

lemma lookup_loop_escapes:
  assumes "0 \<notin> set name" "length text < length name" "buf = text @ replicate (Suc n) 0"
    and "length buf < bound"
  shows "i \<le> length buf \<Longrightarrow> lookup_loop buf name bound i = Inl (Undefined ''strncmp: outside the buffer'')"
proof (induction "length buf - i" arbitrary: i rule: less_induct)
  case less
  show ?case
  proof (cases "i < length buf")
    case True
    have d: "drop i buf = drop i text @ replicate (Suc n - (i - length text)) 0"
      using assms(3) by (simp add: drop_replicate del: replicate_Suc)
    have z: "0 < Suc n - (i - length text)" using True assms(3) by simp
    have "strncmp_eq name (drop i buf) = Inr False"
    proof (rule strncmp_eq_zero [OF assms(1)])
      show "0 \<in> set (drop i buf)" unfolding d using z by simp
      have "length (takeWhile (\<lambda>b. b \<noteq> 0) (drop i buf)) \<le> length (drop i text)"
        unfolding d using z by (cases "Suc n - (i - length text)") (use length_takeWhile_le [of _ "drop i text"] in \<open>simp_all add: takeWhile_tail\<close>)
      then show "length (takeWhile (\<lambda>b. b \<noteq> 0) (drop i buf)) < length name" using assms(2) by simp
    qed
    then show ?thesis
      using True assms(4) less.hyps [of "Suc i"] by (simp add: lookup_loop.simps [of buf name bound i])
  next
    case False
    then have "i = length buf" "name \<noteq> []" using less.prems assms(2) by auto
    then show ?thesis using assms(4) by (cases name) (simp_all add: lookup_loop.simps)
  qed
qed

text \<open>
  C32: When the directory file is one zero-padded block and the name looked up is longer than the text of
  the directory, the loop of dir_do_lookup runs out of its buffer: the unsigned bound wraps around.
\<close>

theorem lookup_long_name_escapes:
  assumes "0 \<notin> set text" "0 \<notin> set name" "length text < length name" "length name < 1024"
    "length text + Suc n = 512"
  shows "lookup_in (text @ replicate (Suc n) 0) name = Inl (Undefined ''strncmp: outside the buffer'')"
proof -
  have "unat (word_of_nat (length text) - word_of_nat (length name) :: u64) = 2 ^ 64 + length text - length name"
    using assms(3,4) by (simp add: unat_sub_if_size unat_of_nat word_size word_le_nat_alt)
  then have b: "512 < unat (word_of_nat (length text) - word_of_nat (length name) :: u64)" using assms(4) by simp
  have "length (text @ replicate (Suc n) 0) = 512" using assms(5) by simp
  then show ?thesis
    using lookup_loop_escapes [OF assms(2,3) refl, of n, where i = 0] b c_str_append [OF assms(1)]
    by (simp add: lookup_in_def)
qed

theorem lookup_long_name_escapes_witness:
  "lookup_in (of_str ''./   3 ../   1 '' @ replicate 497 0) (of_str ''a-file-with-a-long-name'') =
     Inl (Undefined ''strncmp: outside the buffer'')"
  using lookup_long_name_escapes [of "of_str ''./   3 ../   1 ''" "of_str ''a-file-with-a-long-name''" 496]
  by (simp add: of_str_def del: replicate_Suc)

section \<open>From the disk image to a lookup\<close>

definition dir_table :: "nat \<Rightarrow> dir_entry list" where
  "dir_table d =
     (let e = (\<lambda>nm i. (of_str nm, if i < 10 then 2 else 1, i)) in
      if d = 0 then [e ''./'' 0, e ''../'' 0, e ''home/'' 1, e ''bin/'' 6]
      else if d = 1 then [e ''./'' 1, e ''../'' 0, e ''yunhao/'' 2, e ''rvr/'' 3, e ''lorenzo/'' 4]
      else if d = 2 then [e ''./'' 2, e ''../'' 1, e ''README'' 5]
      else if d = 3 then [e ''./'' 3, e ''../'' 1]
      else if d = 4 then [e ''./'' 4, e ''../'' 1]
      else [e ''./'' 6, e ''../'' 0, e ''echo'' 7, e ''cat'' 8, e ''ls'' 9, e ''cd'' 10, e ''pwd'' 11,
            e ''clock'' 12, e ''crash1'' 13, e ''crash2'' 14, e ''ult'' 15])"

lemma dir_table_text:
  assumes "d \<in> {0, 1, 2, 3, 4, 6}"
  shows "map of_char (contents ! d) = dir_text (dir_table d)" "\<not> is_app (contents ! d)" "dir_ok (dir_table d)"
    "length (contents ! d) < 512" "0 \<notin> set (map of_char (contents ! d) :: byte list)"
  subgoal using assms by (elim insertE) (simp_all add: dir_table_def contents_def dir_text_def of_str_def decimal.simps numeral_3_eq_3)
  subgoal using assms by (elim insertE) (simp_all add: contents_def is_app_def)
  subgoal using assms by (elim insertE) (simp_all add: dir_table_def dir_ok_def dir_name_def of_str_def is_digit_def)
  subgoal using assms by (elim insertE) (simp_all add: contents_def)
  subgoal using assms by (elim insertE) (simp_all add: contents_def)
  done

text \<open>The file system of a booted system: the servers over the treedisk over the SD card.\<close>

abbreviation file_service :: "'h mmc_ops \<Rightarrow> ('h mmcs option list \<Rightarrow> block) \<Rightarrow> byte list \<Rightarrow> 'h mmcs option list rpc" where
  "file_service H buf area \<equiv> serve GPID_FILE (sys_file_step (treedisk_init (fs_disk_init H buf) 0)) area"

abbreviation dir_service ::
    "'h mmc_ops \<Rightarrow> ('h mmcs option list \<Rightarrow> block) \<Rightarrow> byte list \<Rightarrow> byte list \<Rightarrow> 'h mmcs option list rpc" where
  "dir_service H buf blk area \<equiv> serve GPID_DIR (sys_dir_step (file_service H buf area) blk) area"

lemma file_service_ok:
  assumes w: "working_host H ok content" and "\<And>devs. length (buf devs) = 512" and c: "card_ok ok content devs"
    and fs: "fs_ok 4096 (fs_view content devs) bs" and "length blk = 512" "length area = 1024"
  shows "\<exists>devs'. file_read (file_service H buf area) blk ino off devs =
      Inr (case Option.bind (fs_files (fs_view content devs) ino) (afile_read off) of
             Some b \<Rightarrow> (0, b) | None \<Rightarrow> (-1, le32 ino @ le32 off @ take 504 blk), devs') \<and>
    card_ok ok content devs' \<and> fs_view content devs' = fs_view content devs"
proof -
  have rs: "reading_store (fs_disk_init H buf) 0 (card_ok ok content) 4096 (fs_view content)"
    by (rule fs_disk_reading [OF w assms(2)])
  let ?r = "Option.bind (fs_files (fs_view content devs) ino) (afile_read off)"
  obtain devs' where d: "treedisk_read (treedisk_mk_state (fs_disk_init H buf) 0) ino off devs = Inr (?r, devs')"
    "card_ok ok content devs'" "fs_view content devs' = fs_view content devs"
    using reading_store.treedisk_read_view [OF rs c fs, where i = ino and off = off] by blast
  have r: "read_fn (treedisk_init (fs_disk_init H buf) 0) ino off devs = Inr (?r, devs')"
    using d(1) by (simp add: treedisk_init_def treedisk_ops_def)
  have "length b = 512" if "?r = Some b" for b
    by (rule reading_store.file_block_length [OF rs c fs that])
  note file_read_served [OF r assms(5,6) this]
  then show ?thesis using d(2,3) by (intro exI [of _ devs'] conjI)
qed

definition holds_image :: "('h \<Rightarrow> nat \<Rightarrow> byte list) \<Rightarrow> 'h mmcs option list \<Rightarrow> byte list \<Rightarrow> bool" where
  "holds_image content devs img \<longleftrightarrow> (\<forall>i < length img div 512. card_block content devs i = take 512 (drop (512 * i) img))"

lemma fs_view_image:
  assumes "holds_image content devs img" and "length img = 4 * 1024 * 1024"
  shows "fs_view content devs = ram_view (drop (GRASS_FS_START * BLOCK_SIZE) img)"
proof
  fix off :: u32
  have "card_block content devs (4096 + unat off) = take 512 (drop (512 * (4096 + unat off)) img)" if "unat off < 4096"
    using assms that by (simp add: holds_image_def)
  then show "fs_view content devs off = ram_view (drop (GRASS_FS_START * BLOCK_SIZE) img) off"
    using assms(2) by (simp add: fs_view_def ram_view_def layout_simps algebra_simps)
qed

lemma text_block:
  assumes "entry_stored files e f" "\<not> is_app e" "0 < length e" "length e < 512"
  shows "afile_read 0 f = Some (map of_char e @ replicate (512 - length e) 0)"
proof -
  have "(length e + 511) div 512 = 1" using assms(3,4) by linarith
  then have "unat (asize f) = 1" using assms(1,2) by (simp add: entry_stored_def file_stores_def entry_data_def)
  moreover from this have "adata f 0 = map of_char e @ replicate (512 - length e) 0"
    using assms(1,2) by (simp add: entry_stored_def afile_bytes_def)
  ultimately show ?thesis by (simp add: afile_read_def word_less_nat_alt)
qed

lemma dir_find_range: "dir_ok es \<Longrightarrow> -1 \<le> dir_find es nm \<and> dir_find es nm < 2 ^ 31"
  by (fastforce simp: dir_find_def dir_ok_def split: option.splits dest!: map_of_SomeD)


text \<open>A card with the image of \<open>sample_host\<close>.\<close>

definition sample_card_content :: "byte list \<Rightarrow> nat \<Rightarrow> byte list" where
  "sample_card_content img i = (if i < 8192 then take 512 (drop (512 * i) img) else replicate 512 0)"

lemma sample_image:
  obtains img fs bs where "mkfs_main sample_host sample_chunk (replicate 131072 7) = Some (Inr img)"
    and "length img = 4 * 1024 * 1024" and "drop (GRASS_FS_START * BLOCK_SIZE) img = fs" and "fs_ok 4096 (ram_view fs) bs"
    and "\<And>k. k < 16 \<Longrightarrow> \<exists>f. fs_files (ram_view fs) (word_of_nat k) = Some f \<and> entry_stored sample_host (contents ! k) f"
proof -
  have a: "\<forall>e \<in> set contents. is_app e \<longrightarrow>
      length (sample_host (drop 1 e)) \<le> 65536 \<and> read_progress sample_chunk (length (sample_host (drop 1 e)))"
    using sample_progress by (simp add: contents_def sample_host_def)
  have k: "\<forall>n \<in> set kernel_processes. 0 < length (sample_host n) \<and> length (sample_host n) \<le> exec_size \<and>
      read_progress sample_chunk (length (sample_host n))"
    using sample_progress by (simp add: kernel_processes_def sample_host_def exec_size_def layout_simps)
  obtain img fs where i: "mkfs_main sample_host sample_chunk (replicate 131072 7) = Some (Inr img)"
    "mkfs sample_host sample_chunk (replicate 131072 7) (replicate FS_DISK_SIZE 0) = Some (Inr fs)"
    "length img = 4 * 1024 * 1024" "drop (GRASS_FS_START * BLOCK_SIZE) img = fs"
    using mkfs_main_ok [OF a length_replicate k] by blast
  show thesis
    using that [OF i(1,3,4)] mkfs_ok [OF a length_replicate, of 7] i(2) unfolding ram_fs_def by auto
qed

lemma sample_card_ok:
  assumes "length img = 4 * 1024 * 1024"
  shows "card_ok (\<lambda>_. True) (\<lambda>h. h) [Some (sample_sd (sample_card_content img)), None]"
    "holds_image (\<lambda>h. h) [Some (sample_sd (sample_card_content img)), None] img"
  using assms by (auto simp: card_ok_def holds_image_def card_block_def sample_sd_def sample_mmc_def sample_card_content_def)


text \<open>
  C12: On a working card with a well-formed file system, a client's file_read through the file server
  returns 0 and the block that the file stores at that offset, or -1 if the inode or the offset is out of
  range, and leaves the file system as it is.
\<close>

theorem file_read_through_server:
  assumes "working_host H ok content" and "\<forall>devs. length (buf devs) = 512" and "card_ok ok content devs"
    and "fs_ok 4096 (fs_view content devs) bs" and "length blk = 512" "length area = 1024"
  shows "\<exists>devs'. file_read (file_service H buf area) blk ino off devs =
      Inr (case Option.bind (fs_files (fs_view content devs) ino) (afile_read off) of
             Some b \<Rightarrow> (0, b) | None \<Rightarrow> (-1, le32 ino @ le32 off @ take 504 blk), devs') \<and>
    card_ok ok content devs' \<and> fs_view content devs' = fs_view content devs"
  by (rule file_service_ok [where buf = buf, OF assms(1) spec [OF assms(2)] assms(3-)])

theorem file_read_through_server_witness:
  "\<exists>img devs' b. file_read (file_service (ideal_ops (\<lambda>_. [0x100])) (\<lambda>_. replicate 512 9) (replicate 1024 2))
       (replicate 512 1) 5 0 [Some (sample_sd (sample_card_content img)), None] = Inr ((0, b), devs') \<and>
     take 29 b = of_str ''With only 2000 lines of code,''"
proof -
  obtain img fs bs where "mkfs_main sample_host sample_chunk (replicate 131072 7) = Some (Inr img)"
    and i: "length img = 4 * 1024 * 1024" "drop (GRASS_FS_START * BLOCK_SIZE) img = fs" "fs_ok 4096 (ram_view fs) bs"
    and files: "\<And>k. k < 16 \<Longrightarrow> \<exists>f. fs_files (ram_view fs) (word_of_nat k) = Some f \<and> entry_stored sample_host (contents ! k) f"
    by (rule sample_image) (rule that)
  from files [of 5] obtain f where f: "fs_files (ram_view fs) 5 = Some f" "entry_stored sample_host (contents ! 5) f" by auto
  have v: "fs_view (\<lambda>h. h) [Some (sample_sd (sample_card_content img)), None] = ram_view fs"
    using fs_view_image [OF sample_card_ok(2) [OF i(1)] i(1)] i(2) by simp
  have "afile_read 0 f = Some (map of_char (contents ! 5) @ replicate (512 - length (contents ! 5)) 0)"
    by (rule text_block [OF f(2)]) (simp_all add: contents_def is_app_def)
  moreover have "take 29 (map of_char (contents ! 5) :: byte list) = of_str ''With only 2000 lines of code,''"
    by (simp add: contents_def of_str_def)
  moreover have "29 \<le> length (contents ! 5)" by (simp add: contents_def)
  ultimately show ?thesis
    using file_read_through_server [of "ideal_ops (\<lambda>_. [0x100])" "\<lambda>_. True" "\<lambda>h. h" "\<lambda>_. replicate 512 9"
        "[Some (sample_sd (sample_card_content img)), None]" bs "replicate 512 1" "replicate 1024 2" 5 0,
        OF ideal_working _ sample_card_ok(1) [OF i(1)]] i(3) f(1)
    unfolding v by (intro exI [of _ img]) auto
qed

end
