(* ===== verification/Tty.thy ===== *)
theory Tty
  imports Mmu
begin

text \<open>
  The line editor of \<^verbatim>\<open>earth/dev_tty.c\<close>. \<^verbatim>\<open>uart0_getc\<close> waits for the next byte of \<^verbatim>\<open>uart_rx\<close>: a read that needs
  more input than there is does not return. What is printed is part of the result.
\<close>

section \<open>tty\_read and tty\_write\<close>

definition erase_echo :: "byte list" where "erase_echo = [8, 32, 8]"

definition newline_echo :: "byte list" where "newline_echo = [13, 10]"

text \<open>
  The loop, at index \<open>i\<close> of the buffer, with \<open>out\<close> printed so far. A backspace at index 0 sets the index
  to \<open>-1\<close>, which the loop increment undoes, so the index of the next round is never negative.
\<close>

fun tty_read_loop :: "nat \<Rightarrow> nat \<Rightarrow> byte list \<Rightarrow> byte list \<Rightarrow> byte list \<Rightarrow> ((nat \<times> byte list \<times> byte list) \<times> byte list) option" where
  "tty_read_loop len i buf out rx =
     (if i < len - 1 then
        (case rx of
           [] \<Rightarrow> None
         | c # rx \<Rightarrow>
             let buf = buf[i := c] in
             if c = 0x03 then Some ((0, (buf[0 := 0])[i := 0], out @ newline_echo), rx)
             else if c = 0x0d then Some ((i, buf[i := 0], out @ newline_echo), rx)
             else if c = 0x7f then tty_read_loop len (i - 1) buf (if i \<noteq> 0 then out @ erase_echo else out) rx
             else tty_read_loop len (i + 1) buf (if c \<noteq> 0 then out @ [c] else out) rx)
      else Some ((len - 1, buf[len - 1 := 0], out), rx))"

declare tty_read_loop.simps [simp del]

definition tty_read :: "nat \<Rightarrow> byte list \<Rightarrow> machine \<Rightarrow> ((nat \<times> byte list \<times> byte list) \<times> machine) option" where
  "tty_read len buf m =
     map_option (\<lambda>(r, rx). (r, m\<lparr>uart_rx := rx, is_reading := False\<rparr>)) (tty_read_loop len 0 buf [] (uart_rx m))"

definition tty_write :: "byte list \<Rightarrow> nat \<Rightarrow> byte list res" where
  "tty_write buf len = (if len \<le> length buf then Inr (take len buf) else Inl (Undefined ''tty_write: outside buf''))"

section \<open>A line editor\<close>

datatype line_end = Cancelled | Line "byte list"

text \<open>The editor on the line typed so far; a line ends by itself when it has \<open>n\<close> bytes.\<close>

fun line_edit :: "nat \<Rightarrow> byte list \<Rightarrow> byte list \<Rightarrow> (line_end \<times> byte list) option" where
  "line_edit n line rx =
     (if length line < n then
        (case rx of
           [] \<Rightarrow> None
         | c # rx \<Rightarrow>
             if c = 0x03 then Some (Cancelled, rx)
             else if c = 0x0d then Some (Line line, rx)
             else if c = 0x7f then line_edit n (butlast line) rx
             else line_edit n (line @ [c]) rx)
      else Some (Line line, rx))"

declare line_edit.simps [simp del]

text \<open>What a finished line means for the caller of \<^verbatim>\<open>tty_read\<close>: the returned count and the bytes in the buffer.\<close>

fun line_result :: "line_end \<Rightarrow> nat \<Rightarrow> byte list \<Rightarrow> bool" where
  "line_result Cancelled r buf \<longleftrightarrow> r = 0 \<and> take 1 buf = [0]"
| "line_result (Line line) r buf \<longleftrightarrow> r = length line \<and> take (length line + 1) buf = line @ [0]"

lemma take_list_update_snoc: "i < length buf \<Longrightarrow> take i buf = line \<Longrightarrow> take (Suc i) (buf[i := c]) = line @ [c]"
  by (simp add: take_Suc_conv_app_nth)

lemma tty_read_loop_full:
  assumes "take i buf = line" "i < len" "length buf = len" "\<not> i < len - 1"
  shows "line_edit (len - 1) line rx = Some (Line line, rx)"
    "\<exists>buf'. tty_read_loop len i buf out rx = Some ((length line, buf', out), rx) \<and> line_result (Line line) (length line) buf' \<and> length buf' = len"
proof -
  have l: "length line = i" "i = len - 1" using assms by auto
  then show "line_edit (len - 1) line rx = Some (Line line, rx)" by (simp add: line_edit.simps)
  have "take (Suc i) (buf[i := 0]) = line @ [0]"
    by (rule take_list_update_snoc) (use assms in simp_all)
  then show "\<exists>buf'. tty_read_loop len i buf out rx = Some ((length line, buf', out), rx) \<and> line_result (Line line) (length line) buf' \<and> length buf' = len"
    using l assms(2,3) by (simp add: tty_read_loop.simps)
qed

text \<open>The loop refines the editor, with the line in front of the index.\<close>

lemma tty_read_loop_edit:
  assumes "take i buf = line" "i < len" "length buf = len"
  shows "case line_edit (len - 1) line rx of
      None \<Rightarrow> tty_read_loop len i buf out rx = None
    | Some (e, rest) \<Rightarrow> \<exists>r buf' out'. tty_read_loop len i buf out rx = Some ((r, buf', out'), rest) \<and>
        line_result e r buf' \<and> length buf' = len"
  using assms
proof (induction rx arbitrary: i buf line out)
  case Nil
  have l: "length line = i" using Nil by auto
  show ?case
  proof (cases "i < len - 1")
    case False
    from tty_read_loop_full(1) [OF Nil False, of "[]"] tty_read_loop_full(2) [OF Nil False, of out "[]"] show ?thesis by auto
  qed (use l in \<open>simp add: line_edit.simps tty_read_loop.simps\<close>)
next
  case (Cons c rx)
  have l: "length line = i" using Cons.prems by auto
  have snoc: "take (Suc i) (buf[i := b]) = line @ [b]" for b
    by (rule take_list_update_snoc) (use Cons.prems in simp_all)
  show ?case
  proof (cases "i < len - 1")
    case False
    from tty_read_loop_full(1) [OF Cons.prems False, of "c # rx"] tty_read_loop_full(2) [OF Cons.prems False, of out "c # rx"] show ?thesis by auto
  next
    case i: True
    consider "c = 0x03" | "c = 0x0d" | "c = 0x7f" | "c \<noteq> 0x03 \<and> c \<noteq> 0x0d \<and> c \<noteq> 0x7f" by blast
    then show ?thesis
    proof cases
      case 1
      then show ?thesis
        using i l Cons.prems by (cases buf; cases i) (auto simp: line_edit.simps tty_read_loop.simps Let_def)
    next
      case 2
      then show ?thesis using i l snoc [of 0] Cons.prems by (auto simp: line_edit.simps tty_read_loop.simps Let_def)
    next
      case 3
      have "take (i - 1) (buf[i := c]) = butlast line"
        using Cons.prems(1,2,3) by (auto simp: butlast_conv_take min_def)
      note keep = this
      have eqs: "line_edit (len - 1) line (c # rx) = line_edit (len - 1) (butlast line) rx"
        "tty_read_loop len i buf out (c # rx) = tty_read_loop len (i - 1) (buf[i := c]) (if i \<noteq> 0 then out @ erase_echo else out) rx"
        using 3 i l by (simp_all add: line_edit.simps [of _ _ "_ # _"] tty_read_loop.simps [of _ _ _ _ "_ # _"])
      show ?thesis unfolding eqs by (rule Cons.IH [OF keep]) (use i Cons.prems in simp_all)
    next
      case 4
      have eqs: "line_edit (len - 1) line (c # rx) = line_edit (len - 1) (line @ [c]) rx"
        "tty_read_loop len i buf out (c # rx) = tty_read_loop len (Suc i) (buf[i := c]) (if c \<noteq> 0 then out @ [c] else out) rx"
        using 4 i l by (simp_all add: line_edit.simps [of _ _ "_ # _"] tty_read_loop.simps [of _ _ _ _ "_ # _"])
      show ?thesis unfolding eqs by (rule Cons.IH [OF snoc]) (use i Cons.prems in simp_all)
    qed
  qed
qed

text \<open>
  C17: \<open>tty_read\<close> is a line editor. It returns exactly when the input finishes a line; then it consumes the
  same input as the editor, returns the length of the line, and has stored the line with a zero behind it, or
  returns 0 and the empty string after Ctrl-C; it is no longer reading, and nothing else of the machine changes.
\<close>

theorem tty_read_line_edit:
  assumes "0 < len" "length buf = len"
  shows "case line_edit (len - 1) [] (uart_rx m) of
      None \<Rightarrow> tty_read len buf m = None
    | Some (e, rest) \<Rightarrow> \<exists>r buf' out. tty_read len buf m = Some ((r, buf', out), m\<lparr>uart_rx := rest, is_reading := False\<rparr>) \<and>
        line_result e r buf' \<and> length buf' = len"
  using tty_read_loop_edit [of 0 buf "[]" len "[]" "uart_rx m"] assms
  by (force simp: tty_read_def split: option.splits)

text \<open>The bytes \<open>l\<close>, backspace, \<open>s\<close> and Enter give the line \<open>s\<close>.\<close>

theorem tty_read_line_edit_witness:
  "let m = (\<lambda>rx. \<lparr>mem = (\<lambda>_. 0), table = [], curr_vm_pid = 1, uart_rx = rx, is_reading = False, mtime = 0, mtimecmp = 0, QUANTUM = 0\<rparr>) in
   \<exists>buf out. tty_read 8 (replicate 8 0) (m [108, 127, 115, 13, 99]) = Some ((1, buf, out), m [99]) \<and> take 2 buf = [115, 0]"
proof -
  let ?m = "\<lparr>mem = (\<lambda>_. 0), table = [], curr_vm_pid = 1, uart_rx = [108, 127, 115, 13, 99], is_reading = False, mtime = 0, mtimecmp = 0, QUANTUM = 0\<rparr>"
  have e: "line_edit (8 - 1) [] (uart_rx ?m) = Some (Line [115], [99])" by (simp add: line_edit.simps)
  have "length [115 :: byte] + 1 = 2" by simp
  then show ?thesis
    using tty_read_line_edit [of 8 "replicate 8 0" ?m] unfolding e by (auto simp only: option.case prod.case line_result.simps Let_def) auto
qed

end
