(* ===== verification/Shell.thy ===== *)
theory Shell
  imports Servers Tty
begin

text \<open>
  The shell, \<^verbatim>\<open>apps/system/sys_shell.c\<close>: splitting a line into arguments, and one command. The system-call
  functions of \<^verbatim>\<open>struct grass\<close> are a record of operations on the state of the system.
\<close>

section \<open>struct grass (egos.h)\<close>

record 's grass =
  proc_alloc_op :: "'s \<Rightarrow> (int \<times> 's) res"
  proc_free_op :: "int \<Rightarrow> 's \<Rightarrow> 's res"
  proc_set_ready_op :: "int \<Rightarrow> 's \<Rightarrow> 's res"
  sys_send_op :: "int \<Rightarrow> byte list \<Rightarrow> 's \<Rightarrow> 's res"
  sys_recv_op :: "nat \<Rightarrow> 's \<Rightarrow> ((int \<times> byte list) \<times> 's) res"

text \<open>\<^verbatim>\<open>struct proc_request\<close> of \<^verbatim>\<open>servers.h\<close>; \<open>argv\<close> has 16 strings of 32 bytes.\<close>

record proc_request =
  req_type :: u32
  argc :: u32
  argv :: "byte list"

definition proc_request_bytes :: "proc_request \<Rightarrow> byte list" where
  "proc_request_bytes r = le32 (req_type r) @ le32 (argc r) @ argv r"

definition proc_request_of :: "byte list \<Rightarrow> proc_request" where
  "proc_request_of b = \<lparr>req_type = get32 b 0, argc = get32 b 1, argv = take (CMD_NARGS * CMD_ARG_LEN) (drop 8 b)\<rparr>"

section \<open>parse\_request\<close>

text \<open>The loop over the characters; \<open>None\<close> is the return value \<open>-1\<close>.\<close>

fun parse_loop :: "byte list \<Rightarrow> nat \<Rightarrow> nat \<Rightarrow> byte list \<Rightarrow> nat option \<times> byte list" where
  "parse_loop [] idx nargs av = (Some (if idx \<noteq> 0 then nargs + 1 else nargs), av)"
| "parse_loop (c # cs) idx nargs av =
     (if c \<noteq> 32 then
        let av = av[nargs * CMD_ARG_LEN + idx := c] in
        if idx + 1 \<ge> CMD_ARG_LEN then (None, av) else parse_loop cs (idx + 1) nargs av
      else if idx \<noteq> 0 then
        let av = av[nargs * CMD_ARG_LEN + idx := 0] in
        if nargs + 1 \<ge> CMD_NARGS then (None, av) else parse_loop cs 0 (nargs + 1) av
      else parse_loop cs idx nargs av)"

definition parse_request :: "byte list \<Rightarrow> proc_request \<Rightarrow> (int \<times> proc_request) res" where
  "parse_request buf req =
     bindE (c_str buf) (\<lambda>str.
     case parse_loop str 0 0 (replicate (CMD_NARGS * CMD_ARG_LEN) 0) of
       (None, av) \<Rightarrow> Inr (-1, req\<lparr>argv := av\<rparr>)
     | (Some n, av) \<Rightarrow> Inr (0, req\<lparr>argv := av, argc := word_of_nat n\<rparr>))"

text \<open>The first character of the last argument, \<^verbatim>\<open>req.argv[req.argc - 1][0]\<close>.\<close>

definition last_arg :: "proc_request \<Rightarrow> byte res" where
  "last_arg req =
     (let i = sint (argc req) - 1 in
      if 0 \<le> i \<and> i < int CMD_NARGS then Inr (argv req ! (nat i * CMD_ARG_LEN))
      else Inl (Undefined ''argv: index out of range''))"

section \<open>The shell\<close>

text \<open>The first half of the loop body of \<^verbatim>\<open>main\<close>: one command line; \<open>req\<close> is the request as it is on the stack.\<close>

definition shell_command :: "'s grass \<Rightarrow> byte list \<Rightarrow> proc_request \<Rightarrow> 's \<Rightarrow> 's res" where
  "shell_command G buf req s =
     bindE (c_str buf) (\<lambda>str.
     if str = of_str ''killall'' then
       sys_send_op G GPID_PROCESS (proc_request_bytes (req\<lparr>req_type := PROC_KILLALL\<rparr>)) s
     else
       bindE (parse_request buf (req\<lparr>req_type := PROC_SPAWN\<rparr>)) (\<lambda>(r, req).
       if r \<noteq> 0 then Inr s
       else
         bindE (sys_send_op G GPID_PROCESS (proc_request_bytes req) s) (\<lambda>s.
         bindE (sys_recv_op G 4 s) (\<lambda>((_, reply), s).
         if get32 reply 0 \<noteq> CMD_OK then Inr s
         else
           bindE (last_arg req) (\<lambda>c.
           if c \<noteq> of_char CHR ''&'' then bindE (sys_recv_op G 4 s) (\<lambda>(_, s). Inr s) else Inr s)))))"

text \<open>The second half: lines are read until one is not empty.\<close>

lemma tty_read_loop_consumes:
  assumes "tty_read_loop len i buf out rx = Some (r, rest)"
  shows "length rest \<le> length rx" and "i < len - 1 \<Longrightarrow> length rest < length rx"
proof -
  have "length rest \<le> length rx \<and> (i < len - 1 \<longrightarrow> length rest < length rx)"
    using assms
  proof (induction rx arbitrary: i buf out)
    case (Cons c rx)
    show ?case
      using Cons.prems Cons.IH
      by (subst (asm) tty_read_loop.simps) (fastforce simp: Let_def split: if_split_asm)
  qed (auto simp: tty_read_loop.simps split: if_split_asm)
  then show "length rest \<le> length rx" and "i < len - 1 \<Longrightarrow> length rest < length rx" by blast+
qed

function shell_read :: "byte list \<Rightarrow> machine \<Rightarrow> (byte list \<times> machine) option" where
  "shell_read buf m =
     (case tty_read 256 buf m of
        None \<Rightarrow> None
      | Some ((r, buf, _), m) \<Rightarrow> if r = 0 then shell_read buf m else Some (buf, m))"
  by pat_completeness auto
termination
  by (relation "measure (\<lambda>(buf, m). length (uart_rx m))")
    (auto simp: tty_read_def dest: tty_read_loop_consumes(2))

declare shell_read.simps [simp del]

section \<open>Words\<close>

text \<open>The maximal runs of characters other than blanks, with the word \<open>w\<close> begun.\<close>

fun words_from :: "byte list \<Rightarrow> byte list \<Rightarrow> byte list list" where
  "words_from w [] = (if w = [] then [] else [w])"
| "words_from w (c # cs) = (if c = 32 then (if w = [] then [] else [w]) @ words_from [] cs else words_from (w @ [c]) cs)"

definition words :: "byte list \<Rightarrow> byte list list" where
  "words str = words_from [] str"

definition arg_slot :: "byte list \<Rightarrow> byte list" where
  "arg_slot w = w @ replicate (CMD_ARG_LEN - length w) 0"

definition argv_of :: "byte list list \<Rightarrow> byte list" where
  "argv_of ws = concat (map arg_slot ws) @ replicate (CMD_ARG_LEN * (CMD_NARGS - length ws)) 0"

text \<open>A line is accepted if no word is too long and no sixteenth word ends with a blank.\<close>

definition fits_request :: "byte list \<Rightarrow> bool" where
  "fits_request str \<longleftrightarrow> (\<forall>w \<in> set (words str). length w < CMD_ARG_LEN) \<and>
     length (words str) \<le> CMD_NARGS \<and> (length (words str) = CMD_NARGS \<longrightarrow> last str \<noteq> 32)"

end
