(* ===== verification/Elf.thy ===== *)
theory Elf
  imports Mmu_Spaces Servers
begin

text \<open>
  The loader of executables: \<^verbatim>\<open>library/elf/elf.c\<close> and \<^verbatim>\<open>library/elf/elf.h\<close>. The frames come from the earth
  layer \<open>E\<close>; \<open>wr a bs\<close> stores bytes at an address; the reader gives the bytes of a block of the file.
\<close>

section \<open>Headers (elf.h)\<close>

definition get16 :: "byte list \<Rightarrow> nat \<Rightarrow> u16" where
  "get16 b i = ucast (b ! i) OR push_bit 8 (ucast (b ! (i + 1)))"

definition get64 :: "byte list \<Rightarrow> nat \<Rightarrow> u64" where
  "get64 b i = ucast (get32 (drop i b) 0) OR push_bit 32 (ucast (get32 (drop i b) 1))"

definition le64 :: "u64 \<Rightarrow> byte list" where
  "le64 w = le32 (ucast w) @ le32 (ucast (drop_bit 32 w))"

record elf64_header =
  e_phoff :: u64
  e_phnum :: u16

record elf64_program_header =
  p_offset :: u64
  p_vaddr :: u64
  p_filesz :: u64
  p_memsz :: u64

definition elf_header :: "block \<Rightarrow> elf64_header" where
  "elf_header b = \<lparr>e_phoff = get64 b 32, e_phnum = get16 b 56\<rparr>"

text \<open>The program header at byte \<open>a\<close> of the first block; headers outside of it are not read.\<close>

definition elf_pheader :: "block \<Rightarrow> nat \<Rightarrow> elf64_program_header res" where
  "elf_pheader b a =
     (if a + 56 \<le> length b
      then Inr \<lparr>p_offset = get64 b (a + 8), p_vaddr = get64 b (a + 16), p_filesz = get64 b (a + 32), p_memsz = get64 b (a + 40)\<rparr>
      else Inl (Undefined ''elf_load: program header outside buf''))"

section \<open>Loading (elf.c)\<close>

type_synonym 's elf_reader = "int \<Rightarrow> 's \<Rightarrow> (block \<times> 's) res"

type_synonym 's writer = "u64 \<Rightarrow> byte list \<Rightarrow> 's \<Rightarrow> 's"

text \<open>The loop of \<^verbatim>\<open>load_grass\<close>.\<close>

function load_grass_blocks :: "'s writer \<Rightarrow> 's elf_reader \<Rightarrow> nat \<Rightarrow> int \<Rightarrow> nat \<Rightarrow> 's \<Rightarrow> 's res" where
  "load_grass_blocks wr reader filesz block_offset off s =
     (if off < filesz then
        bindE (reader block_offset s) (\<lambda>(b, s).
        load_grass_blocks wr reader filesz (block_offset + 1) (off + BLOCK_SIZE)
          (wr (word_of_nat (GRASS_ENTRY + off)) b s))
      else Inr s)"
  by pat_completeness auto
termination
  by (relation "measure (\<lambda>(wr, reader, filesz, b, off, s). filesz - off)") (auto simp: layout_simps)

declare load_grass_blocks.simps [simp del]

definition load_grass :: "'s writer \<Rightarrow> 's elf_reader \<Rightarrow> elf64_program_header \<Rightarrow> 's \<Rightarrow> 's res" where
  "load_grass wr reader ph s =
     (let filesz = unat (p_filesz ph) in
      bindE (load_grass_blocks wr reader filesz (int (unat (p_offset ph) div BLOCK_SIZE)) 0 s) (\<lambda>s.
      if filesz > GRASS_SIZE then Inl (Undefined ''load_grass: memset of a negative size'')
      else Inr (wr (word_of_nat (GRASS_ENTRY + filesz)) (replicate (GRASS_SIZE - filesz) 0) s)))"

text \<open>The first loop of \<^verbatim>\<open>load_app\<close>; a new frame is mapped at each multiple of the page size.\<close>

function load_blocks ::
    "'s earth \<Rightarrow> 's writer \<Rightarrow> 's elf_reader \<Rightarrow> int \<Rightarrow> nat \<Rightarrow> int \<Rightarrow> u64 \<Rightarrow> u64 \<Rightarrow> nat \<Rightarrow> 's \<Rightarrow> ((u64 \<times> u64) \<times> 's) res" where
  "load_blocks E wr reader p filesz block_offset base code_start off s =
     (if off < filesz then
        bindE (if off mod PAGE_SIZE = 0 then
                 bindE (mmu_alloc_op E s) (\<lambda>((frame_no, base), s).
                 bindE (mmu_map_op E p code_start frame_no s) (\<lambda>s. Inr ((base, code_start + 1), s)))
               else Inr ((base, code_start), s)) (\<lambda>((base, code_start), s).
        bindE (reader block_offset s) (\<lambda>(b, s).
        load_blocks E wr reader p filesz (block_offset + 1) base code_start (off + BLOCK_SIZE)
          (wr (base + word_of_nat (off mod PAGE_SIZE)) b s)))
      else Inr ((base, code_start), s))"
  by pat_completeness auto
termination
  by (relation "measure (\<lambda>(E, wr, reader, p, filesz, b, base, cs, off, s). filesz - off)") (auto simp: layout_simps)

declare load_blocks.simps [simp del]

text \<open>The loop that maps zeroed pages up to the end of the application area; \<open>k\<close> pages are left.\<close>

fun load_zero_pages :: "'s earth \<Rightarrow> 's writer \<Rightarrow> int \<Rightarrow> u64 \<Rightarrow> nat \<Rightarrow> 's \<Rightarrow> 's res" where
  "load_zero_pages E wr p code_start 0 s = Inr s"
| "load_zero_pages E wr p code_start (Suc k) s =
     bindE (mmu_alloc_op E s) (\<lambda>((frame_no, base), s).
     bindE (mmu_map_op E p code_start frame_no s) (\<lambda>s.
     load_zero_pages E wr p (code_start + 1) k (wr base (replicate PAGE_SIZE 0) s)))"

text \<open>
  The page of \<^verbatim>\<open>argc\<close>, \<^verbatim>\<open>argv\<close> and the arguments, as the bytes that are stored at its start. \<open>args\<close> are the
  \<open>argc\<close> strings of 32 bytes, or nothing when the pointer is null; then their place is left as it is.
\<close>

definition arg_pointers :: "nat \<Rightarrow> byte list" where
  "arg_pointers argc = concat (map (\<lambda>i. le64 (word_of_nat (APPS_ARG + 4 + 8 * CMD_NARGS + i * CMD_ARG_LEN))) [0..<argc])"

definition store_args :: "'s writer \<Rightarrow> u64 \<Rightarrow> nat \<Rightarrow> byte list \<Rightarrow> 's \<Rightarrow> 's" where
  "store_args wr base argc args s =
     wr (base + 4) (arg_pointers argc) (wr (base + 4 + 8 * word_of_nat CMD_NARGS) args (wr base (le32 (word_of_nat argc)) s))"

definition load_app ::
    "'s earth \<Rightarrow> 's writer \<Rightarrow> 's elf_reader \<Rightarrow> int \<Rightarrow> nat \<Rightarrow> byte list \<Rightarrow> elf64_program_header \<Rightarrow> 's \<Rightarrow> 's res" where
  "load_app E wr reader p argc args ph s =
     (let filesz = unat (p_filesz ph); last_page_filled = filesz mod PAGE_SIZE;
          end_page = (word_of_nat ((APPS_ENTRY + APPS_SIZE) div 4096) :: u64) in
      bindE (load_blocks E wr reader p filesz (int (unat (p_offset ph) div BLOCK_SIZE)) 0
               (word_of_nat (APPS_ENTRY div 4096)) 0 s) (\<lambda>((base, code_start), s).
      let s = (if last_page_filled \<noteq> 0
               then wr (base + word_of_nat last_page_filled) (replicate (PAGE_SIZE - last_page_filled) 0) s else s) in
      bindE (load_zero_pages E wr p code_start (unat end_page - unat code_start) s) (\<lambda>s.
      bindE (mmu_alloc_op E s) (\<lambda>((frame_no, base), s).
      bindE (mmu_map_op E p (word_of_nat (APPS_ARG div 4096)) frame_no s) (\<lambda>s.
      let s = store_args wr base argc args s in
      bindE (mmu_alloc_op E s) (\<lambda>((frame_no, base), s).
      mmu_map_op E p (word_of_nat (APPS_ARG div 4096 + 1)) frame_no s))))))"

text \<open>The loop over the program headers; \<open>k\<close> are left, the next one is at byte \<open>a\<close>.\<close>

fun load_headers ::
    "'s earth \<Rightarrow> 's writer \<Rightarrow> 's elf_reader \<Rightarrow> int \<Rightarrow> nat \<Rightarrow> byte list \<Rightarrow> block \<Rightarrow> nat \<Rightarrow> nat \<Rightarrow> 's \<Rightarrow> 's res" where
  "load_headers E wr reader p argc args buf a 0 s = Inr s"
| "load_headers E wr reader p argc args buf a (Suc k) s =
     bindE (elf_pheader buf a) (\<lambda>ph.
     bindE (if p_memsz ph = 0 then Inr s
            else if p_vaddr ph = word_of_nat GRASS_ENTRY then load_grass wr reader ph s
            else if p_vaddr ph = word_of_nat APPS_ENTRY then load_app E wr reader p argc args ph s
            else Inl (Fatal ''elf_load: Invalid p_vaddr'')) (\<lambda>s.
     load_headers E wr reader p argc args buf (a + 56) k s))"

definition elf_load :: "'s earth \<Rightarrow> 's writer \<Rightarrow> int \<Rightarrow> 's elf_reader \<Rightarrow> nat \<Rightarrow> byte list \<Rightarrow> 's \<Rightarrow> 's res" where
  "elf_load E wr p reader argc args s =
     bindE (reader 0 s) (\<lambda>(buf, s).
     let h = elf_header buf in
     load_headers E wr reader p argc args buf (unat (e_phoff h)) (unat (e_phnum h)) s)"

end
