(* ===== verification/Proc_Server.thy ===== *)
theory Proc_Server
  imports Shell Elf
begin

text \<open>
  The process server, \<^verbatim>\<open>apps/system/sys_proc.c\<close>: it starts the other servers and the shell, loads applications
  for the shell, and tells the shell when a foreground application ends. The operations of the lower layers
  are those of \<^verbatim>\<open>struct grass\<close> (\<open>G\<close>), of \<^verbatim>\<open>struct earth\<close> (\<open>E\<close>), stores to memory (\<open>wr\<close>) and reads of the disk (\<open>rd\<close>).
\<close>

section \<open>State\<close>

text \<open>The static variables and \<^verbatim>\<open>shell_waiting\<close>, which has no value before the first spawn.\<close>

record proc_vars =
  app_ino :: int
  app_pid :: int
  shell_waiting :: "bool option"

section \<open>Loading\<close>

text \<open>A request to a server and its answer are two system calls of the client.\<close>

definition grass_rpc :: "'s grass \<Rightarrow> 's rpc" where
  "grass_rpc G to msg s = bindE (sys_send_op G to msg s) (\<lambda>s. sys_recv_op G SYSCALL_MSG_LEN s)"

definition app_read :: "'s grass \<Rightarrow> byte list \<Rightarrow> int \<Rightarrow> 's elf_reader" where
  "app_read G blk ino off s =
     bindE (file_read (grass_rpc G) blk (word_of_int ino) (word_of_int off) s) (\<lambda>((_, b), s). Inr (b, s))"

text \<open>\<open>stale\<close> and \<open>blk\<close> are the bytes of the request structs on the stack that the client functions do not write.\<close>

definition app_spawn ::
    "'s grass \<Rightarrow> 's earth \<Rightarrow> 's writer \<Rightarrow> byte list \<Rightarrow> byte list \<Rightarrow> proc_request \<Rightarrow> proc_vars \<Rightarrow> 's \<Rightarrow> ((int \<times> proc_vars) \<times> 's) res" where
  "app_spawn G E wr stale blk req P s =
     bindE (dir_lookup (grass_rpc G) stale 0 (of_str ''bin/'') s) (\<lambda>(bin_ino, s).
     bindE (c_str (argv req)) (\<lambda>name.
     bindE (dir_lookup (grass_rpc G) stale (word_of_int bin_ino) name s) (\<lambda>(ino, s).
     let P = P\<lparr>app_ino := ino\<rparr> in
     if ino < 0 then Inr ((-1, P), s)
     else
       bindE (proc_alloc_op G s) (\<lambda>(p, s).
       let P = P\<lparr>app_pid := p\<rparr> in
       bindE (last_arg req) (\<lambda>c.
       let n = nat (if c = of_char CHR ''&'' then sint (argc req) - 1 else sint (argc req)) in
       bindE (elf_load E wr p (app_read G blk ino) n (take (n * CMD_ARG_LEN) (argv req)) s) (\<lambda>s.
       bindE (proc_set_ready_op G p s) (\<lambda>s.
       Inr ((0, P), s))))))))"

definition sysproc_names :: "string list" where
  "sysproc_names = [''sys_proc'', ''sys_file'', ''sys_dir'', ''sys_shell'']"

text \<open>The system processes are read from the disk, \<open>base\<close> is the first block of the executable.\<close>

definition sys_spawn :: "'s grass \<Rightarrow> 's earth \<Rightarrow> 's writer \<Rightarrow> 's elf_reader \<Rightarrow> nat \<Rightarrow> 's \<Rightarrow> 's res" where
  "sys_spawn G E wr rd base s =
     bindE (proc_alloc_op G s) (\<lambda>(p, s).
     if p - 1 < 0 \<or> p - 1 \<ge> int (length sysproc_names) then Inl (Undefined ''sys_spawn: sysproc_names'')
     else
       bindE (elf_load E wr p (\<lambda>block_no. rd (int base + block_no)) 0 [] s) (\<lambda>s.
       proc_set_ready_op G p s))"

section \<open>The main program\<close>

text \<open>Before the loop; the received messages are only printed.\<close>

definition proc_start :: "'s grass \<Rightarrow> 's earth \<Rightarrow> 's writer \<Rightarrow> 's elf_reader \<Rightarrow> 's \<Rightarrow> 's res" where
  "proc_start G E wr rd s =
     bindE (sys_spawn G E wr rd SYS_FILE_EXEC_START s) (\<lambda>s.
     bindE (sys_recv_op G SYSCALL_MSG_LEN s) (\<lambda>(_, s).
     bindE (sys_spawn G E wr rd SYS_DIR_EXEC_START s) (\<lambda>s.
     bindE (sys_recv_op G SYSCALL_MSG_LEN s) (\<lambda>(_, s).
     sys_spawn G E wr rd SYS_SHELL_EXEC_START s))))"

text \<open>
  The loop body for the message \<open>buf\<close> of \<open>sender\<close>. Request and reply share the buffer, and \<^verbatim>\<open>sizeof(reply)\<close> is the
  size of a pointer.
\<close>

definition proc_step ::
    "'s grass \<Rightarrow> 's earth \<Rightarrow> 's writer \<Rightarrow> byte list \<Rightarrow> byte list \<Rightarrow> int \<Rightarrow> byte list \<Rightarrow> proc_vars \<Rightarrow> 's \<Rightarrow> (proc_vars \<times> 's) res" where
  "proc_step G E wr stale blk sender buf P s =
     (let req = proc_request_of buf in
      if req_type req = PROC_SPAWN then
        bindE (app_spawn G E wr stale blk req P s) (\<lambda>((r, P), s).
        let buf = put32 buf 0 (if r < 0 then CMD_ERROR else CMD_OK) in
        bindE (last_arg (proc_request_of buf)) (\<lambda>c.
        let P = P\<lparr>shell_waiting := Some (c \<noteq> of_char CHR ''&'')\<rparr> in
        bindE (sys_send_op G GPID_SHELL (take 8 buf) s) (\<lambda>s. Inr (P, s))))
      else if req_type req = PROC_EXIT then
        bindE (proc_free_op G sender s) (\<lambda>s.
        case shell_waiting P of
          None \<Rightarrow> Inl (Undefined ''sys_proc: shell_waiting'')
        | Some w \<Rightarrow>
            if w \<and> app_pid P = sender then bindE (sys_send_op G GPID_SHELL (take 8 buf) s) (\<lambda>s. Inr (P, s))
            else Inr (P, s))
      else if req_type req = PROC_KILLALL then
        bindE (proc_free_op G (-1) s) (\<lambda>s. Inr (P, s))
      else Inl (Fatal ''sys_proc: invalid request''))"

definition proc_iteration ::
    "'s grass \<Rightarrow> 's earth \<Rightarrow> 's writer \<Rightarrow> byte list \<Rightarrow> byte list \<Rightarrow> proc_vars \<Rightarrow> 's \<Rightarrow> (proc_vars \<times> 's) res" where
  "proc_iteration G E wr stale blk P s =
     bindE (sys_recv_op G SYSCALL_MSG_LEN s) (\<lambda>((sender, buf), s). proc_step G E wr stale blk sender buf P s)"

end
