(* ===== verification/Elf_Pages.thy ===== *)
theory Elf_Pages
  imports Elf Kernel_System
begin

text \<open>
  The pages of a process that is being loaded under the software TLB: what a new frame and a store into a
  frame do to them, and that no other process is touched.
\<close>

section \<open>Pages of the process that is being loaded\<close>

definition mem_write :: "machine writer" where
  "mem_write a bs m = m\<lparr>mem := poke (mem m) a bs\<rparr>"

definition free_frames :: "machine \<Rightarrow> nat" where
  "free_frames m = length (filter (\<lambda>i. \<not> fuse (table m ! i)) [0..<256])"

text \<open>
  \<open>loading m0 m p f\<close>: since \<open>m0\<close> frames were taken for \<open>p\<close> only, which now has the pages \<open>f\<close>; the pages of
  the other processes and the memory below the frame cache are those of \<open>m0\<close>.
\<close>

definition loading :: "machine \<Rightarrow> machine \<Rightarrow> int \<Rightarrow> (nat \<rightharpoonup> byte list) \<Rightarrow> bool" where
  "loading m0 m p f \<longleftrightarrow> tlb_ok m \<and> curr_vm_pid m = curr_vm_pid m0 \<and>
     (\<forall>q. has_page m p q \<longleftrightarrow> f q \<noteq> None) \<and>
     (\<forall>q b. f q = Some b \<longrightarrow> page (mem m) (frame_pn (frame_of m p q)) = b) \<and>
     (\<forall>r q. r \<noteq> p \<longrightarrow> r \<noteq> 0 \<longrightarrow> has_page m r q = has_page m0 r q \<and>
        (has_page m0 r q \<longrightarrow> proc_page m r q = proc_page m0 r q)) \<and>
     (\<forall>q < 0x40100. page (mem m) q = page (mem m0) q) \<and>
     finite (dom f) \<and> free_frames m + card (dom f) = free_frames m0"

lemma loadingD:
  assumes "loading m0 m p f"
  shows "tlb_ok m" "curr_vm_pid m = curr_vm_pid m0" "has_page m p q \<longleftrightarrow> f q \<noteq> None"
    "f q = Some b \<Longrightarrow> page (mem m) (frame_pn (frame_of m p q)) = b"
    "r \<noteq> p \<Longrightarrow> r \<noteq> 0 \<Longrightarrow> has_page m r q = has_page m0 r q"
    "r \<noteq> p \<Longrightarrow> r \<noteq> 0 \<Longrightarrow> has_page m0 r q \<Longrightarrow> proc_page m r q = proc_page m0 r q"
    "q < 0x40100 \<Longrightarrow> page (mem m) q = page (mem m0) q"
    "finite (dom f)" "free_frames m + card (dom f) = free_frames m0"
  subgoal using assms unfolding loading_def by (elim conjE)
  subgoal using assms unfolding loading_def by (elim conjE)
  subgoal using assms unfolding loading_def by (elim conjE) (erule spec)
  subgoal using assms unfolding loading_def by (elim conjE) iprover
  subgoal using assms unfolding loading_def by (elim conjE) iprover
  subgoal using assms unfolding loading_def by (elim conjE) iprover
  subgoal using assms unfolding loading_def by (elim conjE) iprover
  subgoal using assms unfolding loading_def by (elim conjE)
  subgoal using assms unfolding loading_def by (elim conjE)
  done

lemma frame_of_props:
  assumes "tlb_ok m" "r \<noteq> 0" "has_page m r q"
  shows "frame_of m r q < 256" "owns m r (frame_of m r q)" "pn m (frame_of m r q) = q"
proof -
  obtain i where i: "i < 256" "owns m r i" "pn m i = q" using assms(3) unfolding has_page_def by blast
  have f: "frame_of m r q = i" by (rule frame_of_eq [OF assms(1,2) i])
  show "frame_of m r q < 256" unfolding f by (rule i(1))
  show "owns m r (frame_of m r q)" unfolding f by (rule i(2))
  show "pn m (frame_of m r q) = q" unfolding f by (rule i(3))
qed

text \<open>Two different pages have different frames.\<close>

lemma frame_of_inj:
  assumes "tlb_ok m" "r \<noteq> 0" "has_page m r q" "r' \<noteq> 0" "has_page m r' q'" "frame_of m r q = frame_of m r' q'"
  shows "r = r' \<and> q = q'"
proof -
  note a = frame_of_props [OF assms(1-3)] and b = frame_of_props [OF assms(1,4,5), folded assms(6)]
  have "r = r'" using a(2) b(2) unfolding owns_def by (elim conjE) (rule trans, erule sym)
  then show ?thesis using trans [OF a(3) [symmetric] b(3)] by blast
qed

text \<open>A store into the frame of a page.\<close>

lemma loading_write:
  assumes l: "loading m0 m p f" and p: "p \<noteq> 0" "p \<noteq> curr_vm_pid m0" and q: "f q = Some b"
    and k: "k + length bs \<le> 4096"
  defines "m' \<equiv> mem_write (paging_read (frame_of m p q) + word_of_nat k) bs m"
  shows "loading m0 m' p (f(q \<mapsto> put_at b k bs))" and "frame_of m' = frame_of m"
proof -
  note d = loadingD [OF l]
  have t: "table m' = table m" "curr_vm_pid m' = curr_vm_pid m" by (simp_all add: m'_def mem_write_def)
  note st = same_table [OF t(1)]
  let ?i = "frame_of m p q"
  have hp: "has_page m p q" using d(3) q by simp
  note fi = frame_of_props [OF d(1) p(1) hp]
  have pg: "page (mem m') x = (if x = frame_pn ?i then put_at b k bs else page (mem m) x)" if "x < 2 ^ 52" for x
  proof -
    have "paging_read ?i + word_of_nat k = word_of_nat (frame_pn ?i * 4096 + k)" by (simp add: paging_read_eq)
    then show ?thesis
      using page_poke_inside [OF that, of "frame_pn ?i" k bs "mem m"] k fi(1) d(4) [OF q]
      by (simp add: m'_def mem_write_def put_at_def frame_pn_def)
  qed
  have fpn: "frame_pn i < 2 ^ 52" "\<not> frame_pn i < 0x40100" if "i < 256" for i using that by (simp_all add: frame_pn_def)
  have own: "page (mem m') (frame_pn (frame_of m p x)) = c" if "(f(q \<mapsto> put_at b k bs)) x = Some c" for x c
  proof (cases "x = q")
    case False
    then have "has_page m p x" using that d(3) by auto
    then have "frame_of m p x \<noteq> ?i" "frame_of m p x < 256"
      using frame_of_inj [OF d(1) p(1) _ p(1) hp] frame_of_props [OF d(1) p(1)] False by blast+
    then show ?thesis using pg fpn d(4) that False by (auto simp: frame_pn_def)
  qed (use that pg fi fpn in auto)
  have other: "proc_page m' r x = proc_page m r x" if "r \<noteq> p" "r \<noteq> 0" "has_page m r x" for r x
  proof -
    note fr = frame_of_props [OF d(1) that(2,3)]
    have "x < 0x40100" using tlb_okD(3) [OF d(1) fr(1,2)] unfolding fr(3) .
    moreover have "frame_of m r x \<noteq> ?i" using frame_of_inj [OF d(1) that(2,3) p(1) hp] that(1) by blast
    ultimately have x: "frame_of m r x < 256" "frame_of m r x \<noteq> ?i" "x < 0x40100" using fr(1) by blast+
    then have "frame_pn (frame_of m r x) \<noteq> frame_pn ?i" "x \<noteq> frame_pn ?i" using fpn [OF fi(1)] by (auto simp: frame_pn_def)
    then show ?thesis using x pg fpn by (simp add: proc_page_def t st)
  qed
  have low: "page (mem m') x = page (mem m) x" if "x < 0x40100" for x using that pg fpn(2) [OF fi(1)] by auto
  have "free_frames m' = free_frames m" "card (dom (f(q \<mapsto> put_at b k bs))) = card (dom f)"
    using q by (simp_all add: free_frames_def t insert_absorb domI)
  then show "loading m0 m' p (f(q \<mapsto> put_at b k bs))"
    using d own other low q tlb_ok_cong [OF t] by (auto simp: loading_def t st)
  show "frame_of m' = frame_of m" by (rule st(4))
qed

text \<open>A new frame for a page.\<close>

lemma free_frames_card: "free_frames m = card {i \<in> {..<256}. \<not> fuse (table m ! i)}"
proof -
  have "set (filter (\<lambda>i. \<not> fuse (table m ! i)) [0..<256]) = {i \<in> {..<256}. \<not> fuse (table m ! i)}" by auto
  then show ?thesis unfolding free_frames_def by (metis distinct_card distinct_filter distinct_upt)
qed

definition frame_for :: "int \<Rightarrow> nat \<Rightarrow> nat \<Rightarrow> machine \<Rightarrow> machine" where
  "frame_for p q i m = m\<lparr>table := (table m)[i := (table m ! i)\<lparr>fuse := True, fpid := p, fpage_no := word_of_nat q\<rparr>]\<rparr>"

lemma mmu_alloc_map:
  assumes "tlb_ok m" "0 < free_frames m"
  obtains i m1 where "mmu_alloc m = Inr ((i, paging_read i), m1)" "soft_tlb_map p (word_of_nat q) i m1 = Inr (frame_for p q i m)"
    "i < 256" "\<not> fuse (table m ! i)"
proof -
  have "\<exists>i \<in> set [0..<256]. \<not> fuse (table m ! i)"
    using assms(2) by (auto simp: free_frames_def filter_empty_conv)
  then obtain i where f: "find (\<lambda>i. \<not> fuse (table m ! i)) [0..<256] = Some i"
    by (cases "find (\<lambda>i. \<not> fuse (table m ! i)) [0..<256]") (auto simp: find_None_iff)
  then have i: "i < 256" "\<not> fuse (table m ! i)" by (auto simp: find_Some_iff)
  have l: "length (table m) = 256" by (rule tlb_okD(1) [OF assms(1)])
  show thesis
    by (rule that [of i "m\<lparr>table := (table m)[i := (table m ! i)\<lparr>fuse := True\<rparr>]\<rparr>"])
      (use f i l in \<open>simp_all add: mmu_alloc_def soft_tlb_map_def layout_simps frame_for_def del: upt_rec_numeral\<close>)
qed

lemma frame_for_table:
  assumes "length (table m) = 256" "i < 256" "q < 0x40100"
  shows "table (frame_for p q i m) ! j = (if j = i then (table m ! i)\<lparr>fuse := True, fpid := p, fpage_no := word_of_nat q\<rparr> else table m ! j)"
    "length (table (frame_for p q i m)) = 256"
    "pn (frame_for p q i m) j = (if j = i then q else pn m j)"
    "owns (frame_for p q i m) r j \<longleftrightarrow> (if j = i then r = p else owns m r j)"
  using assms by (auto simp: frame_for_def owns_def nth_list_update unat_of_nat)

lemma frame_for_ok:
  assumes "tlb_ok m" "i < 256" "\<not> fuse (table m ! i)" "q < 0x40100" "p \<noteq> 0" "\<not> has_page m p q"
  shows "tlb_ok (frame_for p q i m)"
proof -
  let ?m = "frame_for p q i m"
  note t = frame_for_table [OF tlb_okD(1) [OF assms(1)] assms(2,4), where p = p]
  have c: "curr_vm_pid ?m = curr_vm_pid m" by (simp add: frame_for_def)
  have low: "pn ?m j < 0x40100" if "j < 256" "fuse (table ?m ! j)" for j
  proof (cases "j = i")
    case True
    then show ?thesis using assms(4) unfolding t(3) by simp
  next
    case False
    then show ?thesis
      using that tlb_okD(3) [OF assms(1) that(1), of "fpid (table m ! j)"] by (simp add: t(1) owns_def)
  qed
  have uniq: "j = k" if jk: "j < 256" "k < 256" "r \<noteq> 0" "owns ?m r j" "owns ?m r k" "pn ?m j = pn ?m k" for j k r
  proof (cases "j = i \<or> k = i")
    case True
    then show ?thesis using jk assms(6) unfolding t(3,4) has_page_def by (metis (full_types))
  next
    case False
    then show ?thesis using jk tlb_okD(4) [OF assms(1) jk(1,2,3)] unfolding t(3,4) by simp
  qed
  show ?thesis
    unfolding tlb_ok_def NFRAMES_value
  proof (intro conjI allI impI)
    show "curr_vm_pid ?m \<noteq> 0" using c tlb_okD(2) [OF assms(1)] by simp
  qed (use t(2) low uniq in blast)+
qed

lemma frame_for_pages:
  assumes ok: "tlb_ok m" "i < 256" "\<not> fuse (table m ! i)" "q < 0x40100" "p \<noteq> 0" "\<not> has_page m p q"
  shows "has_page (frame_for p q i m) r x \<longleftrightarrow> has_page m r x \<or> (r = p \<and> x = q)"
    "r \<noteq> 0 \<Longrightarrow> has_page m r x \<Longrightarrow> frame_of (frame_for p q i m) r x = frame_of m r x"
    "frame_of (frame_for p q i m) p q = i"
proof -
  let ?m = "frame_for p q i m"
  note t = frame_for_table [OF tlb_okD(1) [OF assms(1)] assms(2,4), where p = p]
  note ok' = frame_for_ok [OF assms]
  have ni: "\<not> owns m r i" for r using assms(3) by (simp add: owns_def)
  show "has_page ?m r x \<longleftrightarrow> has_page m r x \<or> (r = p \<and> x = q)"
  proof
    assume "has_page ?m r x"
    then obtain j where j: "j < 256" "if j = i then r = p else owns m r j" "(if j = i then q else pn m j) = x"
      unfolding has_page_def t(3,4) by blast
    show "has_page m r x \<or> (r = p \<and> x = q)"
    proof (cases "j = i")
      case False
      then show ?thesis unfolding has_page_def using j by (intro disjI1 exI [of _ j]) simp
    qed (use j in simp)
  next
    assume "has_page m r x \<or> (r = p \<and> x = q)"
    then show "has_page ?m r x"
    proof
      assume "has_page m r x"
      then obtain j where j: "j < 256" "owns m r j" "pn m j = x" unfolding has_page_def by blast
      moreover from this have "j \<noteq> i" using ni by blast
      ultimately show ?thesis unfolding has_page_def t(3,4) by (intro exI [of _ j]) simp
    qed (use assms(2) in \<open>unfold has_page_def t(3,4), intro exI [of _ i], simp\<close>)
  qed
  show "frame_of ?m p q = i" by (rule frame_of_eq [OF ok' assms(5,2)]) (simp_all add: t(3,4))
  assume r: "r \<noteq> 0" "has_page m r x"
  note f = frame_of_props [OF ok(1) r]
  have "frame_of m r x \<noteq> i" using f(2) ni by metis
  then show "frame_of ?m r x = frame_of m r x"
    by (intro frame_of_eq [OF ok' r(1) f(1)]) (use f t(3,4) in simp_all)
qed

lemma frame_for_free:
  assumes "tlb_ok m" "i < 256" "\<not> fuse (table m ! i)" "q < 0x40100"
  shows "Suc (free_frames (frame_for p q i m)) = free_frames m"
proof -
  note t = frame_for_table [OF tlb_okD(1) [OF assms(1)] assms(2,4), where p = p]
  have "{j \<in> {..<256}. \<not> fuse (table m ! j)} = insert i {j \<in> {..<256}. \<not> fuse (table (frame_for p q i m) ! j)}"
    using assms(2,3) by (auto simp: t(1))
  then show ?thesis unfolding free_frames_card by (simp add: t(1))
qed

lemma loading_alloc:
  assumes l: "loading m0 m p f" and p: "p \<noteq> 0" "p \<noteq> curr_vm_pid m0" and q: "f q = None" "q < 0x40100"
    and fr: "0 < free_frames m"
  obtains i m1 m2 b where "mmu_alloc m = Inr ((i, paging_read i), m1)" "soft_tlb_map p (word_of_nat q) i m1 = Inr m2"
    "loading m0 m2 p (f(q \<mapsto> b))" "length b = 4096" "frame_of m2 p q = i"
proof -
  note d = loadingD [OF l]
  obtain i m1 where a: "mmu_alloc m = Inr ((i, paging_read i), m1)" "soft_tlb_map p (word_of_nat q) i m1 = Inr (frame_for p q i m)"
    and i: "i < 256" "\<not> fuse (table m ! i)"
    using mmu_alloc_map [OF d(1) fr] by metis
  have np: "\<not> has_page m p q" using d(3) q(1) by simp
  let ?m = "frame_for p q i m" and ?b = "page (mem m) (frame_pn i)"
  note ok' = frame_for_ok [OF d(1) i q(2) p(1) np] and pg = frame_for_pages [OF d(1) i q(2) p(1) np]
  have me: "mem ?m = mem m" "curr_vm_pid ?m = curr_vm_pid m" by (simp_all add: frame_for_def)
  have own: "page (mem ?m) (frame_pn (frame_of ?m p x)) = c" if "(f(q \<mapsto> ?b)) x = Some c" for x c
    using that d(3,4) pg(2) [OF p(1)] pg(3) by (cases "x = q") (auto simp: me)
  have other: "proc_page ?m r x = proc_page m r x" if "r \<noteq> 0" "has_page m r x" for r x
    using pg(2) [OF that] by (simp add: proc_page_def me)
  have "q \<notin> dom f" using q(1) by auto
  then have "free_frames ?m + card (dom (f(q \<mapsto> ?b))) = free_frames m0"
    using frame_for_free [OF d(1) i q(2), of p] d(8,9) by simp
  then have "loading m0 ?m p (f(q \<mapsto> ?b))"
    unfolding loading_def using ok' me d own other pg(1) by (intro conjI allI impI) auto
  then show thesis using that [OF a] pg(3) by simp
qed

section \<open>The blocks of the file\<close>

text \<open>The byte at a virtual address, and the pages of an application that is loaded up to byte \<open>n\<close>.\<close>

definition vbyte :: "(nat \<rightharpoonup> byte list) \<Rightarrow> nat \<Rightarrow> byte" where
  "vbyte f a = the (f (a div 4096)) ! (a mod 4096)"

definition code_pages :: "(nat \<rightharpoonup> byte list) \<Rightarrow> nat \<Rightarrow> nat \<Rightarrow> (nat \<Rightarrow> byte) \<Rightarrow> bool" where
  "code_pages f k n data \<longleftrightarrow> dom f = {0x40027..<0x40027 + k} \<and> (\<forall>q b. f q = Some b \<longrightarrow> length b = 4096) \<and>
     (\<forall>x < n. vbyte f (0x40027000 + x) = data x)"

lemma vbyte_update:
  assumes "f q = Some b" "length b = 4096" "k + length bs \<le> 4096"
  shows "vbyte (f(q \<mapsto> put_at b k bs)) a =
    (if a div 4096 = q \<and> k \<le> a mod 4096 \<and> a mod 4096 < k + length bs then bs ! (a mod 4096 - k) else vbyte f a)"
  using assms by (simp add: vbyte_def nth_put_at)

lemma code_address: "(0x40027000 + x) div 4096 = 0x40027 + x div 4096" "(0x40027000 + x) mod 4096 = x mod (4096 :: nat)"
proof -
  have "(0x40027 * 4096 + x) div 4096 = 0x40027 + x div 4096" "(0x40027 * 4096 + x) mod 4096 = x mod (4096 :: nat)"
    by (rule div_mult_self3, simp, rule mod_mult_self3)
  then show "(0x40027000 + x) div 4096 = 0x40027 + x div 4096" "(0x40027000 + x) mod 4096 = x mod (4096 :: nat)" by simp_all
qed

lemma code_pages_write:
  assumes "code_pages f k n data" "q < 0x40027 + k" "0x40027 \<le> q" "j + length bs \<le> 4096" "f q = Some b"
    and "\<And>x. x < n' \<Longrightarrow> \<not> (n \<le> x) \<Longrightarrow> \<not> ((0x40027000 + x) div 4096 = q \<and> j \<le> x mod 4096 \<and> x mod 4096 < j + length bs)"
    and "\<And>x. n \<le> x \<Longrightarrow> x < n' \<Longrightarrow> (0x40027000 + x) div 4096 = q \<and> j \<le> x mod 4096 \<and> x mod 4096 < j + length bs \<and>
      bs ! (x mod 4096 - j) = data x"
  shows "code_pages (f(q \<mapsto> put_at b j bs)) k n' data"
proof -
  have len: "length b = 4096" using assms(1,5) by (simp add: code_pages_def)
  have m: "(0x40027000 + x) mod 4096 = x mod 4096" for x :: nat using code_address(2) .
  have "vbyte (f(q \<mapsto> put_at b j bs)) (0x40027000 + x) = data x" if "x < n'" for x
    unfolding vbyte_update [where f = f, OF assms(5) len assms(4)] m
    using assms(1) assms(6,7) [of x] that by (cases "n \<le> x") (auto simp: code_pages_def)
  then show ?thesis
    using assms(1,2,3) len length_put_at [of j bs b] assms(4) by (auto simp: code_pages_def)
qed

text \<open>A reader of a file with blocks \<open>blk\<close> that leaves the machine alone.\<close>

definition file_byte :: "(int \<Rightarrow> block) \<Rightarrow> int \<Rightarrow> nat \<Rightarrow> byte" where
  "file_byte blk b0 x = blk (b0 + int (x div 512)) ! (x mod 512)"

end
