(* ===== verification/Elf_Correct.thy ===== *)
theory Elf_Correct
  imports Elf_Pages
begin

text \<open>
  Loading an application under the software TLB: the pages of the new process hold the bytes of the file,
  followed by zeros, and the argument page; no other process is touched.
\<close>

section \<open>The loop over the blocks\<close>

lemma code_pages_card: "code_pages f k n data \<Longrightarrow> card (dom f) = k"
  by (simp add: code_pages_def)

lemma code_pages_new:
  assumes c: "code_pages f k n data" and n: "n \<le> 4096 * k" "length b = 4096"
  shows "code_pages (f(0x40027 + k \<mapsto> b)) (Suc k) n data"
proof -
  have "vbyte (f(0x40027 + k \<mapsto> b)) (0x40027000 + x) = data x" if "x < n" for x
  proof -
    have "x div 4096 < k" using that n by (simp add: div_less_iff_less_mult)
    then show ?thesis using c that unfolding code_pages_def vbyte_def code_address by simp
  qed
  moreover have "insert (0x40027 + k) {0x40027..<0x40027 + k} = {0x40027..<0x40027 + Suc k}" by auto
  ultimately show ?thesis using c n unfolding code_pages_def by auto
qed

lemma eighths:
  fixes j :: nat
  shows "j mod 8 \<noteq> 0 \<Longrightarrow> (j + 7) div 8 = Suc (j div 8)" "j mod 8 \<noteq> 0 \<Longrightarrow> (j - 1) div 8 = j div 8"
    and "j mod 8 = 0 \<Longrightarrow> j < n \<Longrightarrow> (j + 7) div 8 < (n + 7) div 8"
proof -
  obtain a b where j: "j = 8 * a + b" "b < 8" "j mod 8 = b" "j div 8 = a"
    by (metis mod_less_divisor mult_div_mod_eq zero_less_numeral)
  show "(j + 7) div 8 = Suc (j div 8)" if "j mod 8 \<noteq> 0" unfolding j(4) by (rule div_nat_eqI) (use that j in simp_all)
  show "(j - 1) div 8 = j div 8" if "j mod 8 \<noteq> 0" unfolding j(4) by (rule div_nat_eqI) (use that j in simp_all)
  show "(j + 7) div 8 < (n + 7) div 8" if "j mod 8 = 0" "j < n"
  proof -
    have "j = 8 * a" using that j by simp
    then have "(j + 7) div 8 = a" "8 * Suc a \<le> n + 7" using that(2) by simp_all
    then show ?thesis using div_le_mono [of "8 * Suc a" "n + 7" 8] by simp
  qed
qed

text \<open>The page of block \<open>j\<close>, which is new for every eighth block.\<close>

lemma open_page:
  assumes l: "loading m0 m p f" and c: "code_pages f ((j + 7) div 8) (512 * j) data"
    and p: "p \<noteq> 0" "p \<noteq> curr_vm_pid m0" and j: "j < 32" and fr: "j mod 8 = 0 \<Longrightarrow> 0 < free_frames m"
    and base: "0 < j \<Longrightarrow> base = paging_read (frame_of m p (0x40027 + (j - 1) div 8))"
  defines "q \<equiv> 0x40027 + j div 8"
  obtains m1 f1 b base1 where
    "(if 512 * j mod PAGE_SIZE = 0 then
        bindE (mmu_alloc_op soft_tlb_earth m) (\<lambda>((frame_no, base), s).
        bindE (mmu_map_op soft_tlb_earth p (word_of_nat (0x40027 + (j + 7) div 8)) frame_no s) (\<lambda>s.
        Inr ((base, word_of_nat (0x40027 + (j + 7) div 8) + 1 :: u64), s)))
      else Inr ((base, word_of_nat (0x40027 + (j + 7) div 8)), m)) = Inr ((base1, word_of_nat (Suc q)), m1)"
    "base1 = paging_read (frame_of m1 p q)" "loading m0 m1 p f1" "code_pages f1 (Suc (j div 8)) (512 * j) data" "f1 q = Some b"
proof (cases "j mod 8 = 0")
  case True
  then have "8 dvd j" by (simp add: dvd_eq_mod_eq_0)
  then obtain k where k: "j = 8 * k" by (rule dvdE)
  have pg: "512 * j mod PAGE_SIZE = 0" "(j + 7) div 8 = k" "j div 8 = k" using k by (simp_all add: layout_simps)
  have dom: "dom f = {0x40027..<0x40027 + k}" using c pg by (simp add: code_pages_def)
  have "f q = None" "q < 0x40100" using dom j k by (auto simp: q_def pg(3))
  from loading_alloc [OF l p this fr [OF True]]
  obtain i m1 m2 b where a: "mmu_alloc m = Inr ((i, paging_read i), m1)" "soft_tlb_map p (word_of_nat q) i m1 = Inr m2"
    "loading m0 m2 p (f(q \<mapsto> b))" "length b = 4096" "frame_of m2 p q = i" by blast
  have "code_pages (f(q \<mapsto> b)) (Suc (j div 8)) (512 * j) data"
    using code_pages_new [OF c [unfolded pg] _ a(4)] k unfolding q_def pg by simp
  note c1 = this
  have alloc: "mmu_alloc_op soft_tlb_earth m = Inr ((i, paging_read i), m1)"
    unfolding soft_tlb_earth_def earth.select_convs by (rule a(1))
  have mapped: "mmu_map_op soft_tlb_earth p (word_of_nat (0x40027 + k)) i m1 = Inr m2"
    unfolding soft_tlb_earth_def earth.select_convs by (rule a(2) [unfolded q_def pg(3)])
  have nxt: "word_of_nat (0x40027 + k) + 1 = (word_of_nat (Suc q) :: u64)" by (simp add: q_def pg(3))
  show thesis
  proof (rule that [OF _ _ a(3) c1 fun_upd_same])
    show "paging_read i = paging_read (frame_of m2 p q)" unfolding a(5) ..
    show "(if 512 * j mod PAGE_SIZE = 0 then
        bindE (mmu_alloc_op soft_tlb_earth m) (\<lambda>((frame_no, base), s).
        bindE (mmu_map_op soft_tlb_earth p (word_of_nat (0x40027 + (j + 7) div 8)) frame_no s) (\<lambda>s.
        Inr ((base, word_of_nat (0x40027 + (j + 7) div 8) + 1 :: u64), s)))
      else Inr ((base, word_of_nat (0x40027 + (j + 7) div 8)), m)) = Inr ((paging_read i, word_of_nat (Suc q)), m2)"
      unfolding pg(1,2) alloc by (simp only: mapped nxt bindE_Inr prod.case refl if_True)
  qed
next
  case False
  have pg: "(j + 7) div 8 = Suc (j div 8)" "(j - 1) div 8 = j div 8" "0 < j"
    using eighths(1,2) [OF False] False by (auto intro: gr0I)
  have "512 * j mod PAGE_SIZE = 512 * (j mod 8)" using mult_mod_right [of 512 j 8] by (simp add: layout_simps)
  then have nz: "512 * j mod PAGE_SIZE \<noteq> 0" using False by simp
  have c': "code_pages f (Suc (j div 8)) (512 * j) data" using c unfolding pg(1) .
  then have "q \<in> dom f" by (auto simp: code_pages_def q_def)
  then obtain b where "f q = Some b" by blast
  then show thesis
    using nz l c' base [OF pg(3), unfolded pg(2)] by (intro that [where ?m1.0 = m and ?f1.0 = f and b = b and ?base1.0 = base]) (simp_all add: pg q_def)
qed

text \<open>Byte \<open>x\<close> of the file lies in block \<open>j\<close> exactly when its place in memory is in the part of block \<open>j\<close>.\<close>

lemma in_block:
  fixes x j :: nat
  shows "512 * j \<le> x \<and> x < 512 * Suc j \<longleftrightarrow>
    x div 4096 = j div 8 \<and> 512 * (j mod 8) \<le> x mod 4096 \<and> x mod 4096 < 512 * (j mod 8) + 512"
proof -
  have "512 * (8 * c + d) \<le> 4096 * a + b \<and> 4096 * a + b < 512 * Suc (8 * c + d) \<longleftrightarrow>
      a = c \<and> 512 * d \<le> b \<and> b < 512 * d + 512" if "b < 4096" "d < 8" for a b c d :: nat
    using that by (cases a c rule: linorder_cases) auto
  from this [of "x mod 4096" "j mod 8" "j div 8" "x div 4096"] show ?thesis by simp
qed

lemma in_block_place:
  fixes x j :: nat
  assumes "512 * j \<le> x" "x < 512 * Suc j"
  shows "x div 512 = j" "x mod 4096 - 512 * (j mod 8) = x mod 512"
proof -
  show j: "x div 512 = j" using assms by (simp add: div_nat_eqI)
  have "x mod (512 * 8) = 512 * (x div 512 mod 8) + x mod 512" by (rule mod_mult2_eq)
  then show "x mod 4096 - 512 * (j mod 8) = x mod 512" unfolding j by simp
qed

text \<open>All blocks from number \<open>j\<close> on.\<close>

lemma load_blocks_ok:
  assumes rd: "\<And>k m. reader k m = Inr (blk k, m)" "\<And>k. length (blk k) = 512"
    and p: "p \<noteq> 0" "p \<noteq> curr_vm_pid m0" and N: "N = (filesz + 511) div 512" "N \<le> 32" and "j \<le> N"
    and l: "loading m0 m p f" and c: "code_pages f ((j + 7) div 8) (512 * j) (file_byte blk b0)"
    and fr: "(N + 7) div 8 \<le> free_frames m + (j + 7) div 8"
    and base: "0 < j \<Longrightarrow> base = paging_read (frame_of m p (0x40027 + (j - 1) div 8))"
  shows "\<exists>base' m' f'. load_blocks soft_tlb_earth mem_write reader p filesz (b0 + int j) base
        (word_of_nat (0x40027 + (j + 7) div 8)) (512 * j) m = Inr ((base', word_of_nat (0x40027 + (N + 7) div 8)), m') \<and>
      loading m0 m' p f' \<and> code_pages f' ((N + 7) div 8) (512 * N) (file_byte blk b0) \<and>
      (0 < N \<longrightarrow> base' = paging_read (frame_of m' p (0x40027 + (N - 1) div 8)))"
  using assms(7-)
proof (induction "N - j" arbitrary: j m f base)
  case 0
  then have "j = N" "\<not> 512 * j < filesz" using N(1) by auto
  then show ?case using 0 by (subst load_blocks.simps) auto
next
  case (Suc n)
  have j: "j < N" "j < 32" "512 * j < filesz" using Suc.hyps(2) N by auto
  define q where "q = 0x40027 + j div 8"
  have fr0: "0 < free_frames m" if "j mod 8 = 0"
  proof -
    show ?thesis using eighths(3) [OF that j(1)] Suc.prems(4) by simp
  qed
  obtain m1 f1 b base1 where o: "(if 512 * j mod PAGE_SIZE = 0 then
        bindE (mmu_alloc_op soft_tlb_earth m) (\<lambda>((frame_no, base), s).
        bindE (mmu_map_op soft_tlb_earth p (word_of_nat (0x40027 + (j + 7) div 8)) frame_no s) (\<lambda>s.
        Inr ((base, word_of_nat (0x40027 + (j + 7) div 8) + 1 :: u64), s)))
      else Inr ((base, word_of_nat (0x40027 + (j + 7) div 8)), m)) = Inr ((base1, word_of_nat (Suc q)), m1)"
    "base1 = paging_read (frame_of m1 p q)" "loading m0 m1 p f1"
    "code_pages f1 (Suc (j div 8)) (512 * j) (file_byte blk b0)" "f1 q = Some b"
    by (rule open_page [OF Suc.prems(2,3) p j(2), where base = base, folded q_def]) (erule fr0, erule Suc.prems(5), rule that)
  define k where "k = 512 * j mod 4096"
  have k: "k = 512 * (j mod 8)" using mult_mod_right [of 512 j 8] by (simp add: k_def)
  have kb: "k + length (blk (b0 + int j)) \<le> 4096" using rd(2) k by simp
  define m2 where "m2 = mem_write (base1 + word_of_nat k) (blk (b0 + int j)) m1"
  have l2: "loading m0 m2 p (f1(q \<mapsto> put_at b k (blk (b0 + int j))))" "frame_of m2 = frame_of m1"
    using loading_write [OF o(3) p o(5) kb] unfolding m2_def o(2) by blast+
  have c2: "code_pages (f1(q \<mapsto> put_at b k (blk (b0 + int j)))) (Suc (j div 8)) (512 * Suc j) (file_byte blk b0)"
  proof (rule code_pages_write [OF o(4) _ _ kb o(5)])
    show "q < 0x40027 + Suc (j div 8)" "0x40027 \<le> q" by (simp_all add: q_def)
  next
    fix x assume "\<not> 512 * j \<le> x"
    then show "\<not> ((0x40027000 + x) div 4096 = q \<and> k \<le> x mod 4096 \<and> x mod 4096 < k + length (blk (b0 + int j)))"
      using in_block [of j x] by (auto simp: code_address q_def k rd(2))
  next
    fix x assume x: "512 * j \<le> x" "x < 512 * Suc j"
    show "(0x40027000 + x) div 4096 = q \<and> k \<le> x mod 4096 \<and> x mod 4096 < k + length (blk (b0 + int j)) \<and>
        blk (b0 + int j) ! (x mod 4096 - k) = file_byte blk b0 x"
      using in_block [of j x] in_block_place [OF x] x unfolding code_address q_def k rd(2) by (simp add: file_byte_def)
  qed
  have sj: "(Suc j + 7) div 8 = Suc (j div 8)" by simp
  have fr: "(N + 7) div 8 \<le> free_frames m2 + (Suc j + 7) div 8"
  proof -
    note c = code_pages_card [OF Suc.prems(3)] code_pages_card [OF c2]
    have "free_frames m2 + Suc (j div 8) = free_frames m + (j + 7) div 8"
      by (rule trans [OF loadingD(9) [OF l2(1), unfolded c] loadingD(9) [OF Suc.prems(2), unfolded c, symmetric]])
    then show ?thesis unfolding sj using Suc.prems(4) by (simp only:)
  qed
  have step: "load_blocks soft_tlb_earth mem_write reader p filesz (b0 + int j) base
        (word_of_nat (0x40027 + (j + 7) div 8)) (512 * j) m =
      load_blocks soft_tlb_earth mem_write reader p filesz (b0 + int (Suc j)) base1
        (word_of_nat (0x40027 + (Suc j + 7) div 8)) (512 * Suc j) m2"
  proof -
    have "b0 + int j + 1 = b0 + int (Suc j)" "512 * j + BLOCK_SIZE = 512 * Suc j" "512 * j mod PAGE_SIZE = k"
      "0x40027 + Suc (j div 8) = Suc q" by (simp_all add: layout_simps k_def q_def)
    note eqs = this
    show ?thesis
      unfolding sj eqs(4) by (subst load_blocks.simps, subst if_P [OF j(3)], subst o(1)) (simp only: bindE_Inr prod.case rd(1) m2_def eqs)
  qed
  have "Suc j - 1 = j" by simp
  then have "base1 = paging_read (frame_of m2 p (0x40027 + (Suc j - 1) div 8))" unfolding l2(2) o(2) q_def by (simp only:)
  then show ?case
    unfolding step by (intro Suc.hyps(1) [OF _ _ l2(1) c2 [folded sj] fr]) (use Suc.hyps(2) j(1) in simp_all)
qed

section \<open>The end of the last page and the empty pages\<close>

definition file_image :: "(int \<Rightarrow> block) \<Rightarrow> int \<Rightarrow> nat \<Rightarrow> nat \<Rightarrow> byte" where
  "file_image blk b0 filesz x = (if x < filesz then file_byte blk b0 x else 0)"

lemma pages_of_size:
  fixes n :: nat
  shows "((n + 511) div 512 + 7) div 8 = (n + 4095) div 4096"
    and "0 < n \<Longrightarrow> ((n + 511) div 512 - 1) div 8 = (n - 1) div 4096"
    and "n mod 4096 \<noteq> 0 \<Longrightarrow> (n + 4095) div 4096 = Suc (n div 4096)"
    and "n mod 4096 = 0 \<Longrightarrow> (n + 4095) div 4096 = n div 4096"
    and "n mod 4096 \<noteq> 0 \<Longrightarrow> (n - 1) div 4096 = n div 4096"
    and "n \<le> 512 * ((n + 511) div 512)"
proof -
  have "((n + 511) div 512 + 7) div 8 = ((n + 511 + 7 * 512) div 512) div 8" by (simp only: div_mult_self1 zero_neq_numeral not_False_eq_True)
  also have "\<dots> = (n + 4095) div 4096" by (simp flip: div_mult2_eq)
  finally show "((n + 511) div 512 + 7) div 8 = (n + 4095) div 4096" .
  show "((n + 511) div 512 - 1) div 8 = (n - 1) div 4096" if "0 < n"
  proof -
    have "(n + 511) div 512 - 1 = (n - 1) div 512" using that by (cases n) simp_all
    then show ?thesis by (simp flip: div_mult2_eq)
  qed
  obtain a b where ab: "n = 4096 * a + b" "b < 4096" "n mod 4096 = b" "n div 4096 = a"
    by (metis mod_less_divisor mult_div_mod_eq zero_less_numeral)
  show "(n + 4095) div 4096 = Suc (n div 4096)" if "n mod 4096 \<noteq> 0"
    unfolding ab(4) by (rule div_nat_eqI) (use that ab in simp_all)
  show "(n + 4095) div 4096 = n div 4096" if "n mod 4096 = 0"
    unfolding ab(4) by (rule div_nat_eqI) (use that ab in simp_all)
  show "(n - 1) div 4096 = n div 4096" if "n mod 4096 \<noteq> 0"
    unfolding ab(4) by (rule div_nat_eqI) (use that ab in simp_all)
  show "n \<le> 512 * ((n + 511) div 512)" by simp
qed

lemma code_pages_image:
  assumes "code_pages f k n (file_byte blk b0)" "filesz \<le> n"
  shows "code_pages f k filesz (file_image blk b0 filesz)"
  using assms by (auto simp: code_pages_def file_image_def)

lemma zero_tail:
  assumes l: "loading m0 m p f" and p: "p \<noteq> 0" "p \<noteq> curr_vm_pid m0"
    and c: "code_pages f ((filesz + 4095) div 4096) filesz (file_image blk b0 filesz)"
    and base: "0 < filesz \<longrightarrow> base = paging_read (frame_of m p (0x40027 + (filesz - 1) div 4096))"
  shows "\<exists>f'. loading m0 (if filesz mod 4096 \<noteq> 0 then mem_write (base + word_of_nat (filesz mod 4096)) (replicate (4096 - filesz mod 4096) 0) m else m) p f' \<and>
    code_pages f' ((filesz + 4095) div 4096) (4096 * ((filesz + 4095) div 4096)) (file_image blk b0 filesz)"
proof (cases "filesz mod 4096 = 0")
  case True
  then have "4096 * ((filesz + 4095) div 4096) = filesz"
    unfolding pages_of_size(4) [OF True] using mult_div_mod_eq [of 4096 filesz] by simp
  then show ?thesis using l c True by auto
next
  case False
  define k r where "k = filesz div 4096" and "r = filesz mod 4096"
  have sz: "filesz = 4096 * k + r" "r < 4096" "r \<noteq> 0" using False by (simp_all add: k_def r_def)
  have K: "(filesz + 4095) div 4096 = Suc k" "(filesz - 1) div 4096 = k" using pages_of_size(3,5) [OF False] by (simp_all add: k_def)
  have "0x40027 + k \<in> dom f" using c unfolding K by (auto simp: code_pages_def)
  then obtain b where b: "f (0x40027 + k) = Some b" by blast
  let ?z = "replicate (4096 - r) (0 :: byte)"
  have rz: "r + length ?z \<le> 4096" using sz by simp
  have at: "x div 4096 = k \<and> r \<le> x mod 4096" if "filesz \<le> x" "x < 4096 * Suc k" for x
  proof -
    have "x div 4096 = k" by (rule div_nat_eqI) (use that sz in simp_all)
    then show ?thesis using that(1) sz(1) mult_div_mod_eq [of 4096 x] by simp
  qed
  have before: "\<not> (x div 4096 = k \<and> r \<le> x mod 4096)" if "\<not> filesz \<le> x" for x
  proof
    assume "x div 4096 = k \<and> r \<le> x mod 4096"
    then have "filesz \<le> 4096 * (x div 4096) + x mod 4096" using sz(1) by simp
    then show False using that by simp
  qed
  have "code_pages (f(0x40027 + k \<mapsto> put_at b r ?z)) (Suc k) (4096 * Suc k) (file_image blk b0 filesz)"
    by (rule code_pages_write [OF c [unfolded K] _ _ rz b])
      (use at before sz in \<open>auto simp: code_address file_image_def\<close>)
  then show ?thesis
    using loading_write(1) [OF l p b rz] base sz unfolding K by (auto simp flip: r_def)
qed

text \<open>A page of zeros at page number \<open>0x40027 + k\<close>.\<close>

lemma load_zero_pages_ok:
  assumes "loading m0 m p f" "code_pages f k (4096 * k) data" "k + n \<le> 4" "n \<le> free_frames m" "\<forall>x \<ge> 4096 * k. data x = 0"
    and p: "p \<noteq> 0" "p \<noteq> curr_vm_pid m0"
  shows "\<exists>m' f'. load_zero_pages soft_tlb_earth mem_write p (word_of_nat (0x40027 + k)) n m = Inr m' \<and>
    loading m0 m' p f' \<and> code_pages f' (k + n) (4096 * (k + n)) data"
  using assms(1-5)
proof (induction n arbitrary: k m f)
  case (Suc n)
  let ?q = "0x40027 + k" and ?z = "replicate 4096 (0 :: byte)"
  have "f ?q = None" "?q < 0x40100" "0 < free_frames m" using Suc.prems by (auto simp: code_pages_def)
  from loading_alloc [OF Suc.prems(1) p this]
  obtain i m1 m2 b where a: "mmu_alloc m = Inr ((i, paging_read i), m1)" "soft_tlb_map p (word_of_nat ?q) i m1 = Inr m2"
    "loading m0 m2 p (f(?q \<mapsto> b))" "length b = 4096" "frame_of m2 p ?q = i" by blast
  have c1: "code_pages (f(?q \<mapsto> b)) (Suc k) (4096 * k) data" by (rule code_pages_new [OF Suc.prems(2) le_refl a(4)])
  have u: "(f(?q \<mapsto> b)) ?q = Some b" by simp
  define f2 m3 where "f2 = f(?q \<mapsto> b, ?q \<mapsto> put_at b 0 ?z)" and "m3 = mem_write (paging_read i) ?z m2"
  have z: "0 + length ?z \<le> 4096" "paging_read i + word_of_nat 0 = paging_read i" by simp_all
  have l3: "loading m0 m3 p f2"
    using loading_write(1) [OF a(3) p u z(1)] unfolding a(5) z(2) m3_def f2_def .
  have c3: "code_pages f2 (Suc k) (4096 * Suc k) data"
    unfolding f2_def
  proof (rule code_pages_write [OF c1 _ _ _ u])
    fix x assume x: "4096 * k \<le> x" "x < 4096 * Suc k"
    have "x div 4096 = k" by (rule div_nat_eqI) (use x in simp_all)
    then show "(0x40027000 + x) div 4096 = ?q \<and> 0 \<le> x mod 4096 \<and> x mod 4096 < 0 + length ?z \<and> ?z ! (x mod 4096 - 0) = data x"
      using Suc.prems(5) x by (simp add: code_address)
  qed (auto simp: code_address)
  have "n \<le> free_frames m3"
    using loadingD(9) [OF l3] loadingD(9) [OF Suc.prems(1)] code_pages_card [OF c3] code_pages_card [OF Suc.prems(2)] Suc.prems(4) by simp
  moreover have "\<forall>x \<ge> 4096 * Suc k. data x = 0" using Suc.prems(5) by simp
  ultimately obtain m' f' where r: "load_zero_pages soft_tlb_earth mem_write p (word_of_nat (0x40027 + Suc k)) n m3 = Inr m'"
    "loading m0 m' p f'" "code_pages f' (Suc k + n) (4096 * (Suc k + n)) data"
    using Suc.IH [OF l3 c3] Suc.prems(3) by auto
  moreover have "word_of_nat ?q + 1 = (word_of_nat (0x40027 + Suc k) :: u64)" by simp
  ultimately show ?case
    using a(1,2) by (intro exI [of _ m'] exI [of _ f']) (simp add: soft_tlb_earth_def m3_def layout_simps)
qed auto

section \<open>The page of the arguments\<close>

definition arg_page :: "nat \<Rightarrow> byte list \<Rightarrow> byte list \<Rightarrow> byte list" where
  "arg_page argc args b = put_at (put_at (put_at b 0 (le32 (word_of_nat argc))) 132 args) 4 (arg_pointers argc)"

lemma length_arg_pointers: "length (arg_pointers argc) = 8 * argc"
  by (induction argc) (simp_all add: arg_pointers_def le64_def)

lemma arg_page_parts:
  assumes "length b = 4096" "argc \<le> 16" "length args \<le> 512"
  shows "length (arg_page argc args b) = 4096"
    "take (4 + 8 * argc) (arg_page argc args b) = le32 (word_of_nat argc) @ arg_pointers argc"
    "take (length args) (drop 132 (arg_page argc args b)) = args"
  using assms by (simp_all add: arg_page_def put_at_def length_arg_pointers)

lemma store_args_ok:
  assumes l: "loading m0 m p f" and p: "p \<noteq> 0" "p \<noteq> curr_vm_pid m0" and b: "f q = Some b" "length b = 4096"
    and n: "argc \<le> 16" "length args \<le> 512"
  shows "loading m0 (store_args mem_write (paging_read (frame_of m p q)) argc args m) p (f(q \<mapsto> arg_page argc args b))"
proof -
  let ?base = "paging_read (frame_of m p q)"
  let ?n = "le32 (word_of_nat argc)" and ?ptr = "arg_pointers argc"
  have len: "0 + length ?n \<le> 4096" "132 + length args \<le> 4096" "4 + length ?ptr \<le> 4096"
    using n by (simp_all add: length_arg_pointers)
  define m1 where "m1 = mem_write (?base + word_of_nat 0) ?n m"
  define m2 where "m2 = mem_write (?base + word_of_nat 132) args m1"
  note w1 = loading_write [OF l p b(1) len(1), folded m1_def]
  let ?b1 = "put_at b 0 ?n" and ?b2 = "put_at (put_at b 0 ?n) 132 args"
  have "(f(q \<mapsto> ?b1)) q = Some ?b1" by simp
  note w2 = loading_write [OF w1(1) p this len(2), unfolded w1(2), folded m2_def]
  have "(f(q \<mapsto> ?b1, q \<mapsto> ?b2)) q = Some ?b2" by simp
  note w3 = loading_write(1) [OF w2(1) p this len(3), unfolded w2(2)]
  have "store_args mem_write ?base argc args m = mem_write (?base + word_of_nat 4) ?ptr m2"
    by (simp add: store_args_def m1_def m2_def CMD_NARGS_def add.commute)
  then show ?thesis using w3 by (simp only: arg_page_def fun_upd_upd)
qed

section \<open>The whole application\<close>

text \<open>Loading starts with a process that has no pages.\<close>

lemma loading_start:
  assumes "tlb_ok m" "\<forall>q. \<not> has_page m p q"
  shows "loading m m p Map.empty"
  using assms by (simp add: loading_def)

lemma load_app_code:
  assumes rd: "\<And>k m. reader k m = Inr (blk k, m)" "\<And>k. length (blk k) = 512"
    and m: "tlb_ok m" "\<forall>q. \<not> has_page m p q" "4 \<le> free_frames m" and p: "p \<noteq> 0" "p \<noteq> curr_vm_pid m"
    and filesz: "filesz \<le> 0x4000"
  obtains base s f m' f' where
    "load_blocks soft_tlb_earth mem_write reader p filesz b0 0 0x40027 0 m = Inr ((base, word_of_nat (0x40027 + (filesz + 4095) div 4096)), s)"
    "load_zero_pages soft_tlb_earth mem_write p (word_of_nat (0x40027 + (filesz + 4095) div 4096)) (4 - (filesz + 4095) div 4096)
      (if filesz mod 4096 \<noteq> 0 then mem_write (base + word_of_nat (filesz mod 4096)) (replicate (4096 - filesz mod 4096) 0) s else s) = Inr m'"
    "loading m m' p f'" "code_pages f' 4 0x4000 (file_image blk b0 filesz)"
proof -
  let ?N = "(filesz + 511) div 512" and ?K = "(filesz + 4095) div 4096"
  have N: "?N \<le> 32" "?K \<le> 4" using filesz by (auto simp: div_le_dividend less_Suc_eq_le [symmetric] div_less_iff_less_mult)
  have c0: "code_pages Map.empty ((0 + 7) div 8) (512 * 0) (file_byte blk b0)" by (simp add: code_pages_def)
  have "(?N + 7) div 8 \<le> free_frames m + (0 + 7) div 8" using N m(3) unfolding pages_of_size(1) by simp
  from load_blocks_ok [OF rd p refl N(1) le0 loading_start [OF m(1,2)] c0 this, of 0]
  obtain base s f where b: "load_blocks soft_tlb_earth mem_write reader p filesz b0 0 0x40027 0 m = Inr ((base, word_of_nat (0x40027 + ?K)), s)"
    "loading m s p f" "code_pages f ?K (512 * ?N) (file_byte blk b0)"
    "0 < ?N \<longrightarrow> base = paging_read (frame_of s p (0x40027 + (?N - 1) div 8))"
    unfolding pages_of_size(1) by auto
  define s1 where "s1 = (if filesz mod 4096 \<noteq> 0 then mem_write (base + word_of_nat (filesz mod 4096)) (replicate (4096 - filesz mod 4096) 0) s else s)"
  have "0 < filesz \<longrightarrow> base = paging_read (frame_of s p (0x40027 + (filesz - 1) div 4096))"
    using b(4) pages_of_size(2) [of filesz] by (auto simp: div_greater_zero_iff)
  from zero_tail [OF b(2) p code_pages_image [OF b(3) pages_of_size(6)] this, folded s1_def]
  obtain f1 where z: "loading m s1 p f1" "code_pages f1 ?K (4096 * ?K) (file_image blk b0 filesz)" by blast
  have "4 - ?K \<le> free_frames s1" using loadingD(9) [OF z(1), unfolded code_pages_card [OF z(2)]] m(3) by simp
  moreover have "\<forall>x \<ge> 4096 * ?K. file_image blk b0 filesz x = 0"
  proof (intro allI impI)
    fix x assume x: "4096 * ?K \<le> x"
    have "filesz \<le> 4096 * ?K" by simp
    then show "file_image blk b0 filesz x = 0" using x by (simp add: file_image_def)
  qed
  moreover have k4: "?K + (4 - ?K) = 4" using N(2) by simp
  ultimately obtain m' f' where "load_zero_pages soft_tlb_earth mem_write p (word_of_nat (0x40027 + ?K)) (4 - ?K) s1 = Inr m'"
    "loading m m' p f'" "code_pages f' 4 (4096 * 4) (file_image blk b0 filesz)"
    using load_zero_pages_ok [OF z, of "4 - ?K"] p by (auto simp only: k4 order_refl)
  then show thesis by (intro that [OF b(1)]) (simp_all only: s1_def, simp)
qed

text \<open>What a process finds at an address.\<close>

definition proc_byte :: "machine \<Rightarrow> int \<Rightarrow> nat \<Rightarrow> byte" where
  "proc_byte m p a = proc_page m p (a div 4096) ! (a mod 4096)"

definition app_loaded :: "machine \<Rightarrow> machine \<Rightarrow> int \<Rightarrow> (nat \<Rightarrow> byte) \<Rightarrow> nat \<Rightarrow> byte list \<Rightarrow> bool" where
  "app_loaded m m' p img argc args \<longleftrightarrow>
     tlb_ok m' \<and> curr_vm_pid m' = curr_vm_pid m \<and>
     {q. has_page m' p q} = {APPS_ENTRY div 4096..<(APPS_ENTRY + APPS_SIZE) div 4096} \<union> {APPS_ARG div 4096, APPS_ARG div 4096 + 1} \<and>
     (\<forall>x < APPS_SIZE. proc_byte m' p (APPS_ENTRY + x) = img x) \<and>
     take (4 + 8 * argc) (proc_page m' p (APPS_ARG div 4096)) = le32 (word_of_nat argc) @ arg_pointers argc \<and>
     take (length args) (drop (4 + 8 * CMD_NARGS) (proc_page m' p (APPS_ARG div 4096))) = args \<and>
     (\<forall>r q. r \<noteq> p \<longrightarrow> r \<noteq> 0 \<longrightarrow> has_page m' r q = has_page m r q \<and> (has_page m r q \<longrightarrow> proc_page m' r q = proc_page m r q))"

lemma loading_app_loaded:
  assumes l: "loading m m' p (f(0x400FB \<mapsto> arg_page argc args b, 0x400FC \<mapsto> b'))" and p: "p \<noteq> curr_vm_pid m"
    and c: "code_pages f 4 0x4000 img" and n: "length b = 4096" "argc \<le> 16" "length args \<le> 512"
  shows "app_loaded m m' p img argc args"
proof -
  let ?f = "f(0x400FB \<mapsto> arg_page argc args b, 0x400FC \<mapsto> b')"
  note d = loadingD [OF l] and a = arg_page_parts [OF n]
  have pg: "proc_page m' p q = the (?f q)" if dm: "q \<in> dom ?f" for q
  proof -
    obtain c where "?f q = Some c" using dm unfolding dom_def by blast
    then show ?thesis using d(4) [OF \<open>?f q = Some c\<close>] d(2) p by (simp only: proc_page_def option.sel if_False)
  qed
  have df: "dom f = {0x40027..<0x4002B}" using c by (simp add: code_pages_def)
  have "{q. has_page m' p q} = dom ?f" unfolding dom_def d(3) ..
  moreover have "dom ?f = {0x40027..<0x4002B} \<union> {0x400FB, 0x400FC}" using df by auto
  moreover have "proc_byte m' p (0x40027000 + x) = img x" if "x < 0x4000" for x
  proof -
    have x: "x div 4096 < 4" using that by (simp add: div_less_iff_less_mult)
    then have "0x40027 + x div 4096 \<in> dom ?f" using df by auto
    then show ?thesis using pg x c that unfolding proc_byte_def code_address by (simp add: code_pages_def vbyte_def code_address)
  qed
  moreover have "proc_page m' p 0x400FB = arg_page argc args b"
    by (subst pg) simp_all
  ultimately show ?thesis
    using d(1,2,5,6) a by (simp add: app_loaded_def layout_simps CMD_NARGS_def)
qed

lemma load_app_ok:
  assumes rd: "\<And>k m. reader k m = Inr (blk k, m)" "\<And>k. length (blk k) = 512"
    and m: "tlb_ok m" "\<forall>q. \<not> has_page m p q" "6 \<le> free_frames m" and p: "p \<noteq> 0" "p \<noteq> curr_vm_pid m"
    and n: "unat (p_filesz ph) \<le> APPS_SIZE" "argc \<le> CMD_NARGS" "length args \<le> CMD_NARGS * CMD_ARG_LEN"
  shows "\<exists>m'. load_app soft_tlb_earth mem_write reader p argc args ph m = Inr m' \<and>
    app_loaded m m' p (file_image blk (int (unat (p_offset ph) div BLOCK_SIZE)) (unat (p_filesz ph))) argc args"
proof -
  define filesz b0 where "filesz = unat (p_filesz ph)" and "b0 = int (unat (p_offset ph) div BLOCK_SIZE)"
  have n': "filesz \<le> 0x4000" "argc \<le> 16" "length args \<le> 512" "4 \<le> free_frames m"
    using n m(3) by (simp_all add: filesz_def layout_simps CMD_NARGS_def CMD_ARG_LEN_def)
  obtain base s f0 m1 f where c: "load_blocks soft_tlb_earth mem_write reader p filesz b0 0 0x40027 0 m = Inr ((base, word_of_nat (0x40027 + (filesz + 4095) div 4096)), s)"
    "load_zero_pages soft_tlb_earth mem_write p (word_of_nat (0x40027 + (filesz + 4095) div 4096)) (4 - (filesz + 4095) div 4096)
      (if filesz mod 4096 \<noteq> 0 then mem_write (base + word_of_nat (filesz mod 4096)) (replicate (4096 - filesz mod 4096) 0) s else s) = Inr m1"
    "loading m m1 p f" "code_pages f 4 0x4000 (file_image blk b0 filesz)"
    by (rule load_app_code [OF rd m(1,2) n'(4) p n'(1)]) (rule that)
  have df: "dom f = {0x40027..<0x4002B}" using c(4) by (simp add: code_pages_def)
  have "0x400FB \<notin> dom f" "0x400FC \<notin> dom f" unfolding df by simp_all
  then have none: "f 0x400FB = None" "f 0x400FC = None" by (simp_all add: domIff)
  have "0 < free_frames m1" using loadingD(9) [OF c(3)] m(3) df by simp
  then obtain i m2 m3 b where a: "mmu_alloc m1 = Inr ((i, paging_read i), m2)" "soft_tlb_map p (word_of_nat 0x400FB) i m2 = Inr m3"
    "loading m m3 p (f(0x400FB \<mapsto> b))" "length b = 4096" "frame_of m3 p 0x400FB = i"
    by (auto intro: loading_alloc [OF c(3) p none(1)])
  have l4: "loading m (store_args mem_write (paging_read i) argc args m3) p (f(0x400FB \<mapsto> arg_page argc args b))" (is "loading m ?m4 p ?f4")
    using store_args_ok [OF a(3) p fun_upd_same a(4) n'(2,3)] unfolding a(5) fun_upd_upd .
  have f4: "?f4 0x400FC = None" "card (dom ?f4) = 5" using none(2) df by simp_all
  have fr4: "0 < free_frames ?m4" "0x400FC < (0x40100 :: nat)" using loadingD(9) [OF l4, unfolded f4(2)] m(3) by simp_all
  obtain j m5 m6 b' where e: "mmu_alloc ?m4 = Inr ((j, paging_read j), m5)" "soft_tlb_map p (word_of_nat 0x400FC) j m5 = Inr m6"
    "loading m m6 p (?f4(0x400FC \<mapsto> b'))"
    by (rule loading_alloc [OF l4 p f4(1) fr4(2,1)]) (rule that)
  have "(filesz + 4095) div 4096 \<le> 4" using n'(1) by (simp add: less_Suc_eq_le [symmetric] div_less_iff_less_mult)
  then have u: "unat (word_of_nat (0x40027 + (filesz + 4095) div 4096) :: u64) = 0x40027 + (filesz + 4095) div 4096"
    by (simp add: unat_of_nat del: of_nat_add)
  have k: "word_of_nat (APPS_ENTRY div 4096) = (0x40027 :: u64)" "(APPS_ENTRY + APPS_SIZE) div 4096 = 0x4002B"
    "unat (word_of_nat 0x4002B :: u64) = 0x4002B" "0x4002B - (0x40027 + (filesz + 4095) div 4096) = 4 - (filesz + 4095) div 4096"
    "APPS_ARG div 4096 = 0x400FB" "(0x400FB :: nat) + 1 = 0x400FC" "PAGE_SIZE = 4096"
    "mmu_alloc_op soft_tlb_earth = mmu_alloc" "mmu_map_op soft_tlb_earth = soft_tlb_map"
    by (simp_all add: layout_simps soft_tlb_earth_def)
  have "load_app soft_tlb_earth mem_write reader p argc args ph m = Inr m6"
    unfolding load_app_def filesz_def [symmetric] b0_def [symmetric] Let_def
    by (simp only: k c(1,2) a(1,2) e(1,2) u bindE_Inr prod.case)
  moreover have "app_loaded m m6 p (file_image blk b0 filesz) argc args"
    by (rule loading_app_loaded [OF e(3) p(2) c(4) a(4) n'(2,3)])
  ultimately show ?thesis unfolding filesz_def b0_def by blast
qed

section \<open>The program headers\<close>

text \<open>The headers that are not skipped; \<open>None\<close> if one of them is outside the first block.\<close>

fun loadable :: "block \<Rightarrow> nat \<Rightarrow> nat \<Rightarrow> elf64_program_header list option" where
  "loadable buf a 0 = Some []"
| "loadable buf a (Suc k) =
     (case (elf_pheader buf a, loadable buf (a + 56) k) of
        (Inr ph, Some phs) \<Rightarrow> Some (if p_memsz ph = 0 then phs else ph # phs)
      | _ \<Rightarrow> None)"

lemma load_headers_none:
  "loadable buf a k = Some [] \<Longrightarrow> load_headers E wr reader p argc args buf a k s = Inr s"
  by (induction k arbitrary: a) (auto split: sum.splits option.splits if_splits)

lemma load_headers_one:
  assumes "loadable buf a k = Some [ph]" "p_vaddr ph = word_of_nat APPS_ENTRY"
    "load_app E wr reader p argc args ph s = Inr s'"
  shows "load_headers E wr reader p argc args buf a k s = Inr s'"
  using assms(1)
proof (induction k arbitrary: a)
  case (Suc k)
  then obtain h phs where h: "elf_pheader buf a = Inr h" "loadable buf (a + 56) k = Some phs"
    "[ph] = (if p_memsz h = 0 then phs else h # phs)"
    by (auto split: sum.splits option.splits)
  show ?case
  proof (cases "p_memsz h = 0")
    case True
    then show ?thesis using Suc.IH [of "a + 56"] h by simp
  next
    case False
    then have "h = ph" "loadable buf (a + 56) k = Some []" using h by auto
    moreover have "(word_of_nat APPS_ENTRY :: u64) \<noteq> word_of_nat GRASS_ENTRY" by (simp add: layout_simps)
    ultimately show ?thesis using False h(1) assms(2,3) load_headers_none by simp
  qed
qed simp

lemma elf_load_ok:
  assumes "\<And>k m. reader k m = Inr (blk k, m)" "\<And>k. length (blk k) = 512"
    and "loadable (blk 0) (unat (e_phoff (elf_header (blk 0)))) (unat (e_phnum (elf_header (blk 0)))) = Some [ph]"
    and "p_vaddr ph = word_of_nat APPS_ENTRY" "unat (p_filesz ph) \<le> APPS_SIZE"
    and "argc \<le> CMD_NARGS" "length args \<le> CMD_NARGS * CMD_ARG_LEN"
    and "tlb_ok m" "\<forall>q. \<not> has_page m p q" "6 \<le> free_frames m" "p \<noteq> 0" "p \<noteq> curr_vm_pid m"
  shows "\<exists>m'. elf_load soft_tlb_earth mem_write p reader argc args m = Inr m' \<and>
    app_loaded m m' p (file_image blk (int (unat (p_offset ph) div BLOCK_SIZE)) (unat (p_filesz ph))) argc args"
proof -
  obtain m' where m': "load_app soft_tlb_earth mem_write reader p argc args ph m = Inr m'"
    "app_loaded m m' p (file_image blk (int (unat (p_offset ph) div BLOCK_SIZE)) (unat (p_filesz ph))) argc args"
    using load_app_ok [of reader blk m p ph argc args] assms by blast
  have "elf_load soft_tlb_earth mem_write p reader argc args m = Inr m'"
    using load_headers_one [OF assms(3,4) m'(1)] by (simp add: elf_load_def assms(1) Let_def)
  then show ?thesis using m'(2) by blast
qed

text \<open>
  C13: For an executable with one program header that is not empty, at the address of applications and no
  larger than their area, \<open>elf_load\<close> under the software TLB returns whenever six frames are free. The new
  process then has exactly the four pages of the application area and the two pages of its arguments and
  stack. The area holds the bytes of the file from the header's block on, followed by zeros up to its end; the
  argument page starts with \<open>argc\<close>, the pointers to the arguments, and the arguments themselves; the pages of every
  other process, present or in the frame cache, are unchanged.
\<close>

theorem elf_load_app:
  assumes "\<And>k m. reader k m = Inr (blk k, m)" "\<And>k. length (blk k) = 512"
    and "loadable (blk 0) (unat (e_phoff (elf_header (blk 0)))) (unat (e_phnum (elf_header (blk 0)))) = Some [ph]"
    and "p_vaddr ph = word_of_nat APPS_ENTRY" "unat (p_filesz ph) \<le> APPS_SIZE"
    and "argc \<le> CMD_NARGS" "length args \<le> CMD_NARGS * CMD_ARG_LEN"
    and "tlb_ok m" "\<forall>q. \<not> has_page m p q" "6 \<le> free_frames m" "p \<noteq> 0" "p \<noteq> curr_vm_pid m"
  shows "\<exists>m'. elf_load soft_tlb_earth mem_write p reader argc args m = Inr m' \<and>
    app_loaded m m' p (file_image blk (int (unat (p_offset ph) div BLOCK_SIZE)) (unat (p_filesz ph))) argc args"
  by (rule elf_load_ok [where reader = reader and blk = blk, OF assms])

definition sample_elf :: "int \<Rightarrow> block" where
  "sample_elf k = (if k = 0 then
     replicate 32 0 @ le64 64 @ replicate 16 0 @ [1, 0] @ replicate 6 0 @
     le64 1 @ le64 512 @ le64 (word_of_nat APPS_ENTRY) @ le64 0 @ le64 700 @ le64 900 @ le64 0 @ replicate 392 0
   else replicate 512 (word_of_int k))"

lemma sample_elf_length: "length (sample_elf k) = 512"
  by (simp add: sample_elf_def le64_def)

lemma length_le64: "length (le64 w) = 8"
  by (simp add: le64_def)

lemma get64_at: "length xs = i \<Longrightarrow> get64 (xs @ le64 w @ ys) i = w"
proof -
  have "w = ucast (ucast w :: u32) OR push_bit 32 (ucast (ucast (drop_bit 32 w) :: u32))"
    by (rule bit_word_eqI) (auto simp: bit_simps)
  then show "get64 (xs @ le64 w @ ys) i = w" if "length xs = i"
    using that by (simp add: get64_def le64_def get32_def le32_def)
qed

lemma sample_elf_headers:
  "e_phoff (elf_header (sample_elf 0)) = 64" "e_phnum (elf_header (sample_elf 0)) = 1"
  "elf_pheader (sample_elf 0) 64 = Inr \<lparr>p_offset = 512, p_vaddr = word_of_nat APPS_ENTRY, p_filesz = 700, p_memsz = 900\<rparr>"
proof -
  show "e_phoff (elf_header (sample_elf 0)) = 64"
    unfolding elf_header_def sample_elf_def by (simp add: get64_at del: replicate_Suc)
  show "e_phnum (elf_header (sample_elf 0)) = 1"
    unfolding elf_header_def sample_elf_def by (simp add: get16_def nth_append le64_def)
  show "elf_pheader (sample_elf 0) 64 = Inr \<lparr>p_offset = 512, p_vaddr = word_of_nat APPS_ENTRY, p_filesz = 700, p_memsz = 900\<rparr>"
  proof -
    let ?p = "replicate 32 0 @ le64 64 @ replicate 16 0 @ [1, 0] @ replicate 6 0 @ le64 1"
    have "get64 (sample_elf 0) 72 = 512" "get64 (sample_elf 0) 80 = word_of_nat APPS_ENTRY"
      "get64 (sample_elf 0) 96 = 700" "get64 (sample_elf 0) 104 = 900"
      using get64_at [of ?p 72 512] get64_at [of "?p @ le64 512" 80 "word_of_nat APPS_ENTRY"]
        get64_at [of "?p @ le64 512 @ le64 (word_of_nat APPS_ENTRY) @ le64 0" 96 700]
        get64_at [of "?p @ le64 512 @ le64 (word_of_nat APPS_ENTRY) @ le64 0 @ le64 700" 104 900]
      by (simp_all add: sample_elf_def length_le64)
    then show ?thesis by (simp add: elf_pheader_def sample_elf_length)
  qed
qed

lemma sample_free: "free_frames (sample_machine 1 [1] mm) = 255"
proof -
  have "{i \<in> {..<256}. \<not> fuse (table (sample_machine 1 [1] mm) ! i)} = {1..<256}"
    by (auto simp: sample_machine_def sample_table_def nth_Cons' frame_none_def)
  then show ?thesis unfolding free_frames_card by simp
qed

lemma sample_app_ready:
  "loadable (sample_elf 0) (unat (e_phoff (elf_header (sample_elf 0)))) (unat (e_phnum (elf_header (sample_elf 0)))) =
    Some [\<lparr>p_offset = 512, p_vaddr = word_of_nat APPS_ENTRY, p_filesz = 700, p_memsz = 900\<rparr>]"
  "\<forall>q. \<not> has_page (sample_machine 1 [1] mm) 5 q" "tlb_ok (sample_machine 1 [1] mm)" "curr_vm_pid (sample_machine 1 [1] mm) = 1"
  "6 \<le> free_frames (sample_machine 1 [1] mm)"
  subgoal by (simp add: sample_elf_headers)
  subgoal by (auto simp: has_page_def sample_owns)
  subgoal by (rule sample_machine_ok) simp_all
  subgoal by (simp add: sample_machine_def)
  subgoal by (simp add: sample_free)
  done

theorem elf_load_app_witness:
  "\<exists>m'. elf_load soft_tlb_earth mem_write 5 (\<lambda>k m. Inr (sample_elf k, m)) 1 (replicate 32 65) (sample_machine 1 [1] (\<lambda>_. 0)) = Inr m' \<and>
    app_loaded (sample_machine 1 [1] (\<lambda>_. 0)) m' 5 (file_image sample_elf 1 700) 1 (replicate 32 65)"
  using elf_load_app [where reader = "\<lambda>k m. Inr (sample_elf k, m)" and blk = sample_elf and argc = 1 and args = "replicate 32 65"
      and m = "sample_machine 1 [1] (\<lambda>_. 0)" and p = 5, OF refl sample_elf_length sample_app_ready(1)]
  by (simp add: sample_app_ready layout_simps CMD_NARGS_def CMD_ARG_LEN_def)

end
