(* ===== verification/Shell_Correct.thy ===== *)
theory Shell_Correct
  imports Shell Elf_Correct
begin

text \<open>
  The shell splits a line into its words, and an application finds these words as its arguments.
\<close>

section \<open>The arguments of a request\<close>

lemma arg_slot_length: "length w < 32 \<Longrightarrow> length (arg_slot w) = 32"
  by (simp add: arg_slot_def CMD_ARG_LEN_def)

lemma slots_length: "\<forall>w \<in> set ws. length w < 32 \<Longrightarrow> length (concat (map arg_slot ws)) = 32 * length ws"
  by (induction ws) (simp_all add: arg_slot_length)

lemma argv_of_empty_last:
  assumes "length ws < 16"
  shows "argv_of (ws @ [[]]) = argv_of ws"
proof -
  have "32 + 32 * (15 - length ws) = 32 * (16 - length ws)" using assms by simp
  then show ?thesis
    by (simp add: argv_of_def arg_slot_def CMD_ARG_LEN_def CMD_NARGS_def flip: replicate_add)
qed

lemma argv_of_update:
  assumes "\<forall>w \<in> set ws. length w < 32" "length w < 32"
  shows "(argv_of (ws @ [w]))[length ws * 32 + length w := c] =
    concat (map arg_slot ws) @ w @ c # replicate (31 - length w) 0 @ replicate (32 * (15 - length ws)) 0"
proof -
  have "replicate (32 - length w) (0 :: byte) = 0 # replicate (31 - length w) 0"
    using assms(2) by (simp flip: replicate_Suc add: Suc_diff_Suc)
  then show ?thesis
    using slots_length [OF assms(1)] by (simp add: argv_of_def arg_slot_def CMD_ARG_LEN_def CMD_NARGS_def list_update_append)
qed

lemma argv_of_snoc:
  assumes "\<forall>w \<in> set ws. length w < 32" "Suc (length w) < 32"
  shows "(argv_of (ws @ [w]))[length ws * 32 + length w := c] = argv_of (ws @ [w @ [c]])"
  using assms argv_of_update [of ws w c] by (simp add: argv_of_def arg_slot_def CMD_ARG_LEN_def CMD_NARGS_def)

lemma argv_of_zero:
  assumes "\<forall>w \<in> set ws. length w < 32" "length w < 32"
  shows "(argv_of (ws @ [w]))[length ws * 32 + length w := 0] = argv_of (ws @ [w])"
proof -
  have "(0 :: byte) # replicate (31 - length w) 0 = replicate (32 - length w) 0"
    using assms(2) by (simp flip: replicate_Suc add: Suc_diff_Suc)
  then show ?thesis
    using argv_of_update [OF assms, of 0] by (simp add: argv_of_def arg_slot_def CMD_ARG_LEN_def CMD_NARGS_def)
qed

lemma words_from_begun: "w \<noteq> [] \<Longrightarrow> \<exists>u us. words_from w cs = (w @ u) # us"
proof (induction cs arbitrary: w)
  case (Cons c cs)
  from Cons.IH [of "w @ [c]"] Cons.prems show ?case by (cases "c = 32") auto
qed simp

lemma words_from_blank: "words_from [] cs = [] \<Longrightarrow> cs \<noteq> [] \<Longrightarrow> last cs = 32"
proof (induction cs)
  case (Cons c cs)
  from words_from_begun [of "[c]" cs] Cons show ?case by (cases cs) (auto split: if_split_asm)
qed simp

text \<open>The loop, with the words \<open>ws\<close> finished and the word \<open>w\<close> begun.\<close>

definition accepted :: "byte list list \<Rightarrow> byte list \<Rightarrow> byte list \<Rightarrow> bool" where
  "accepted ws w cs \<longleftrightarrow> (\<forall>u \<in> set (words_from w cs). length u < 32) \<and> length ws + length (words_from w cs) \<le> 16 \<and>
     (length ws + length (words_from w cs) = 16 \<and> cs \<noteq> [] \<longrightarrow> last cs \<noteq> 32)"

lemma parse_loop_words:
  assumes "length ws < 16" "length w < 32" "\<forall>u \<in> set ws. length u < 32"
  shows "if accepted ws w cs
    then parse_loop cs (length w) (length ws) (argv_of (ws @ [w])) = (Some (length (ws @ words_from w cs)), argv_of (ws @ words_from w cs))
    else fst (parse_loop cs (length w) (length ws) (argv_of (ws @ [w]))) = None"
  using assms
proof (induction cs arbitrary: ws w)
  case Nil
  then show ?case using argv_of_empty_last [of ws] by (auto simp: accepted_def)
next
  case (Cons c cs)
  note cst = CMD_ARG_LEN_def CMD_NARGS_def
  consider (char) "c \<noteq> 32" | (skip) "c = 32" "w = []" | (stop) "c = 32" "w \<noteq> []" by blast
  then show ?case
  proof cases
    case char
    have acc: "accepted ws w (c # cs) \<longleftrightarrow> accepted ws (w @ [c]) cs" using char by (auto simp: accepted_def)
    show ?thesis
    proof (cases "Suc (length w) < 32")
      case True
      then show ?thesis
        using Cons.IH [of ws "w @ [c]"] Cons.prems char argv_of_snoc [of ws w c] by (simp add: acc cst Let_def split: if_splits)
    next
      case False
      then have "\<not> accepted ws (w @ [c]) cs" using words_from_begun [of "w @ [c]" cs] by (auto simp: accepted_def)
      then show ?thesis using False char by (simp add: acc cst Let_def)
    qed
  next
    case skip
    then have "accepted ws w (c # cs) \<longleftrightarrow> accepted ws [] cs" using Cons.prems by (cases cs) (auto simp: accepted_def)
    then show ?thesis using Cons.IH [of ws "[]"] Cons.prems skip by (simp split: if_splits)
  next
    case stop
    show ?thesis
    proof (cases "Suc (length ws) < 16")
      case True
      then have "accepted ws w (c # cs) \<longleftrightarrow> accepted (ws @ [w]) [] cs" using stop Cons.prems by (cases cs) (auto simp: accepted_def)
      moreover have "argv_of (ws @ [w] @ [[]]) = argv_of (ws @ [w])" using argv_of_empty_last [of "ws @ [w]"] True by simp
      ultimately show ?thesis
        using Cons.IH [of "ws @ [w]" "[]"] Cons.prems stop True argv_of_zero [of ws w] by (simp add: cst Let_def split: if_splits)
    next
      case False
      then have "\<not> accepted ws w (c # cs)"
        using stop Cons.prems words_from_blank [of cs] by (cases "words_from [] cs"; cases cs) (auto simp: accepted_def)
      then show ?thesis using False stop by (simp add: cst Let_def)
    qed
  qed
qed

lemma argv_of_nil: "argv_of [] = replicate 512 0"
  by (simp add: argv_of_def CMD_NARGS_def CMD_ARG_LEN_def)

lemma parse_request_ok:
  assumes "c_str buf = Inr str"
  shows "fits_request str \<Longrightarrow> parse_request buf req = Inr (0, req\<lparr>argv := argv_of (words str), argc := word_of_nat (length (words str))\<rparr>)"
    and "\<not> fits_request str \<Longrightarrow> \<exists>req'. parse_request buf req = Inr (-1, req')"
proof -
  have acc: "accepted [] [] str \<longleftrightarrow> fits_request str"
    by (cases str) (auto simp: accepted_def fits_request_def words_def CMD_NARGS_def CMD_ARG_LEN_def)
  have p: "if fits_request str
    then parse_loop str 0 0 (replicate 512 0) = (Some (length (words str)), argv_of (words str))
    else fst (parse_loop str 0 0 (replicate 512 0)) = None"
    using parse_loop_words [of "[]" "[]" str] argv_of_empty_last [of "[]"]
    by (simp add: acc words_def argv_of_nil split: if_splits)
  show "parse_request buf req = Inr (0, req\<lparr>argv := argv_of (words str), argc := word_of_nat (length (words str))\<rparr>)"
    if "fits_request str" using p that by (simp add: parse_request_def assms CMD_NARGS_def CMD_ARG_LEN_def)
  show "\<exists>req'. parse_request buf req = Inr (-1, req')" if "\<not> fits_request str"
    using p that by (cases "parse_loop str 0 0 (replicate 512 0)") (simp add: parse_request_def assms CMD_NARGS_def CMD_ARG_LEN_def)
qed

text \<open>
  C16: \<open>parse_request\<close> splits a line into its words. It accepts a line exactly when no word has 32 or more
  characters, there are at most 16 words, and no blank follows a sixteenth one; the request then has one
  zero-padded slot per word and zeros in the other slots. Any other line gives \<open>-1\<close>. No store leaves the
  \<open>argv\<close> array.
\<close>

theorem parse_request_words:
  assumes "c_str buf = Inr str"
  shows "if fits_request str
    then parse_request buf req = Inr (0, req\<lparr>argv := argv_of (words str), argc := word_of_nat (length (words str))\<rparr>)
    else \<exists>req'. parse_request buf req = Inr (-1, req')"
  using parse_request_ok [OF assms] by (simp split: if_splits)

theorem parse_request_words_witness:
  "parse_request (of_str '' cat  README '' @ [0]) \<lparr>req_type = 0, argc = 0, argv = []\<rparr> =
    Inr (0, \<lparr>req_type = 0, argc = 2, argv = argv_of [of_str ''cat'', of_str ''README'']\<rparr>)"
proof -
  have "c_str (of_str '' cat  README '' @ [0]) = Inr (of_str '' cat  README '')"
    by (rule c_str_append) (simp add: of_str_def)
  moreover have "words (of_str '' cat  README '') = [of_str ''cat'', of_str ''README'']" by (simp add: words_def of_str_def)
  ultimately show ?thesis
    using parse_request_words [of "of_str '' cat  README '' @ [0]" "of_str '' cat  README ''" "\<lparr>req_type = 0, argc = 0, argv = []\<rparr>"]
    by (simp add: fits_request_def of_str_def CMD_NARGS_def CMD_ARG_LEN_def)
qed

end
