(* ===== verification/Proc_Correct.thy ===== *)
theory Proc_Correct
  imports Proc_Server Shell_Correct
begin

text \<open>
  From a command line to the arguments of the application, and two lines that the shell and the process server do
  not handle.
\<close>

section \<open>Arguments of an application\<close>

lemma request_roundtrip:
  assumes "length (argv r) = 512"
  shows "proc_request_of (proc_request_bytes r @ rest) = r"
  using assms
  by (simp add: proc_request_of_def proc_request_bytes_def get32_append [where k = 1] CMD_NARGS_def CMD_ARG_LEN_def)

lemma drop_slots:
  "\<forall>w \<in> set ws. length w < 32 \<Longrightarrow> drop (32 * k) (concat (map arg_slot ws)) = concat (map arg_slot (drop k ws))"
proof (induction ws arbitrary: k)
  case (Cons w ws)
  then show ?case by (cases k) (simp_all add: arg_slot_length)
qed simp

lemma take_argv_of:
  assumes "\<forall>w \<in> set ws. length w < 32"
  shows "take (length ws * CMD_ARG_LEN) (argv_of ws) = concat (map arg_slot ws)"
  using slots_length [OF assms] by (simp add: argv_of_def CMD_ARG_LEN_def mult.commute)

lemma slot_string:
  assumes ws: "\<forall>w \<in> set ws. length w < 32 \<and> 0 \<notin> set w" and k: "k < length ws"
  shows "c_str (drop (32 * k) (concat (map arg_slot ws) @ rest)) = Inr (ws ! k)"
proof -
  have d: "drop k ws = ws ! k # drop (Suc k) ws" using k by (simp add: Cons_nth_drop_Suc)
  have l: "32 * k \<le> length (concat (map arg_slot ws))" using slots_length [of ws] ws k by simp
  have w: "length (ws ! k) < 32" "0 \<notin> set (ws ! k)" using ws k by auto
  then have "arg_slot (ws ! k) = ws ! k @ 0 # replicate (31 - length (ws ! k)) 0"
    by (simp add: arg_slot_def CMD_ARG_LEN_def flip: replicate_Suc)
  then show ?thesis
    using drop_slots [of ws k] ws l by (simp add: d c_str_append [OF w(2)])
qed

lemma arg_pointer_at:
  assumes "k < n"
  shows "get64 (le32 w @ arg_pointers n @ rest) (4 + 8 * k) = word_of_nat (APPS_ARG + 132 + 32 * k)"
proof -
  let ?f = "\<lambda>i. le64 (word_of_nat (APPS_ARG + 4 + 8 * CMD_NARGS + i * CMD_ARG_LEN))"
  have "[0..<n] = [0..<k] @ k # [Suc k..<n]" using assms by (metis less_imp_add_positive upt_add_eq_append upt_conv_Cons zero_le)
  then have "arg_pointers n = arg_pointers k @ ?f k @ concat (map ?f [Suc k..<n])" by (simp add: arg_pointers_def)
  moreover have "APPS_ARG + 4 + 8 * CMD_NARGS + k * CMD_ARG_LEN = APPS_ARG + 132 + 32 * k" by (simp add: CMD_NARGS_def CMD_ARG_LEN_def)
  ultimately show ?thesis
    using get64_at [of "le32 w @ arg_pointers k" "4 + 8 * k" "word_of_nat (APPS_ARG + 132 + 32 * k)" "concat (map ?f [Suc k..<n]) @ rest"]
    by (simp add: length_arg_pointers)
qed

text \<open>What \<^verbatim>\<open>main\<close> finds at \<^verbatim>\<open>argv[k]\<close>, by following the pointer in the argument page.\<close>

definition app_argv :: "machine \<Rightarrow> int \<Rightarrow> nat \<Rightarrow> byte list res" where
  "app_argv m p k =
     (let pg = proc_page m p (APPS_ARG div 4096) in c_str (drop (unat (get64 pg (4 + 8 * k)) - APPS_ARG) pg))"

lemma app_argv_words:
  assumes l: "app_loaded m m' p img (length ws) (concat (map arg_slot ws))"
    and ws: "\<forall>w \<in> set ws. length w < 32 \<and> 0 \<notin> set w" "length ws \<le> 16" and k: "k < length ws"
  shows "app_argv m' p k = Inr (ws ! k)"
proof -
  define pg where "pg = proc_page m' p (APPS_ARG div 4096)"
  have pg1: "take (4 + 8 * length ws) pg = le32 (word_of_nat (length ws)) @ arg_pointers (length ws)"
    and pg2: "take (length (concat (map arg_slot ws))) (drop 132 pg) = concat (map arg_slot ws)"
    using l by (simp_all add: app_loaded_def pg_def CMD_NARGS_def)
  have "pg = (le32 (word_of_nat (length ws)) @ arg_pointers (length ws)) @ drop (4 + 8 * length ws) pg"
    using pg1 by (metis append_take_drop_id)
  then have ptr: "get64 pg (4 + 8 * k) = word_of_nat (APPS_ARG + 132 + 32 * k)"
    using arg_pointer_at [OF k, of "word_of_nat (length ws)" "drop (4 + 8 * length ws) pg"] by simp
  have u: "unat (word_of_nat (APPS_ARG + 132 + 32 * k) :: u64) = APPS_ARG + 132 + 32 * k"
    using k ws(2) by (simp add: unat_of_nat layout_simps del: of_nat_add)
  have dd: "drop (APPS_ARG + 132 + 32 * k - APPS_ARG) pg = drop (32 * k) (drop 132 pg)" by (simp add: add.commute)
  have "drop 132 pg = concat (map arg_slot ws) @ drop (length (concat (map arg_slot ws))) (drop 132 pg)"
    using pg2 by (metis append_take_drop_id)
  then show ?thesis
    using slot_string [OF ws(1) k, of "drop (length (concat (map arg_slot ws))) (drop 132 pg)"]
    unfolding app_argv_def Let_def pg_def [symmetric] ptr u dd by simp
qed

section \<open>A command line reaches the application\<close>

lemma words_from_no_zero: "0 \<notin> set w \<Longrightarrow> 0 \<notin> set cs \<Longrightarrow> \<forall>u \<in> set (words_from w cs). 0 \<notin> set u"
proof (induction cs arbitrary: w)
  case (Cons c cs)
  have "\<forall>u \<in> set (words_from [] cs). 0 \<notin> set u" "\<forall>u \<in> set (words_from (w @ [c]) cs). 0 \<notin> set u"
    using Cons.prems by (intro Cons.IH; simp)+
  then show ?case using Cons.prems by (simp split: if_split)
qed simp

lemma c_str_no_zero: "c_str buf = Inr str \<Longrightarrow> 0 \<notin> set str"
  by (auto simp: c_str_def dest: set_takeWhileD split: if_split_asm)



section \<open>A line of blanks\<close>

lemma words_blanks: "words (replicate k 32) = []"
  unfolding words_def by (induction k) simp_all

text \<open>
  C35: A line that has blanks only is accepted by the shell with no argument at all. The process server then reads the
  last argument of the request, \<open>argv[-1]\<close>, which lies outside the message, whatever the directory server answers.
\<close>

theorem blank_line_undefined:
  assumes "\<And>ino name s. length name < 32 \<Longrightarrow> \<exists>r s'. dir_lookup (grass_rpc G) stale ino name s = Inr (r, s')"
    and "\<And>s. \<exists>p s'. proc_alloc_op G s = Inr (p, s')" and "req_type req = PROC_SPAWN"
  shows "\<exists>req'. parse_request (replicate k 32 @ [0]) req = Inr (0, req') \<and>
    proc_step G E wr stale blk sender (proc_request_bytes req' @ rest) P s = Inl (Undefined ''argv: index out of range'')"
proof -
  let ?req = "req\<lparr>argv := replicate 512 0, argc := 0\<rparr>"
  have c: "c_str (replicate k 32 @ [0]) = Inr (replicate k 32)" by (rule c_str_append) simp
  have "fits_request (replicate k 32)" by (simp add: fits_request_def words_blanks CMD_NARGS_def)
  from parse_request_ok(1) [OF c this] have p: "parse_request (replicate k 32 @ [0]) req = Inr (0, ?req)"
    by (simp add: words_blanks argv_of_nil)
  have r: "proc_request_of (proc_request_bytes ?req @ rest) = ?req" by (rule request_roundtrip) simp
  have l: "last_arg ?req = Inl (Undefined ''argv: index out of range'')"
    "last_arg (proc_request_of (put32 (proc_request_bytes ?req @ rest) 0 w)) = Inl (Undefined ''argv: index out of range'')" for w
    by (simp_all add: last_arg_def proc_request_of_def proc_request_bytes_def put32_def le32_def get32_def)
  obtain b s1 where b: "dir_lookup (grass_rpc G) stale 0 (of_str ''bin/'') s = Inr (b, s1)"
    using assms(1) [of "of_str ''bin/''" 0 s] by (auto simp: of_str_def)
  have a: "c_str (argv ?req) = Inr []" by (simp add: c_str_def)
  obtain i s2 where i: "dir_lookup (grass_rpc G) stale (word_of_int b) [] s1 = Inr (i, s2)"
    using assms(1) [of "[]" "word_of_int b" s1] by auto
  obtain q s3 where q: "proc_alloc_op G s2 = Inr (q, s3)" using assms(2) by blast
  have "proc_step G E wr stale blk sender (proc_request_bytes ?req @ rest) P s = Inl (Undefined ''argv: index out of range'')"
    using assms(3) b a i q l by (simp add: proc_step_def r app_spawn_def Let_def)
  then show ?thesis using p by blast
qed

text \<open>A directory server with the answer \<open>b\<close> to every request, for the witnesses.\<close>

definition sample_grass :: "byte \<Rightarrow> unit grass" where
  "sample_grass b = \<lparr>proc_alloc_op = (\<lambda>s. Inr (6, s)), proc_free_op = (\<lambda>_ s. Inr s), proc_set_ready_op = (\<lambda>_ s. Inr s),
     sys_send_op = (\<lambda>_ _ s. Inr s), sys_recv_op = (\<lambda>_ s. Inr ((GPID_DIR, b # replicate 1023 0), s))\<rparr>"

lemma sample_grass_lookup:
  "length name < 32 \<Longrightarrow> \<exists>r s'. dir_lookup (grass_rpc (sample_grass 0)) (replicate 32 0) ino name s = Inr (r, s')"
  by (simp add: dir_lookup_def strcpy_to_def grass_rpc_def sample_grass_def)

theorem blank_line_undefined_witness:
  "\<forall>E wr P s. \<exists>req'. parse_request (replicate 3 32 @ [0]) \<lparr>req_type = PROC_SPAWN, argc = 0, argv = []\<rparr> = Inr (0, req') \<and>
    proc_step (sample_grass 0) E wr (replicate 32 0) [] 4 (proc_request_bytes req' @ []) P s = Inl (Undefined ''argv: index out of range'')"
  by (intro allI, rule blank_line_undefined, erule sample_grass_lookup) (simp_all add: sample_grass_def)

section \<open>A command that is not found, while an application runs in the background\<close>

lemma put_type_keeps:
  "argc (proc_request_of (put32 buf 0 w)) = argc (proc_request_of buf)"
  "argv (proc_request_of (put32 buf 0 w)) = argv (proc_request_of buf)"
  by (simp_all add: proc_request_of_def put32_def get32_def)

text \<open>
  C34: When the directory server does not know the command of a foreground request, the process server answers with an error and
  the shell does not wait; but the server notes that the shell is waiting and keeps the pid of the application
  that it started before. When that application ends, the server sends the shell a message that the shell
  does not expect.
\<close>

theorem failed_spawn_then_exit:
  assumes "proc_request_of buf = req" "req_type req = PROC_SPAWN" "last_arg req = Inr c" "c \<noteq> of_char CHR ''&''"
    and "c_str (argv req) = Inr name"
    and "dir_lookup (grass_rpc G) stale 0 (of_str ''bin/'') s = Inr (bin_ino, s1)"
    and "dir_lookup (grass_rpc G) stale (word_of_int bin_ino) name s1 = Inr (ino, s2)" "ino < 0"
    and "sys_send_op G GPID_SHELL (take 8 (put32 buf 0 CMD_ERROR)) s2 = Inr s3"
    and "req_type (proc_request_of ebuf) = PROC_EXIT"
  shows "\<exists>P'. proc_step G E wr stale blk sender buf P s = Inr (P', s3) \<and>
    proc_step G E wr stale blk (app_pid P) ebuf P' s4 =
      bindE (proc_free_op G (app_pid P) s4) (\<lambda>s. bindE (sys_send_op G GPID_SHELL (take 8 ebuf) s) (\<lambda>s. Inr (P', s)))"
proof -
  let ?P = "P\<lparr>app_ino := ino, shell_waiting := Some True\<rparr>"
  have "last_arg (proc_request_of (put32 buf 0 w)) = last_arg req" for w
    unfolding last_arg_def put_type_keeps assms(1) ..
  then have "proc_step G E wr stale blk sender buf P s = Inr (?P, s3)"
    using assms by (simp add: proc_step_def app_spawn_def Let_def)
  moreover have "proc_step G E wr stale blk (app_pid P) ebuf ?P s4 =
      bindE (proc_free_op G (app_pid P) s4) (\<lambda>s. bindE (sys_send_op G GPID_SHELL (take 8 ebuf) s) (\<lambda>s. Inr (?P, s)))"
    using assms(10) by (simp add: proc_step_def Let_def PROC_EXIT_def PROC_SPAWN_def)
  ultimately show ?thesis by blast
qed

definition sample_request :: proc_request where
  "sample_request = \<lparr>req_type = PROC_SPAWN, argc = 1, argv = argv_of [of_str ''foo'']\<rparr>"

lemma sample_request_bytes: "proc_request_of (proc_request_bytes sample_request @ []) = sample_request"
  by (rule request_roundtrip) (simp add: sample_request_def argv_of_def arg_slot_def of_str_def CMD_NARGS_def CMD_ARG_LEN_def)

theorem failed_spawn_then_exit_witness:
  "\<forall>E wr. \<exists>P'. proc_step (sample_grass 1) E wr (replicate 32 0) [] 4 (proc_request_bytes sample_request @ []) \<lparr>app_ino = 9, app_pid = 6, shell_waiting = Some False\<rparr> () = Inr (P', ()) \<and>
    proc_step (sample_grass 1) E wr (replicate 32 0) [] 6 (le32 PROC_EXIT) P' () =
      bindE (proc_free_op (sample_grass 1) 6 ()) (\<lambda>s. bindE (sys_send_op (sample_grass 1) GPID_SHELL (le32 PROC_EXIT) s) (\<lambda>s. Inr (P', s)))"
proof (intro allI)
  fix E :: "unit earth" and wr :: "unit writer"
  let ?P = "\<lparr>app_ino = 9, app_pid = 6, shell_waiting = Some False\<rparr>"
  have l: "dir_lookup (grass_rpc (sample_grass 1)) (replicate 32 0) ino name () = Inr (-1, ())" if "length name < 32" for ino name
    using that by (simp add: dir_lookup_def strcpy_to_def grass_rpc_def sample_grass_def get32_def u32_of_bytes_def DIR_OK_def)
  have r: "req_type sample_request = PROC_SPAWN" "last_arg sample_request = Inr (of_char CHR ''f'')" "c_str (argv sample_request) = Inr (of_str ''foo'')"
    by (simp_all add: sample_request_def last_arg_def argv_of_def arg_slot_def of_str_def c_str_def CMD_NARGS_def CMD_ARG_LEN_def)
  have k: "of_char CHR ''f'' \<noteq> (of_char CHR ''&'' :: byte)" "length (of_str ''foo'') < 32" "length (of_str ''bin/'') < 32" "(-1 :: int) < 0"
    "sys_send_op (sample_grass 1) GPID_SHELL (take 8 (put32 (proc_request_bytes sample_request @ []) 0 CMD_ERROR)) () = Inr ()"
    "req_type (proc_request_of (le32 PROC_EXIT)) = PROC_EXIT"
    by (simp_all add: of_str_def sample_grass_def proc_request_of_def) (use get32_le32 [of PROC_EXIT "[]"] in simp)
  from failed_spawn_then_exit [OF sample_request_bytes r(1,2) k(1) r(3) l [OF k(3)] l [OF k(2)] k(4,5,6), of E wr "[]" 4 ?P "()"]
  show "\<exists>P'. proc_step (sample_grass 1) E wr (replicate 32 0) [] 4 (proc_request_bytes sample_request @ []) ?P () = Inr (P', ()) \<and>
    proc_step (sample_grass 1) E wr (replicate 32 0) [] 6 (le32 PROC_EXIT) P' () =
      bindE (proc_free_op (sample_grass 1) 6 ()) (\<lambda>s. bindE (sys_send_op (sample_grass 1) GPID_SHELL (le32 PROC_EXIT) s) (\<lambda>s. Inr (P', s)))"
    by simp
qed

end
