(* ===== verification/Page_Table.thy ===== *)
theory Page_Table
  imports Elf Shell
begin

unbundle bit_operations_syntax

text \<open>
  Translation by page tables: the second half of \<^verbatim>\<open>earth/cpu_mmu.c\<close>. The tables are frames of the frame cache,
  which the code reaches at their physical addresses.
\<close>

section \<open>Entries\<close>

definition PTE_PPN_MASK :: u64 where "PTE_PPN_MASK = push_bit 10 0xFFFFFFFFFFF"
definition PTE_GET_PA :: "u64 \<Rightarrow> u64" where "PTE_GET_PA pte = push_bit 2 (pte AND PTE_PPN_MASK)"
definition PA_TO_PTE :: "u64 \<Rightarrow> u64" where "PA_TO_PTE pa = drop_bit 2 pa AND PTE_PPN_MASK"
definition VA_GET_VPN :: "u64 \<Rightarrow> nat \<Rightarrow> nat" where
  "VA_GET_VPN va level = unat (drop_bit (12 + level * 9) va AND 0x1FF)"

definition PTE_V :: u64 where "PTE_V = 1"
definition OS_XWRV :: u64 where "OS_XWRV = 0xF"
definition USER_XWRV :: u64 where "USER_XWRV = 0x1F"
definition PTE_A :: u64 where "PTE_A = push_bit 6 1"
definition PTE_D :: u64 where "PTE_D = push_bit 7 1"

definition MAKE_SATP :: "u64 \<Rightarrow> u64" where "MAKE_SATP pt = push_bit 60 8 OR drop_bit 12 pt"

definition load64 :: "mem \<Rightarrow> u64 \<Rightarrow> u64" where "load64 m a = get64 (peek m a 8) 0"

definition store64 :: "u64 \<Rightarrow> u64 \<Rightarrow> mem \<Rightarrow> mem" where "store64 a w m = poke m a (le64 w)"

section \<open>State\<close>

text \<open>The frames and devices, the table of root page tables, and the registers that the code sets.\<close>

record vm =
  mach :: machine
  pt_base :: "u64 list"
  pt_curr :: int
  satp :: u64
  pmpaddr0 :: u64
  pmpcfg0 :: u64
  page_tables :: bool

definition vm_store :: "u64 \<Rightarrow> u64 \<Rightarrow> vm \<Rightarrow> vm" where
  "vm_store a w s = s\<lparr>mach := (mach s)\<lparr>mem := store64 a w (mem (mach s))\<rparr>\<rparr>"

section \<open>Walking and growing the tables\<close>

text \<open>A new table: a frame that belongs to the process, cleared.\<close>

definition new_table :: "int \<Rightarrow> vm \<Rightarrow> (u64 \<times> vm) res" where
  "new_table p s =
     bindE (mmu_alloc (mach s)) (\<lambda>((frame_id, a), m).
     let m = m\<lparr>table := (table m)[frame_id := (table m ! frame_id)\<lparr>fpid := p\<rparr>],
               mem := poke (mem m) a (replicate PAGE_SIZE 0)\<rparr> in
     Inr (a, s\<lparr>mach := m\<rparr>))"

text \<open>One level: the table below entry \<open>vpn\<close> of the table at \<open>pt\<close>, which is allocated if there is none.\<close>

definition walk_step :: "int \<Rightarrow> u64 \<Rightarrow> nat \<Rightarrow> vm \<Rightarrow> (u64 \<times> vm) res" where
  "walk_step p pt vpn s =
     (let a = pt + 8 * word_of_nat vpn; pte = load64 (mem (mach s)) a in
      if pte AND PTE_V \<noteq> 0 then Inr (PTE_GET_PA pte, s)
      else bindE (new_table p s) (\<lambda>(next_pt, s). Inr (next_pt, vm_store a (PA_TO_PTE next_pt OR PTE_V) s)))"

definition walk_root :: "int \<Rightarrow> vm \<Rightarrow> (u64 \<times> vm) res" where
  "walk_root p s =
     (if pt_base s ! nat p = 0 then
        bindE (new_table p s) (\<lambda>(root, s). Inr (root, s\<lparr>pt_base := (pt_base s)[nat p := root]\<rparr>))
      else Inr (pt_base s ! nat p, s))"

definition walk_page_tables :: "int \<Rightarrow> u64 \<Rightarrow> vm \<Rightarrow> (u64 \<times> vm) res" where
  "walk_page_tables p page_addr s =
     (if unat page_addr mod PAGE_SIZE \<noteq> 0 then Inl (Fatal ''Address not page aligned'')
      else if p < 0 \<or> p \<ge> int (length (pt_base s)) then Inl (Undefined ''pid_to_pagetable_base: index out of range'')
      else
        bindE (walk_root p s) (\<lambda>(root, s).
        bindE (walk_step p root (VA_GET_VPN page_addr 2) s) (\<lambda>(l1_pt, s).
        walk_step p l1_pt (VA_GET_VPN page_addr 1) s)))"

section \<open>Identity mappings\<close>

fun identity_loop :: "u64 \<Rightarrow> u64 \<Rightarrow> nat \<Rightarrow> u64 \<Rightarrow> nat list \<Rightarrow> vm \<Rightarrow> vm res" where
  "identity_loop leaf_pt page_addr vpn0 flag [] s = Inr s"
| "identity_loop leaf_pt page_addr vpn0 flag (i # is) s =
     (if vpn0 + i > 511 then Inl (Fatal ''Leaf page table overrun!!!'')
      else identity_loop leaf_pt page_addr vpn0 flag is
             (vm_store (leaf_pt + 8 * word_of_nat (vpn0 + i))
                (PA_TO_PTE (page_addr + word_of_nat (i * PAGE_SIZE)) OR PTE_A OR PTE_D OR flag) s))"

definition setup_identity_region :: "int \<Rightarrow> u64 \<Rightarrow> nat \<Rightarrow> u64 \<Rightarrow> vm \<Rightarrow> vm res" where
  "setup_identity_region p page_addr npages flag s =
     bindE (walk_page_tables p page_addr s) (\<lambda>(leaf_pt, s).
     identity_loop leaf_pt page_addr (VA_GET_VPN page_addr 0) flag [0..<npages] s)"

text \<open>The regions of a process, as addresses and numbers of pages.\<close>

definition identity_regions :: "int \<Rightarrow> (nat \<times> nat) list" where
  "identity_regions p =
     [(0x02500000, 1), (0x04020000, 3)] @
     (if p = 0 then [(MEM_START, PAGE_CNT MEM_SIZE)]
      else [(EARTH_ENTRY, PAGE_CNT EARTH_SIZE), (GRASS_ENTRY, PAGE_CNT GRASS_SIZE),
            (GRASS_STACK_BOTTOM, PAGE_CNT GRASS_STACK_SIZE), (GRASS_INTERFACE, 1)] @
           (if p = GPID_PROCESS then [(FRAME_CACHE_START, PAGE_CNT FRAME_CACHE_SIZE)] else []))"

fun setup_regions :: "int \<Rightarrow> (nat \<times> nat) list \<Rightarrow> vm \<Rightarrow> vm res" where
  "setup_regions p [] s = Inr s"
| "setup_regions p ((a, n) # rs) s =
     bindE (setup_identity_region p (word_of_nat a) n OS_XWRV s) (setup_regions p rs)"

definition pagetable_identity_mapping :: "int \<Rightarrow> vm \<Rightarrow> vm res" where
  "pagetable_identity_mapping p s = setup_regions p (identity_regions p) s"

section \<open>The operations of the interface\<close>

definition page_table_map :: "int \<Rightarrow> u64 \<Rightarrow> nat \<Rightarrow> vm \<Rightarrow> vm res" where
  "page_table_map p page_no pid_frame_id s =
     (if p \<ge> 32 then Inl (Fatal ''page_table_map: pid too large'')
      else if p < 0 then Inl (Undefined ''pid_to_pagetable_base: index out of range'')
      else
        let page_addr = push_bit 12 page_no in
        bindE (if pt_base s ! nat p = 0 then pagetable_identity_mapping p s else Inr s) (\<lambda>s.
        bindE (walk_page_tables p page_addr s) (\<lambda>(leaf_pt, s).
        Inr (vm_store (leaf_pt + 8 * word_of_nat (VA_GET_VPN page_addr 0))
               (PA_TO_PTE (paging_read pid_frame_id) OR PTE_A OR PTE_D OR USER_XWRV) s))))"

definition page_table_switch :: "int \<Rightarrow> vm \<Rightarrow> vm res" where
  "page_table_switch p s =
     (if p = pt_curr s then Inr s
      else if p < 0 \<or> p \<ge> int (length (pt_base s)) then Inl (Undefined ''pid_to_pagetable_base: index out of range'')
      else Inr (s\<lparr>satp := MAKE_SATP (pt_base s ! nat p), pt_curr := p\<rparr>))"

section \<open>Initialisation\<close>

text \<open>The loop that asks for the mechanism, until a line starts with 0 or 1; \<open>None\<close> when it waits for input.\<close>

function mmu_choice :: "byte list \<Rightarrow> machine \<Rightarrow> (byte \<times> machine) option" where
  "mmu_choice buf m =
     (if buf ! 0 \<noteq> of_char CHR ''0'' \<and> buf ! 0 \<noteq> of_char CHR ''1'' then
        (case tty_read 2 buf m of None \<Rightarrow> None | Some ((_, buf, _), m) \<Rightarrow> mmu_choice buf m)
      else Some (buf ! 0, m))"
  by pat_completeness auto
termination
  by (relation "measure (\<lambda>(buf, m). length (uart_rx m))")
    (auto simp: tty_read_def dest: tty_read_loop_consumes(2))

declare mmu_choice.simps [simp del]

definition mmu_init :: "vm \<Rightarrow> vm res option" where
  "mmu_init s =
     (let s = s\<lparr>pmpaddr0 := drop_bit 2 0xffffffff, pmpcfg0 := 0x0F\<rparr> in
      map_option (\<lambda>(c, m).
        let s = s\<lparr>mach := m, page_tables := (c = of_char CHR ''0'')\<rparr> in
        if page_tables s then
          bindE (pagetable_identity_mapping 0 s) (\<lambda>s. Inr (s\<lparr>satp := MAKE_SATP (pt_base s ! 0)\<rparr>))
        else Inr s)
      (mmu_choice [0, 0] (mach s)))"

section \<open>The translation of the hardware\<close>

text \<open>
  The walk of the Sv39 scheme over three levels of tables, for a tree whose leaf entries are at the last level: the
  entry of the page, or \<open>None\<close> for a page fault.
\<close>

definition sv39_walk :: "mem \<Rightarrow> u64 \<Rightarrow> u64 \<Rightarrow> u64 option" where
  "sv39_walk m root va =
     (let e2 = load64 m (root + 8 * word_of_nat (VA_GET_VPN va 2));
          e1 = load64 m (PTE_GET_PA e2 + 8 * word_of_nat (VA_GET_VPN va 1));
          e0 = load64 m (PTE_GET_PA e1 + 8 * word_of_nat (VA_GET_VPN va 0)) in
      if e2 AND PTE_V = 0 \<or> e1 AND PTE_V = 0 \<or> e0 AND PTE_V = 0 then None else Some e0)"

end
