(* ===== verification/Page_Table_Correct.thy ===== *)
theory Page_Table_Correct
  imports Page_Table Elf_Correct
begin

unbundle bit_operations_syntax

text \<open>
  The page tables as trees of frames: walking grows the tree of one process and changes no translation, and
  mapping a page changes the translation of exactly this page.
\<close>

section \<open>Entries of tables\<close>

lemma ppn_mask: "PTE_PPN_MASK = push_bit 10 (mask 44)"
  by (simp add: PTE_PPN_MASK_def mask_eq_exp_minus_1)

lemma pte_roundtrip: "PTE_GET_PA (PA_TO_PTE (push_bit 12 (take_bit 44 w)) OR take_bit 10 f) = push_bit 12 (take_bit 44 w)"
  by (rule bit_word_eqI) (auto simp: PTE_GET_PA_def PA_TO_PTE_def ppn_mask bit_simps)

lemma paging_read_ppn: "i < 256 \<Longrightarrow> paging_read i = push_bit 12 (take_bit 44 (word_of_nat (frame_pn i)))"
proof -
  assume "i < 256"
  then have "frame_pn i < 2 ^ 44" by (simp add: frame_pn_def)
  then have "take_bit 44 (word_of_nat (frame_pn i) :: u64) = word_of_nat (frame_pn i)"
    by (intro word_unat_eq_iff [THEN iffD2]) (simp add: unsigned_take_bit_eq unat_of_nat take_bit_nat_eq_self)
  then show ?thesis by (simp add: paging_read_eq push_bit_eq_mult)
qed

lemma get64_take: "k + 8 \<le> length b \<Longrightarrow> get64 (take 8 (drop k b)) 0 = get64 b k"
  by (simp add: get64_def get32_def)

lemma get64_put_at:
  assumes "length b = 4096" "u < 512" "v < 512"
  shows "get64 (put_at b (8 * v) (le64 w)) (8 * u) = (if u = v then w else get64 b (8 * u))"
proof (cases "u = v")
  case True
  have "put_at b (8 * v) (le64 w) = take (8 * v) b @ le64 w @ drop (8 * v + 8) b" by (simp add: put_at_def le64_def)
  then show ?thesis using True get64_at [of "take (8 * v) b" "8 * v" w "drop (8 * v + 8) b"] assms by simp
next
  case False
  have n: "put_at b (8 * v) (le64 w) ! (8 * u + k) = b ! (8 * u + k)" if "k < 8" for k
    using nth_put_at [of "8 * v" "le64 w" b "8 * u + k"] assms that False by (auto simp: length_le64)
  have "take 8 (drop (8 * u) (put_at b (8 * v) (le64 w))) = take 8 (drop (8 * u) b)"
    by (rule nth_equalityI) (use assms n in \<open>simp_all add: length_put_at length_le64\<close>)
  then show ?thesis
    using get64_take [of "8 * u" "put_at b (8 * v) (le64 w)"] get64_take [of "8 * u" b] assms False
    by (simp add: length_put_at length_le64)
qed

definition entry :: "mem \<Rightarrow> nat \<Rightarrow> nat \<Rightarrow> u64" where
  "entry m i v = get64 (page m (frame_pn i)) (8 * v)"

lemma load64_entry: "i < 256 \<Longrightarrow> v < 512 \<Longrightarrow> load64 m (paging_read i + 8 * word_of_nat v) = entry m i v"
proof -
  assume "i < 256" "v < 512"
  then have "peek m (paging_read i + 8 * word_of_nat v) 8 = take 8 (drop (8 * v) (page m (frame_pn i)))"
    by (intro nth_equalityI) (simp_all add: nth_peek page_def paging_read_eq algebra_simps)
  then show ?thesis using \<open>v < 512\<close> by (simp add: load64_def entry_def get64_take)
qed

lemma entry_store:
  assumes "i < 256" "v < 512" "j < 256" "u < 512"
  shows "entry (store64 (paging_read i + 8 * word_of_nat v) w m) j u = (if j = i \<and> u = v then w else entry m j u)"
proof -
  have "paging_read i + 8 * word_of_nat v = word_of_nat (frame_pn i * 4096 + 8 * v)" by (simp add: paging_read_eq)
  then have "page (store64 (paging_read i + 8 * word_of_nat v) w m) (frame_pn j) =
      (if j = i then put_at (page m (frame_pn i)) (8 * v) (le64 w) else page m (frame_pn j))"
    using page_poke_inside [of "frame_pn j" "frame_pn i" "8 * v" "le64 w" m] assms
    by (simp add: store64_def put_at_def frame_pn_def length_le64)
  then show ?thesis using get64_put_at [of "page m (frame_pn i)" u v w] assms by (auto simp: entry_def)
qed

lemma entry_clear:
  assumes "i < 256" "j < 256" "u < 512"
  shows "entry (poke m (paging_read i) (replicate PAGE_SIZE 0)) j u = (if j = i then 0 else entry m j u)"
proof -
  have "page (poke m (paging_read i) (replicate 4096 0)) (frame_pn j) = (if j = i then replicate 4096 0 else page m (frame_pn j))"
    using page_poke [of "frame_pn j" "frame_pn i" "replicate 4096 0" m] assms by (simp add: paging_read_eq frame_pn_def)
  moreover have "get64 (replicate 4096 0) (8 * u) = 0" using assms by (simp add: get64_def get32_def u32_of_bytes_0)
  ultimately show ?thesis by (simp add: entry_def layout_simps)
qed

section \<open>Trees of tables\<close>

datatype node = Root | Mid nat | Leaf nat nat

fun child :: "node \<Rightarrow> nat \<Rightarrow> node option" where
  "child Root v = Some (Mid v)"
| "child (Mid a) v = Some (Leaf a v)"
| "child (Leaf a b) v = None"

lemma child_inj: "child n v = Some c \<Longrightarrow> child n' v' = Some c \<Longrightarrow> n' = n \<and> v' = v"
  by (cases n; cases n') auto

text \<open>The entry that points to a table, and 0 where there is none.\<close>

fun link :: "nat option \<Rightarrow> u64" where
  "link None = 0"
| "link (Some j) = PA_TO_PTE (paging_read j) OR PTE_V"

lemma link_valid: "link x AND PTE_V = 0 \<longleftrightarrow> x = None"
proof (cases x)
  case (Some j)
  have "bit (link x AND PTE_V) 0" using Some by (simp add: PTE_V_def bit_simps)
  then show ?thesis using Some by (metis bit_0_eq bot_apply bot_bool_def option.distinct(1))
qed (simp add: PTE_V_def)

lemma link_address: "j < 256 \<Longrightarrow> PTE_GET_PA (link (Some j)) = paging_read j"
  using pte_roundtrip [of "word_of_nat (frame_pn j)" 1] by (simp add: paging_read_ppn PTE_V_def)

text \<open>
  \<open>pt_rep s T\<close>: \<open>T\<close> gives the frame of each table of each process. Tables are in different frames, all of them in use, and
  the entries of the two upper levels are the links of the tree.
\<close>

definition pt_rep :: "vm \<Rightarrow> (int \<times> node \<rightharpoonup> nat) \<Rightarrow> bool" where
  "pt_rep s T \<longleftrightarrow> length (table (mach s)) = 256 \<and> length (pt_base s) = 32 \<and> inj_on T (dom T) \<and>
     (\<forall>x i. T x = Some i \<longrightarrow> i < 256 \<and> fuse (table (mach s) ! i)) \<and>
     (\<forall>p n. T (p, n) \<noteq> None \<longrightarrow> 0 \<le> p \<and> p < 32) \<and>
     (\<forall>p. 0 \<le> p \<longrightarrow> p < 32 \<longrightarrow> pt_base s ! nat p = (case T (p, Root) of None \<Rightarrow> 0 | Some i \<Rightarrow> paging_read i)) \<and>
     (\<forall>p c. T (p, c) \<noteq> None \<longrightarrow> c = Root \<or> (\<exists>n v. v < 512 \<and> child n v = Some c \<and> T (p, n) \<noteq> None)) \<and>
     (\<forall>p n i v c. T (p, n) = Some i \<longrightarrow> v < 512 \<longrightarrow> child n v = Some c \<longrightarrow> entry (mem (mach s)) i v = link (T (p, c)))"

lemma pt_repD:
  assumes "pt_rep s T"
  shows "length (table (mach s)) = 256" "length (pt_base s) = 32"
    "T x = Some i \<Longrightarrow> T y = Some i \<Longrightarrow> x = y"
    "T x = Some i \<Longrightarrow> i < 256" "T x = Some i \<Longrightarrow> fuse (table (mach s) ! i)"
    "T (p, n) \<noteq> None \<Longrightarrow> 0 \<le> p \<and> p < 32"
    "0 \<le> p \<Longrightarrow> p < 32 \<Longrightarrow> pt_base s ! nat p = (case T (p, Root) of None \<Rightarrow> 0 | Some i \<Rightarrow> paging_read i)"
    "T (p, c) \<noteq> None \<Longrightarrow> c = Root \<or> (\<exists>n v. v < 512 \<and> child n v = Some c \<and> T (p, n) \<noteq> None)"
    "T (p, n) = Some i \<Longrightarrow> v < 512 \<Longrightarrow> child n v = Some c \<Longrightarrow> entry (mem (mach s)) i v = link (T (p, c))"
  using assms unfolding pt_rep_def inj_on_def by (blast, blast, (metis domI), blast+)

text \<open>The leaf entry of a page in the tree of a process; 0 if there is no leaf table.\<close>

definition leaf_pte :: "vm \<Rightarrow> (int \<times> node \<rightharpoonup> nat) \<Rightarrow> int \<Rightarrow> u64 \<Rightarrow> u64" where
  "leaf_pte s T p va =
     (case T (p, Leaf (VA_GET_VPN va 2) (VA_GET_VPN va 1)) of None \<Rightarrow> 0 | Some i \<Rightarrow> entry (mem (mach s)) i (VA_GET_VPN va 0))"

lemma vpn_eq: "VA_GET_VPN va k = unat va div 2 ^ (12 + k * 9) mod 512"
  using unat_and_mask [of "drop_bit (12 + k * 9) va" 9] by (simp add: VA_GET_VPN_def unat_drop_bit mask_eq_exp_minus_1)

lemma vpn_less: "VA_GET_VPN va k < 512"
  by (simp add: vpn_eq)

text \<open>The walk of the hardware finds the leaf entry of the tree.\<close>

lemma sv39_walk_leaf:
  assumes r: "pt_rep s T" and p: "0 \<le> p" "p < 32" "T (p, Root) \<noteq> None"
  shows "sv39_walk (mem (mach s)) (pt_base s ! nat p) va = (if leaf_pte s T p va AND PTE_V = 0 then None else Some (leaf_pte s T p va))"
proof -
  note d = pt_repD [OF r]
  let ?a = "VA_GET_VPN va 2" and ?b = "VA_GET_VPN va 1" and ?m = "mem (mach s)"
  obtain i where i: "T (p, Root) = Some i" "i < 256" using p(3) d(4) by blast
  have root: "pt_base s ! nat p = paging_read i" using d(7) [OF p(1,2)] i by simp
  have e2: "load64 ?m (paging_read i + 8 * word_of_nat ?a) = link (T (p, Mid ?a))"
    using load64_entry [OF i(2) vpn_less] d(9) [OF i(1) vpn_less] by simp
  show ?thesis
  proof (cases "T (p, Mid ?a)")
    case None
    then have "T (p, Leaf ?a ?b) = None" using d(8) [of p "Leaf ?a ?b"] by (metis child.simps(2) child_inj node.distinct(3))
    then show ?thesis using None e2 by (simp add: sv39_walk_def root leaf_pte_def)
  next
    case (Some j)
    have j: "j < 256" by (rule d(4) [OF Some])
    have e1: "load64 ?m (paging_read j + 8 * word_of_nat ?b) = link (T (p, Leaf ?a ?b))"
      using load64_entry [OF j vpn_less] d(9) [OF Some vpn_less] by simp
    have t1: "PTE_GET_PA (link (T (p, Mid ?a))) = paging_read j" "link (T (p, Mid ?a)) AND PTE_V \<noteq> 0"
      using link_address [OF j] unfolding Some link_valid by simp_all
    show ?thesis
    proof (cases "T (p, Leaf ?a ?b)")
      case None
      then show ?thesis using e2 e1 t1 by (simp add: sv39_walk_def root leaf_pte_def)
    next
      case (Some k)
      have k: "k < 256" by (rule d(4) [OF Some])
      have t0: "PTE_GET_PA (link (T (p, Leaf ?a ?b))) = paging_read k" "link (T (p, Leaf ?a ?b)) AND PTE_V \<noteq> 0"
        using link_address [OF k] unfolding Some link_valid by simp_all
      have "leaf_pte s T p va = entry ?m k (VA_GET_VPN va 0)" using Some by (simp add: leaf_pte_def)
      then show ?thesis
        unfolding sv39_walk_def Let_def root e2 t1(1) e1 t0(1) load64_entry [OF k vpn_less] using t1(2) t0(2) by simp
    qed
  qed
qed

section \<open>Growing the tree\<close>

lemma new_table_ok:
  assumes r: "pt_rep s T" and fr: "0 < free_frames (mach s)"
  obtains i s' where "new_table p s = Inr (paging_read i, s')" "i < 256" "\<not> fuse (table (mach s) ! i)"
    "\<forall>j < 256. \<forall>u < 512. entry (mem (mach s')) j u = (if j = i then 0 else entry (mem (mach s)) j u)"
    "length (table (mach s')) = 256" "\<forall>j < 256. fuse (table (mach s') ! j) \<longleftrightarrow> fuse (table (mach s) ! j) \<or> j = i"
    "pt_base s' = pt_base s" "satp s' = satp s" "pt_curr s' = pt_curr s" "Suc (free_frames (mach s')) = free_frames (mach s)"
proof -
  note d = pt_repD [OF r]
  have "\<exists>i \<in> set [0..<256]. \<not> fuse (table (mach s) ! i)" using fr by (auto simp: free_frames_def filter_empty_conv)
  then obtain i where f: "find (\<lambda>i. \<not> fuse (table (mach s) ! i)) [0..<256] = Some i"
    by (cases "find (\<lambda>i. \<not> fuse (table (mach s) ! i)) [0..<256]") (auto simp: find_None_iff)
  then have i: "i < 256" "\<not> fuse (table (mach s) ! i)" by (auto simp: find_Some_iff)
  define m' where "m' = (mach s)\<lparr>table := (table (mach s))[i := (table (mach s) ! i)\<lparr>fuse := True, fpid := p\<rparr>],
    mem := poke (mem (mach s)) (paging_read i) (replicate PAGE_SIZE 0)\<rparr>"
  have n: "new_table p s = Inr (paging_read i, s\<lparr>mach := m'\<rparr>)"
    using f i d(1) by (simp add: new_table_def mmu_alloc_def NFRAMES_value m'_def)
  have fu: "fuse (table m' ! j) \<longleftrightarrow> fuse (table (mach s) ! j) \<or> j = i" if "j < 256" for j
    using d(1) i that by (simp add: m'_def nth_list_update)
  have "{j \<in> {..<256}. \<not> fuse (table (mach s) ! j)} = insert i {j \<in> {..<256}. \<not> fuse (table m' ! j)}"
    using i fu by auto
  then have "Suc (free_frames m') = free_frames (mach s)" unfolding free_frames_card using fu [OF i(1)] by simp
  then show thesis
    using n i fu d(1) entry_clear [OF i(1)] by (intro that [of i "s\<lparr>mach := m'\<rparr>"]) (simp_all add: m'_def)
qed

text \<open>What an operation on the tables of \<open>p\<close> keeps: every leaf entry, and all but \<open>k\<close> of the free frames.\<close>

definition grown :: "vm \<Rightarrow> (int \<times> node \<rightharpoonup> nat) \<Rightarrow> vm \<Rightarrow> (int \<times> node \<rightharpoonup> nat) \<Rightarrow> nat \<Rightarrow> bool" where
  "grown s T s' T' k \<longleftrightarrow> pt_rep s' T' \<and> (\<forall>x. T x \<noteq> None \<longrightarrow> T' x = T x) \<and> (\<forall>q va. leaf_pte s' T' q va = leaf_pte s T q va) \<and>
     satp s' = satp s \<and> pt_curr s' = pt_curr s \<and> free_frames (mach s) \<le> free_frames (mach s') + k"

lemma grown_refl: "pt_rep s T \<Longrightarrow> grown s T s T k"
  by (simp add: grown_def)

lemma grown_trans: "grown s T s1 T1 k \<Longrightarrow> grown s1 T1 s2 T2 l \<Longrightarrow> grown s T s2 T2 (k + l)"
  unfolding grown_def by (auto simp: add.assoc)

text \<open>
  A new node \<open>(p, c)\<close> in frame \<open>j\<close>, below entry \<open>v\<close> of node \<open>(p, n)\<close> in frame \<open>i\<close>: the frame was free and is cleared, and the entry is
  its link.
\<close>

definition node_added :: "vm \<Rightarrow> (int \<times> node \<rightharpoonup> nat) \<Rightarrow> int \<Rightarrow> node \<Rightarrow> nat \<Rightarrow> node \<Rightarrow> nat \<Rightarrow> nat \<Rightarrow> vm \<Rightarrow> bool" where
  "node_added s T p n v c i j s2 \<longleftrightarrow> pt_rep s T \<and> T (p, n) = Some i \<and> child n v = Some c \<and> v < 512 \<and> T (p, c) = None \<and>
     j < 256 \<and> \<not> fuse (table (mach s) ! j) \<and> length (table (mach s2)) = 256 \<and> pt_base s2 = pt_base s \<and>
     (\<forall>k < 256. fuse (table (mach s2) ! k) \<longleftrightarrow> fuse (table (mach s) ! k) \<or> k = j) \<and>
     (\<forall>k < 256. \<forall>u < 512. entry (mem (mach s2)) k u =
        (if k = i \<and> u = v then link (Some j) else if k = j then 0 else entry (mem (mach s)) k u))"

lemma node_addedD:
  assumes "node_added s T p n v c i j s2"
  shows "pt_rep s T" "T (p, n) = Some i" "child n v = Some c" "v < 512" "T (p, c) = None" "j < 256"
    "length (table (mach s2)) = 256" "pt_base s2 = pt_base s"
    "k < 256 \<Longrightarrow> fuse (table (mach s2) ! k) \<longleftrightarrow> fuse (table (mach s) ! k) \<or> k = j"
    "k < 256 \<Longrightarrow> u < 512 \<Longrightarrow> entry (mem (mach s2)) k u =
      (if k = i \<and> u = v then link (Some j) else if k = j then 0 else entry (mem (mach s)) k u)"
  using assms by (simp_all add: node_added_def)

lemma node_added_fresh:
  assumes "node_added s T p n v c i j s2"
  shows "T x = Some k \<Longrightarrow> k \<noteq> j" "c \<noteq> Root"
proof -
  show "k \<noteq> j" if "T x = Some k" using assms pt_repD(5) [OF node_addedD(1) [OF assms], of x k] that by (auto simp: node_added_def)
  show "c \<noteq> Root" using node_addedD(3) [OF assms] by (cases n) auto
qed

lemma node_added_entries:
  assumes add: "node_added s T p n v c i j s2" and x: "(T((p, c) \<mapsto> j)) (q, n') = Some k" "u < 512" "child n' u = Some c'"
  shows "entry (mem (mach s2)) k u = link ((T((p, c) \<mapsto> j)) (q, c'))"
proof -
  note ad = node_addedD [OF add]
  note d = pt_repD [OF ad(1)] and i = ad(2) and c = ad(3,4) and None = ad(5) and j = ad(6) and e2 = ad(10) and fresh = node_added_fresh(1) [OF add]
  have ib: "i < 256" by (rule d(4) [OF i])
  define T' where "T' = T((p, c) \<mapsto> j)"
  note x = x [folded T'_def]
  have "entry (mem (mach s2)) k u = link (T' (q, c'))"
  proof (cases "(q, n') = (p, c)")
    case True
    then have k: "k = j" "q = p" "n' = c" using x(1) by (simp_all add: T'_def)
    have "T (p, c') = None"
      using d(8) [of p c'] x(3) k(3) None child_inj by (metis child.elims node.distinct(1,3) option.distinct(1) option.inject)
    moreover have "c' \<noteq> c" using x(3) k(3) by (cases c) auto
    ultimately show ?thesis using e2 [OF j x(2)] fresh [OF i] k by (simp add: T'_def)
  next
    case False
    then have t: "T (q, n') = Some k" using x(1) by (auto simp: T'_def split: if_split_asm)
    show ?thesis
    proof (cases "k = i")
      case True
      then have "(q, n') = (p, n)" using d(3) [OF t] i by blast
      then have "c' = c \<longleftrightarrow> u = v" using x(3) c(1) child_inj [of n v c n u] by auto
      then show ?thesis
        using e2 [OF ib x(2)] True \<open>(q, n') = (p, n)\<close> d(9) [OF t x(2,3)] fresh [OF i] by (auto simp: T'_def)
    next
      case ki: False
      have "(q, c') \<noteq> (p, c)"
      proof
        assume "(q, c') = (p, c)"
        then have "n' = n" "q = p" using child_inj [OF c(1)] x(3) by auto
        then show False using t i ki by simp
      qed
      then show ?thesis using e2 [OF d(4) [OF t] x(2)] ki fresh [OF t] d(9) [OF t x(2,3)] by (auto simp: T'_def)
    qed
  qed
  then show ?thesis unfolding T'_def .
qed

lemma node_added_leaf:
  assumes add: "node_added s T p n v c i j s2"
  shows "leaf_pte s2 (T((p, c) \<mapsto> j)) q va = leaf_pte s T q va"
proof -
  note ad = node_addedD [OF add]
  note d = pt_repD [OF ad(1)] and i = ad(2) and c = ad(3,4) and None = ad(5) and j = ad(6) and e2 = ad(10) and fresh = node_added_fresh(1) [OF add]
  have ib: "i < 256" by (rule d(4) [OF i])
  define T' where "T' = T((p, c) \<mapsto> j)"
  have "leaf_pte s2 T' q va = leaf_pte s T q va"
  proof (cases "(q, Leaf (VA_GET_VPN va 2) (VA_GET_VPN va 1)) = (p, c)")
    case True
    then have "T' (q, Leaf (VA_GET_VPN va 2) (VA_GET_VPN va 1)) = Some j" "T (q, Leaf (VA_GET_VPN va 2) (VA_GET_VPN va 1)) = None"
      using None by (simp_all add: T'_def)
    then show ?thesis using e2 [OF j vpn_less] fresh [OF i] by (simp add: leaf_pte_def)
  next
    case False
    then have t: "T' (q, Leaf (VA_GET_VPN va 2) (VA_GET_VPN va 1)) = T (q, Leaf (VA_GET_VPN va 2) (VA_GET_VPN va 1))" by (auto simp: T'_def)
    show ?thesis
    proof (cases "T (q, Leaf (VA_GET_VPN va 2) (VA_GET_VPN va 1))")
      case (Some k)
      have "k \<noteq> i"
      proof
        assume "k = i"
        then have "(q, Leaf (VA_GET_VPN va 2) (VA_GET_VPN va 1)) = (p, n)" using d(3) [OF Some] i by blast
        then have "child n v = None" by auto
        then show False using c(1) by simp
      qed
      then show ?thesis using t Some e2 [OF d(4) [OF Some] vpn_less] fresh [OF Some] by (simp add: leaf_pte_def)
    qed (use t in \<open>simp add: leaf_pte_def\<close>)
  qed
  then show ?thesis unfolding T'_def .
qed

lemma node_added_rep:
  assumes add: "node_added s T p n v c i j s2"
  shows "pt_rep s2 (T((p, c) \<mapsto> j))"
proof -
  note ad = node_addedD [OF add]
  note d = pt_repD [OF ad(1)] and i = ad(2) and c = ad(3,4) and None = ad(5) and j = ad(6) and e2 = ad(10) and fresh = node_added_fresh(1) [OF add]
  have ib: "i < 256" by (rule d(4) [OF i])
  define T' where "T' = T((p, c) \<mapsto> j)"
  have pr: "0 \<le> p \<and> p < 32" using d(6) [of p n] i by simp
  show ?thesis
    unfolding T'_def [symmetric] pt_rep_def
  proof (intro conjI allI impI)
    show "length (table (mach s2)) = 256" "length (pt_base s2) = 32" using ad(7,8) d(2) by simp_all
    show "inj_on T' (dom T')" unfolding inj_on_def T'_def using d(3) fresh by (auto split: if_split_asm) (metis option.distinct(1))+
  next
    fix x k assume "T' x = Some k"
    then show "k < 256" "fuse (table (mach s2) ! k)"
      using d(4,5) [of x k] j ad(9) [of k] by (auto simp: T'_def split: if_split_asm)
  next
    fix q m assume "T' (q, m) \<noteq> None"
    then show "0 \<le> q" "q < 32" using d(6) [of q m] pr by (auto simp: T'_def split: if_split_asm)
  next
    fix q :: int assume "0 \<le> q" "q < 32"
    then show "pt_base s2 ! nat q = (case T' (q, Root) of None \<Rightarrow> 0 | Some i \<Rightarrow> paging_read i)"
      using d(7) [of q] node_added_fresh(2) [OF add] ad(8) by (simp add: T'_def)
  next
    fix q m assume "T' (q, m) \<noteq> None"
    then have "(q, m) = (p, c) \<or> T (q, m) \<noteq> None" by (auto simp: T'_def split: if_split_asm)
    moreover have "T' x \<noteq> None" if "T x \<noteq> None" for x using that by (simp add: T'_def)
    ultimately show "m = Root \<or> (\<exists>n v. v < 512 \<and> child n v = Some m \<and> T' (q, n) \<noteq> None)"
      using d(8) [of q m] c i by (metis option.distinct(1) prod.inject)
  next
    fix q m k u c' assume "T' (q, m) = Some k" "u < 512" "child m u = Some c'"
    then show "entry (mem (mach s2)) k u = link (T' (q, c'))" unfolding T'_def by (rule node_added_entries [OF add])
  qed
qed

lemma walk_step_ok:
  assumes r: "pt_rep s T" and i: "T (p, n) = Some i" and c: "child n v = Some c" "v < 512" and fr: "0 < free_frames (mach s)"
  shows "\<exists>s' T' j. walk_step p (paging_read i) v s = Inr (paging_read j, s') \<and> T' (p, c) = Some j \<and> grown s T s' T' 1"
proof (cases "T (p, c)")
  case (Some j)
  note d = pt_repD [OF r]
  have "load64 (mem (mach s)) (paging_read i + 8 * word_of_nat v) = link (Some j)"
    using load64_entry [OF d(4) [OF i] c(2)] d(9) [OF i c(2,1)] Some by simp
  then have "walk_step p (paging_read i) v s = Inr (paging_read j, s)"
    using link_address [OF d(4) [OF Some]] link_valid [of "Some j"] by (simp add: walk_step_def)
  then show ?thesis using grown_refl [OF r] Some by blast
next
  case None
  note d = pt_repD [OF r]
  obtain j s1 where n: "new_table p s = Inr (paging_read j, s1)" and j: "j < 256" "\<not> fuse (table (mach s) ! j)"
    and e1: "\<forall>k < 256. \<forall>u < 512. entry (mem (mach s1)) k u = (if k = j then 0 else entry (mem (mach s)) k u)"
    and t1: "length (table (mach s1)) = 256" "\<forall>k < 256. fuse (table (mach s1) ! k) \<longleftrightarrow> fuse (table (mach s) ! k) \<or> k = j"
    and b1: "pt_base s1 = pt_base s" "satp s1 = satp s" "pt_curr s1 = pt_curr s" "Suc (free_frames (mach s1)) = free_frames (mach s)"
    by (rule new_table_ok [OF r fr])
  define s2 where "s2 = vm_store (paging_read i + 8 * word_of_nat v) (link (Some j)) s1"
  have "load64 (mem (mach s)) (paging_read i + 8 * word_of_nat v) = 0"
    using load64_entry [OF d(4) [OF i] c(2)] d(9) [OF i c(2,1)] None by simp
  then have w: "walk_step p (paging_read i) v s = Inr (paging_read j, s2)" using n by (simp add: walk_step_def s2_def)
  have s2: "table (mach s2) = table (mach s1)" "pt_base s2 = pt_base s" "satp s2 = satp s" "pt_curr s2 = pt_curr s"
    "free_frames (mach s2) = free_frames (mach s1)"
    using b1 by (simp_all add: s2_def vm_store_def free_frames_def)
  have add: "node_added s T p n v c i j s2"
    unfolding node_added_def using r i c None j t1 s2(1,2) entry_store [OF d(4) [OF i] c(2)] e1
    by (simp add: s2_def vm_store_def)
  have "grown s T s2 (T((p, c) \<mapsto> j)) 1"
    using node_added_rep [OF add] node_added_leaf [OF add] s2 b1(4) None by (auto simp: grown_def)
  then show ?thesis using w by (intro exI [of _ s2] exI [of _ "T((p, c) \<mapsto> j)"] exI [of _ j]) simp
qed

text \<open>A new root table.\<close>

lemma paging_read_nonzero: "i < 256 \<Longrightarrow> paging_read i \<noteq> 0"
proof -
  assume "i < 256"
  then have "frame_pn i * 4096 < 2 ^ 64" by (simp add: frame_pn_def)
  then have "unat (paging_read i) = frame_pn i * 4096" unfolding paging_read_eq unat_of_nat by simp
  then show ?thesis by (auto simp: frame_pn_def)
qed

lemma root_added_rep:
  assumes r: "pt_rep s T" and p: "0 \<le> p" "p < 32" "T (p, Root) = None" and i: "i < 256" "\<not> fuse (table (mach s) ! i)"
    and e: "\<forall>k < 256. \<forall>u < 512. entry (mem (mach s2)) k u = (if k = i then 0 else entry (mem (mach s)) k u)"
    and t: "length (table (mach s2)) = 256" "\<forall>k < 256. fuse (table (mach s2) ! k) \<longleftrightarrow> fuse (table (mach s) ! k) \<or> k = i"
    and b: "pt_base s2 = (pt_base s)[nat p := paging_read i]"
  shows "pt_rep s2 (T((p, Root) \<mapsto> i))" "leaf_pte s2 (T((p, Root) \<mapsto> i)) q va = leaf_pte s T q va"
proof -
  note d = pt_repD [OF r]
  define T' where "T' = T((p, Root) \<mapsto> i)"
  have fresh: "k \<noteq> i" if "T x = Some k" for x k using d(5) [OF that] i(2) by blast
  have old: "T x = Some k" if "T' x = Some k" "x \<noteq> (p, Root)" for x k using that by (simp add: T'_def)
  have keep: "T' x \<noteq> None" if "T x \<noteq> None" for x using that by (simp add: T'_def)
  have nochild: "T (p, Mid v) = None" for v using d(8) [of p "Mid v"] p(3) by (metis child.simps(1) child_inj node.distinct(1))
  show "pt_rep s2 (T((p, Root) \<mapsto> i))"
    unfolding T'_def [symmetric] pt_rep_def
  proof (intro conjI allI impI)
    show "length (table (mach s2)) = 256" "length (pt_base s2) = 32" using t b d(2) by simp_all
    show "inj_on T' (dom T')" unfolding inj_on_def T'_def using d(3) fresh by (auto split: if_split_asm) (metis option.distinct(1))+
  next
    fix x k assume "T' x = Some k"
    then show "k < 256" "fuse (table (mach s2) ! k)"
      using d(4,5) [of x k] i t(2) by (auto simp: T'_def split: if_split_asm)
  next
    fix q m assume "T' (q, m) \<noteq> None"
    then show "0 \<le> q" "q < 32" using d(6) [of q m] p by (auto simp: T'_def split: if_split_asm)
  next
    fix q :: int assume q: "0 \<le> q" "q < 32"
    then have "nat p = nat q \<longleftrightarrow> p = q" using p by auto
    then show "pt_base s2 ! nat q = (case T' (q, Root) of None \<Rightarrow> 0 | Some i \<Rightarrow> paging_read i)"
      using d(7) [OF q] d(2) q p by (simp add: T'_def b nth_list_update)
  next
    fix q m assume "T' (q, m) \<noteq> None"
    then have "(q, m) = (p, Root) \<or> T (q, m) \<noteq> None" by (auto simp: T'_def split: if_split_asm)
    then show "m = Root \<or> (\<exists>n v. v < 512 \<and> child n v = Some m \<and> T' (q, n) \<noteq> None)"
      using d(8) [of q m] keep by blast
  next
    fix q m k u c' assume x: "T' (q, m) = Some k" "u < 512" "child m u = Some c'"
    have c': "c' \<noteq> Root" using x(3) by (cases m) auto
    show "entry (mem (mach s2)) k u = link (T' (q, c'))"
    proof (cases "(q, m) = (p, Root)")
      case True
      then show ?thesis using x e i nochild [of u] c' by (auto simp: T'_def)
    next
      case False
      then show ?thesis using old [OF x(1)] d(4) [of "(q, m)" k] d(9) [of q m k u c'] fresh [of "(q, m)" k] e x c' by (auto simp: T'_def)
    qed
  qed
  show "leaf_pte s2 (T((p, Root) \<mapsto> i)) q va = leaf_pte s T q va"
    using e vpn_less d(4) fresh by (auto simp: leaf_pte_def split: option.splits)
qed

lemma walk_root_ok:
  assumes r: "pt_rep s T" and p: "0 \<le> p" "p < 32" and fr: "0 < free_frames (mach s)"
  shows "\<exists>s' T' i. walk_root p s = Inr (paging_read i, s') \<and> T' (p, Root) = Some i \<and> grown s T s' T' 1"
proof (cases "T (p, Root)")
  case (Some i)
  have "pt_base s ! nat p = paging_read i" using pt_repD(7) [OF r p] Some by simp
  moreover have "paging_read i \<noteq> 0" by (rule paging_read_nonzero [OF pt_repD(4) [OF r Some]])
  ultimately have "walk_root p s = Inr (paging_read i, s)" by (simp add: walk_root_def)
  then show ?thesis using Some grown_refl [OF r] by blast
next
  case None
  obtain i s1 where n: "new_table p s = Inr (paging_read i, s1)" and i: "i < 256" "\<not> fuse (table (mach s) ! i)"
    and e1: "\<forall>k < 256. \<forall>u < 512. entry (mem (mach s1)) k u = (if k = i then 0 else entry (mem (mach s)) k u)"
    and t1: "length (table (mach s1)) = 256" "\<forall>k < 256. fuse (table (mach s1) ! k) \<longleftrightarrow> fuse (table (mach s) ! k) \<or> k = i"
    and b1: "pt_base s1 = pt_base s" "satp s1 = satp s" "pt_curr s1 = pt_curr s" "Suc (free_frames (mach s1)) = free_frames (mach s)"
    by (rule new_table_ok [OF r fr])
  define s2 where "s2 = s1\<lparr>pt_base := (pt_base s1)[nat p := paging_read i]\<rparr>"
  have s2: "mach s2 = mach s1" "pt_base s2 = (pt_base s)[nat p := paging_read i]" by (simp_all add: s2_def b1)
  have w: "walk_root p s = Inr (paging_read i, s2)" using pt_repD(7) [OF r p] None n by (simp add: walk_root_def s2_def)
  note ra = root_added_rep [OF r p None i e1 [folded s2(1)] t1 [folded s2(1)] s2(2)]
  have "grown s T s2 (T((p, Root) \<mapsto> i)) 1" using ra b1 None by (auto simp: grown_def s2_def)
  then show ?thesis using w by (intro exI [of _ s2] exI [of _ "T((p, Root) \<mapsto> i)"] exI [of _ i]) simp
qed

lemma walk_page_tables_ok:
  assumes r: "pt_rep s T" and p: "0 \<le> p" "p < 32" and fr: "3 \<le> free_frames (mach s)" and va: "unat va mod 4096 = 0"
  shows "\<exists>s' T' k. walk_page_tables p va s = Inr (paging_read k, s') \<and> T' (p, Leaf (VA_GET_VPN va 2) (VA_GET_VPN va 1)) = Some k \<and> grown s T s' T' 3"
proof -
  have lb: "length (pt_base s) = 32" by (rule pt_repD(2) [OF r])
  obtain s1 T1 i where w1: "walk_root p s = Inr (paging_read i, s1)" "T1 (p, Root) = Some i" "grown s T s1 T1 1"
    using walk_root_ok [OF r p] fr by auto
  then have r1: "pt_rep s1 T1" "0 < free_frames (mach s1)" "2 \<le> free_frames (mach s1)" using fr by (auto simp: grown_def)
  obtain s2 T2 j where w2: "walk_step p (paging_read i) (VA_GET_VPN va 2) s1 = Inr (paging_read j, s2)"
    "T2 (p, Mid (VA_GET_VPN va 2)) = Some j" "grown s1 T1 s2 T2 1"
    using walk_step_ok [OF r1(1) w1(2) child.simps(1) vpn_less r1(2)] by blast
  then have r2: "pt_rep s2 T2" "0 < free_frames (mach s2)" using r1(3) by (auto simp: grown_def)
  obtain s3 T3 k where w3: "walk_step p (paging_read j) (VA_GET_VPN va 1) s2 = Inr (paging_read k, s3)"
    "T3 (p, Leaf (VA_GET_VPN va 2) (VA_GET_VPN va 1)) = Some k" "grown s2 T2 s3 T3 1"
    using walk_step_ok [OF r2(1) w2(2) child.simps(2) vpn_less r2(2)] by blast
  have "grown s T s3 T3 3" using grown_trans [OF grown_trans [OF w1(3) w2(3)] w3(3)] by (simp add: numeral_3_eq_3)
  moreover have "walk_page_tables p va s = Inr (paging_read k, s3)"
    using w1(1) w2(1) w3(1) p va lb by (simp add: walk_page_tables_def layout_simps)
  ultimately show ?thesis using w3(2) by blast
qed

section \<open>Pages\<close>

text \<open>The number of the page of an address, among the \<open>2 ^ 27\<close> pages of a 39-bit address space.\<close>

definition va_page :: "u64 \<Rightarrow> nat" where
  "va_page va = unat va div 4096 mod 2 ^ 27"

lemma va_page_parts: "va_page va = 0x40000 * VA_GET_VPN va 2 + 512 * VA_GET_VPN va 1 + VA_GET_VPN va 0"
proof -
  define x where "x = unat va div 4096"
  have v: "VA_GET_VPN va 0 = x mod 512" "VA_GET_VPN va 1 = x div 512 mod 512" "VA_GET_VPN va 2 = x div 512 div 512 mod 512"
    by (simp_all add: vpn_eq x_def div_mult2_eq [symmetric])
  have "x mod (512 * (512 * 512)) = 512 * (x div 512 mod (512 * 512)) + x mod 512" by (rule mod_mult2_eq)
  also have "x div 512 mod (512 * 512) = 512 * (x div 512 div 512 mod 512) + x div 512 mod 512" by (rule mod_mult2_eq)
  finally show ?thesis unfolding va_page_def x_def [symmetric] v by simp
qed

lemma va_page_of_nat: "a < 2 ^ 39 \<Longrightarrow> va_page (word_of_nat a) = a div 4096"
  by (simp add: va_page_def unat_of_nat div_less_iff_less_mult)

lemma split_512: "d < 512 \<Longrightarrow> (512 * c + d) div 512 = c" "d < 512 \<Longrightarrow> (512 * c + d) mod 512 = d" for c d :: nat
  by simp_all

lemma vpn_div: "VA_GET_VPN va 1 = va_page va div 512 mod 512" "VA_GET_VPN va 0 = va_page va mod 512" "VA_GET_VPN va 2 = va_page va div 0x40000"
proof -
  let ?a = "VA_GET_VPN va 2" and ?b = "VA_GET_VPN va 1" and ?c = "VA_GET_VPN va 0"
  have e: "va_page va = 512 * (512 * ?a + ?b) + ?c" unfolding va_page_parts by simp
  have d: "va_page va div 512 = 512 * ?a + ?b" unfolding e by (rule split_512(1) [OF vpn_less])
  show "?c = va_page va mod 512" unfolding e by (rule split_512(2) [OF vpn_less, symmetric])
  show "?b = va_page va div 512 mod 512" unfolding d by (rule split_512(2) [OF vpn_less, symmetric])
  have "va_page va div 512 div 512 = ?a" unfolding d by (rule split_512(1) [OF vpn_less])
  then show "?a = va_page va div 0x40000" by (simp add: div_mult2_eq [symmetric])
qed

lemma same_page:
  "VA_GET_VPN va 2 = VA_GET_VPN a 2 \<and> VA_GET_VPN va 1 = VA_GET_VPN a 1 \<and> VA_GET_VPN va 0 = VA_GET_VPN a 0 \<longleftrightarrow> va_page va = va_page a"
  using va_page_parts [of va] va_page_parts [of a] vpn_div [of va] vpn_div [of a] by auto

section \<open>Leaf entries\<close>

lemma leaf_store:
  assumes r: "pt_rep s T" and k: "T (p, Leaf a b) = Some k" and v: "v < 512"
    and s'_def: "s' = vm_store (paging_read k + 8 * word_of_nat v) w s"
  shows "pt_rep s' T" and "leaf_pte s' T q va =
      (if q = p \<and> VA_GET_VPN va 2 = a \<and> VA_GET_VPN va 1 = b \<and> VA_GET_VPN va 0 = v then w else leaf_pte s T q va)"
    and "satp s' = satp s" "pt_curr s' = pt_curr s" "pt_base s' = pt_base s" "free_frames (mach s') = free_frames (mach s)"
proof -
  note d = pt_repD [OF r]
  have kb: "k < 256" by (rule d(4) [OF k])
  have e: "entry (mem (mach s')) j u = (if j = k \<and> u = v then w else entry (mem (mach s)) j u)" if "j < 256" "u < 512" for j u
    using entry_store [OF kb v that] by (simp add: s'_def vm_store_def)
  have st: "table (mach s') = table (mach s)" "pt_base s' = pt_base s" "satp s' = satp s" "pt_curr s' = pt_curr s"
    by (simp_all add: s'_def vm_store_def)
  show "satp s' = satp s" "pt_curr s' = pt_curr s" "pt_base s' = pt_base s" "free_frames (mach s') = free_frames (mach s)"
    using st by (simp_all add: free_frames_def)
  have "entry (mem (mach s')) i u = link (T (q, c))" if x: "T (q, n) = Some i" "u < 512" "child n u = Some c" for q n i u c
  proof -
    have "i \<noteq> k"
    proof
      assume "i = k"
      then have "n = Leaf a b" using d(3) [OF x(1)] k by blast
      then show False using x(3) by simp
    qed
    then show ?thesis using e [OF d(4) [OF x(1)] x(2)] d(9) [OF x] by simp
  qed
  then show "pt_rep s' T" using r unfolding pt_rep_def st by blast
  show "leaf_pte s' T q va =
      (if q = p \<and> VA_GET_VPN va 2 = a \<and> VA_GET_VPN va 1 = b \<and> VA_GET_VPN va 0 = v then w else leaf_pte s T q va)"
  proof (cases "T (q, Leaf (VA_GET_VPN va 2) (VA_GET_VPN va 1))")
    case (Some j)
    have "j = k \<longleftrightarrow> q = p \<and> VA_GET_VPN va 2 = a \<and> VA_GET_VPN va 1 = b" using Some k d(3) [OF Some, of "(p, Leaf a b)"] by auto
    then show ?thesis using Some e [OF d(4) [OF Some] vpn_less] by (auto simp: leaf_pte_def)
  qed (use k in \<open>auto simp: leaf_pte_def\<close>)
qed

section \<open>Identity mappings\<close>

definition identity_entry :: "u64 \<Rightarrow> nat \<Rightarrow> u64" where
  "identity_entry flag q = PA_TO_PTE (word_of_nat (q * 4096)) OR PTE_A OR PTE_D OR flag"

text \<open>What an operation on the tables of \<open>p\<close> does to the leaf entries: those that \<open>f\<close> gives are set, the others kept.\<close>

definition updated :: "vm \<Rightarrow> (int \<times> node \<rightharpoonup> nat) \<Rightarrow> int \<Rightarrow> (nat \<rightharpoonup> u64) \<Rightarrow> nat \<Rightarrow> vm \<Rightarrow> (int \<times> node \<rightharpoonup> nat) \<Rightarrow> bool" where
  "updated s T p f k s' T' \<longleftrightarrow> pt_rep s' T' \<and> (\<forall>x. T x \<noteq> None \<longrightarrow> T' x = T x) \<and>
     (\<forall>q va. leaf_pte s' T' q va = (case f (va_page va) of Some w \<Rightarrow> if q = p then w else leaf_pte s T q va | None \<Rightarrow> leaf_pte s T q va)) \<and>
     satp s' = satp s \<and> pt_curr s' = pt_curr s \<and> free_frames (mach s) \<le> free_frames (mach s') + k"

lemma updated_trans:
  assumes "updated s T p f k s1 T1" "updated s1 T1 p g l s2 T2"
  shows "updated s T p (f ++ g) (k + l) s2 T2"
  using assms unfolding updated_def by (auto simp: map_add_def split: option.splits)

lemma updated_refl: "pt_rep s T \<Longrightarrow> updated s T p Map.empty k s T"
  by (simp add: updated_def)

lemma updated_grown: "grown s T s' T' k \<Longrightarrow> updated s T p Map.empty k s' T'"
  by (simp add: updated_def grown_def)

lemma updated_store:
  assumes "pt_rep s T" "T (p, Leaf (VA_GET_VPN a 2) (VA_GET_VPN a 1)) = Some k"
  shows "updated s T p [va_page a \<mapsto> w] 0 (vm_store (paging_read k + 8 * word_of_nat (VA_GET_VPN a 0)) w s) T"
  using leaf_store [OF assms vpn_less refl] same_page [of _ a] assms(1) unfolding updated_def by (auto split: option.splits)

text \<open>The pages \<open>a, \<dots>, a + n - 1\<close> mapped to themselves.\<close>

definition identity_map :: "u64 \<Rightarrow> nat \<Rightarrow> nat \<Rightarrow> (nat \<rightharpoonup> u64)" where
  "identity_map flag a n = (\<lambda>q. if a \<le> q \<and> q < a + n then Some (identity_entry flag q) else None)"

definition region_ok :: "nat \<times> nat \<Rightarrow> bool" where
  "region_ok r \<longleftrightarrow> (case r of (a, n) \<Rightarrow> a mod 4096 = 0 \<and> a < 2 ^ 39 \<and> a div 4096 mod 512 + n \<le> 512)"

lemma region_page:
  assumes "region_ok (a, n)" "i < n"
  shows "VA_GET_VPN (word_of_nat (a + i * 4096)) 2 = VA_GET_VPN (word_of_nat a) 2"
    "VA_GET_VPN (word_of_nat (a + i * 4096)) 1 = VA_GET_VPN (word_of_nat a) 1"
    "VA_GET_VPN (word_of_nat (a + i * 4096)) 0 = VA_GET_VPN (word_of_nat a) 0 + i"
    "va_page (word_of_nat (a + i * 4096)) = a div 4096 + i" "VA_GET_VPN (word_of_nat a) 0 + i < 512"
proof -
  define q where "q = a div 4096"
  have a: "a = q * 4096" "q < 2 ^ 27" "q mod 512 + i < 512" using assms by (auto simp: region_ok_def q_def div_less_iff_less_mult)
  have d: "(q + i) div 512 = q div 512" "(q + i) mod 512 = q mod 512 + i"
  proof -
    have e: "512 * (q div 512) + (q mod 512 + i) = q + i" by simp
    show "(q + i) div 512 = q div 512" "(q + i) mod 512 = q mod 512 + i"
      using split_512 [OF a(3), of "q div 512"] unfolding e by simp_all
  qed
  have "(q + i) div 512 < 2 ^ 18" unfolding d using a(2) by (simp add: div_less_iff_less_mult)
  then have qi: "q + i < 2 ^ 27" by (simp add: div_less_iff_less_mult)
  have p0: "va_page (word_of_nat a) = q" using va_page_of_nat [of a] assms(1) by (simp add: region_ok_def q_def)
  have "va_page (word_of_nat ((q + i) * 4096)) = q + i" using va_page_of_nat [of "(q + i) * 4096"] qi by simp
  moreover have "a + i * 4096 = (q + i) * 4096" by (simp add: a(1))
  ultimately have p1: "va_page (word_of_nat (a + i * 4096)) = q + i" by (simp only:)
  show "va_page (word_of_nat (a + i * 4096)) = a div 4096 + i" unfolding p1 q_def ..
  have "(q + i) div 0x40000 = q div 0x40000"
    using d(1) div_mult2_eq [of "q + i" 512 512] div_mult2_eq [of q 512 512] by simp
  then show "VA_GET_VPN (word_of_nat (a + i * 4096)) 2 = VA_GET_VPN (word_of_nat a) 2"
    "VA_GET_VPN (word_of_nat (a + i * 4096)) 1 = VA_GET_VPN (word_of_nat a) 1"
    "VA_GET_VPN (word_of_nat (a + i * 4096)) 0 = VA_GET_VPN (word_of_nat a) 0 + i" "VA_GET_VPN (word_of_nat a) 0 + i < 512"
    unfolding vpn_div p1 p0 using d a(3) by simp_all
qed

lemma identity_loop_ok:
  assumes "region_ok (a, n)" "T (p, Leaf (VA_GET_VPN (word_of_nat a) 2) (VA_GET_VPN (word_of_nat a) 1)) = Some k" "pt_rep s T" "i \<le> n"
  shows "\<exists>s'. identity_loop (paging_read k) (word_of_nat a) (VA_GET_VPN (word_of_nat a) 0) flag [i..<n] s = Inr s' \<and>
    updated s T p (identity_map flag (a div 4096 + i) (n - i)) 0 s' T"
  using assms(3,4)
proof (induction "n - i" arbitrary: i s)
  case 0
  then have "identity_map flag (a div 4096 + i) (n - i) = Map.empty" by (auto simp: identity_map_def)
  then show ?case using 0 updated_refl [of s T p 0] by simp
next
  case (Suc d)
  have i: "i < n" using Suc.hyps(2) by simp
  note rp = region_page [OF assms(1) i]
  define b where "b = (word_of_nat (a + i * 4096) :: u64)"
  define s1 where "s1 = vm_store (paging_read k + 8 * word_of_nat (VA_GET_VPN b 0)) (identity_entry flag (a div 4096 + i)) s"
  have "T (p, Leaf (VA_GET_VPN b 2) (VA_GET_VPN b 1)) = Some k" using assms(2) rp unfolding b_def by simp
  from updated_store [OF Suc.prems(1) this, of "identity_entry flag (a div 4096 + i)"]
  have u1: "updated s T p [a div 4096 + i \<mapsto> identity_entry flag (a div 4096 + i)] 0 s1 T" unfolding s1_def b_def rp .
  then have "pt_rep s1 T" by (simp add: updated_def)
  moreover have "d = n - Suc i" "Suc i \<le> n" using Suc.hyps(2) by simp_all
  ultimately obtain s2 where s2: "identity_loop (paging_read k) (word_of_nat a) (VA_GET_VPN (word_of_nat a) 0) flag [Suc i..<n] s1 = Inr s2"
    "updated s1 T p (identity_map flag (a div 4096 + Suc i) (n - Suc i)) 0 s2 T"
    using Suc.hyps(1) [of "Suc i" s1] by blast
  have "[a div 4096 + i \<mapsto> identity_entry flag (a div 4096 + i)] ++ identity_map flag (a div 4096 + Suc i) (n - Suc i)
      = identity_map flag (a div 4096 + i) (n - i)"
    using i by (auto simp: map_add_def identity_map_def fun_eq_iff)
  then have u2: "updated s T p (identity_map flag (a div 4096 + i) (n - i)) 0 s2 T"
    using updated_trans [OF u1 s2(2)] by simp
  have "a div 4096 * 4096 = a" using assms(1) by (simp add: region_ok_def mod_eq_0_iff_dvd)
  then have "(a div 4096 + i) * 4096 = a + i * 4096" by (simp add: algebra_simps)
  then have "PA_TO_PTE (word_of_nat a + word_of_nat (i * PAGE_SIZE)) OR PTE_A OR PTE_D OR flag = identity_entry flag (a div 4096 + i)"
    by (simp add: identity_entry_def layout_simps)
  then have "identity_loop (paging_read k) (word_of_nat a) (VA_GET_VPN (word_of_nat a) 0) flag [i..<n] s = Inr s2"
    using s2(1) rp(5) i unfolding upt_conv_Cons [OF i] s1_def b_def rp(3) by simp
  then show ?case using u2 by blast
qed

lemma setup_identity_region_ok:
  assumes "pt_rep s T" "0 \<le> p" "p < 32" "3 \<le> free_frames (mach s)" "region_ok (a, n)"
  shows "\<exists>s' T'. setup_identity_region p (word_of_nat a) n flag s = Inr s' \<and> updated s T p (identity_map flag (a div 4096) n) 3 s' T'"
proof -
  have "unat (word_of_nat a :: u64) = a" using assms(5) by (simp add: region_ok_def unat_of_nat)
  then have "unat (word_of_nat a :: u64) mod 4096 = 0" using assms(5) by (simp add: region_ok_def)
  from walk_page_tables_ok [OF assms(1-4) this] obtain s1 T1 k where
    w: "walk_page_tables p (word_of_nat a) s = Inr (paging_read k, s1)"
      "T1 (p, Leaf (VA_GET_VPN (word_of_nat a) 2) (VA_GET_VPN (word_of_nat a) 1)) = Some k" "grown s T s1 T1 3" by blast
  then have "pt_rep s1 T1" by (simp add: grown_def)
  from identity_loop_ok [OF assms(5) w(2) this le0, of flag] obtain s2 where
    l: "identity_loop (paging_read k) (word_of_nat a) (VA_GET_VPN (word_of_nat a) 0) flag [0..<n] s1 = Inr s2"
      "updated s1 T1 p (identity_map flag (a div 4096) n) 0 s2 T1" by auto
  have "updated s T p (identity_map flag (a div 4096) n) 3 s2 T1" using updated_trans [OF updated_grown [OF w(3)] l(2)] by simp
  then show ?thesis using w(1) l(1) by (auto simp: setup_identity_region_def)
qed

text \<open>A list of regions.\<close>

fun identity_maps :: "(nat \<times> nat) list \<Rightarrow> (nat \<rightharpoonup> u64)" where
  "identity_maps [] = Map.empty"
| "identity_maps ((a, n) # rs) = identity_map OS_XWRV (a div 4096) n ++ identity_maps rs"

lemma setup_regions_ok:
  assumes "pt_rep s T" "0 \<le> p" "p < 32" "3 * length rs \<le> free_frames (mach s)" "list_all region_ok rs"
  shows "\<exists>s' T'. setup_regions p rs s = Inr s' \<and> updated s T p (identity_maps rs) (3 * length rs) s' T'"
  using assms
proof (induction rs arbitrary: s T)
  case Nil
  then show ?case using updated_refl [of s T p 0] by auto
next
  case (Cons r rs)
  obtain a n where r: "r = (a, n)" by fastforce
  have "3 \<le> free_frames (mach s)" "region_ok (a, n)" using Cons.prems r by simp_all
  from setup_identity_region_ok [OF Cons.prems(1-3) this, of OS_XWRV] obtain s1 T1 where
    s1: "setup_identity_region p (word_of_nat a) n OS_XWRV s = Inr s1" "updated s T p (identity_map OS_XWRV (a div 4096) n) 3 s1 T1" by blast
  then have "pt_rep s1 T1" "3 * length rs \<le> free_frames (mach s1)" using Cons.prems(4) by (auto simp: updated_def)
  from Cons.IH [OF this(1) Cons.prems(2,3) this(2)] Cons.prems(5) obtain s2 T2 where
    s2: "setup_regions p rs s1 = Inr s2" "updated s1 T1 p (identity_maps rs) (3 * length rs) s2 T2" by auto
  show ?case using s1(1) s2(1) updated_trans [OF s1(2) s2(2)] by (auto simp: r)
qed

end
