(* ===== verification/Page_Table_Map.thy ===== *)
theory Page_Table_Map
  imports Page_Table_Correct
begin

unbundle bit_operations_syntax

text \<open>What \<^verbatim>\<open>page_table_map\<close> does to the translation, and that it does not note the owner of a frame.\<close>

section \<open>Translation after mapping a page\<close>

lemma valid_or: "(w OR f) AND PTE_V \<noteq> 0" if "f AND PTE_V \<noteq> 0"
proof -
  have "bit f 0" using that by (simp add: PTE_V_def odd_iff_mod_2_eq_one and_one_eq bit_0)
  then have "bit ((w OR f) AND PTE_V) 0" by (simp add: PTE_V_def bit_simps)
  then show ?thesis by auto
qed

lemma flags_valid: "OS_XWRV AND PTE_V \<noteq> 0" "USER_XWRV AND PTE_V \<noteq> 0"
  by (simp_all add: OS_XWRV_def USER_XWRV_def PTE_V_def)

definition user_entry :: "nat \<Rightarrow> u64" where
  "user_entry i = PA_TO_PTE (paging_read i) OR PTE_A OR PTE_D OR USER_XWRV"

lemma entries_valid: "user_entry i AND PTE_V \<noteq> 0" "identity_entry OS_XWRV q AND PTE_V \<noteq> 0"
  using valid_or flags_valid unfolding user_entry_def identity_entry_def by metis+

lemma identity_maps_valid: "identity_maps rs q = Some w \<Longrightarrow> w AND PTE_V \<noteq> 0"
  by (induction rs rule: identity_maps.induct)
    (auto simp: map_add_def identity_map_def entries_valid split: option.splits if_split_asm)

lemma identity_regions_ok: "list_all region_ok (identity_regions p)" "length (identity_regions p) \<le> 7"
  by (auto simp: identity_regions_def region_ok_def PAGE_CNT_def layout_simps)

text \<open>What a process finds at an address; \<open>None\<close> is a page fault.\<close>

definition translate :: "vm \<Rightarrow> int \<Rightarrow> u64 \<Rightarrow> u64 option" where
  "translate s p va = sv39_walk (mem (mach s)) (pt_base s ! nat p) va"

lemma no_root_no_leaf:
  assumes "pt_rep s T" "T (p, Root) = None"
  shows "leaf_pte s T p va = 0"
proof -
  note d = pt_repD(8) [OF assms(1)]
  have "T (p, Mid a) = None" for a using d [of p "Mid a"] assms(2) by (metis child.simps(1) child_inj node.distinct(1))
  then have "T (p, Leaf a b) = None" for a b using d [of p "Leaf a b"] by (metis child.simps(2) child_inj node.distinct(3))
  then show ?thesis by (simp add: leaf_pte_def)
qed

lemma page_table_map_ok:
  assumes r: "pt_rep s T" and p: "0 \<le> p" "p < 32" and fr: "24 \<le> free_frames (mach s)" and n: "unat page_no < 2 ^ 27"
  shows "\<exists>s' T'. page_table_map p page_no i s = Inr s' \<and> T' (p, Root) \<noteq> None \<and>
    updated s T p ((if T (p, Root) = None then identity_maps (identity_regions p) else Map.empty)(unat page_no \<mapsto> user_entry i)) 24 s' T'"
proof -
  let ?f = "if T (p, Root) = None then identity_maps (identity_regions p) else Map.empty"
  define a where "a = push_bit 12 page_no"
  have ua: "a = word_of_nat (unat page_no * 4096)" by (simp add: a_def push_bit_12)
  have "unat page_no * 4096 < 2 ^ 64" using n by simp
  then have "unat a = unat page_no * 4096" unfolding ua unat_of_nat by simp
  then have a: "unat a mod 4096 = 0" "va_page a = unat page_no" using n by (simp_all add: va_page_def)
  have root: "pt_base s ! nat p = 0 \<longleftrightarrow> T (p, Root) = None"
    using pt_repD(7) [OF r p] pt_repD(4) [OF r] paging_read_nonzero by (auto split: option.splits)
  have "\<exists>s1 T1. (if T (p, Root) = None then pagetable_identity_mapping p s else Inr s) = Inr s1 \<and> updated s T p ?f 21 s1 T1"
  proof (cases "T (p, Root) = None")
    case True
    have "3 * length (identity_regions p) \<le> 21" using identity_regions_ok(2) [of p] by simp
    moreover from this have "3 * length (identity_regions p) \<le> free_frames (mach s)" using fr by simp
    ultimately show ?thesis
      using setup_regions_ok [OF r p _ identity_regions_ok(1)] True unfolding pagetable_identity_mapping_def updated_def by fastforce
  next
    case False
    then show ?thesis using updated_refl [OF r] by auto
  qed
  then obtain s1 T1 where s1: "(if pt_base s ! nat p = 0 then pagetable_identity_mapping p s else Inr s) = Inr s1" "updated s T p ?f 21 s1 T1"
    unfolding root by blast
  then have "pt_rep s1 T1" "3 \<le> free_frames (mach s1)" using fr by (auto simp: updated_def)
  from walk_page_tables_ok [OF this(1) p this(2) a(1)] obtain s2 T2 k where
    w: "walk_page_tables p a s1 = Inr (paging_read k, s2)" "T2 (p, Leaf (VA_GET_VPN a 2) (VA_GET_VPN a 1)) = Some k" "grown s1 T1 s2 T2 3" by blast
  then have r2: "pt_rep s2 T2" by (simp add: grown_def)
  define s3 where "s3 = vm_store (paging_read k + 8 * word_of_nat (VA_GET_VPN a 0)) (user_entry i) s2"
  have u: "updated s T p (?f(unat page_no \<mapsto> user_entry i)) 24 s3 T2"
    using updated_trans [OF updated_trans [OF s1(2) updated_grown [OF w(3)]] updated_store [OF r2 w(2), of "user_entry i"]]
    by (simp add: s3_def a(2))
  have "T2 (p, Root) \<noteq> None"
    using pt_repD(8) [OF r2, of p "Leaf (VA_GET_VPN a 2) (VA_GET_VPN a 1)"] pt_repD(8) [OF r2, of p "Mid (VA_GET_VPN a 2)"] w(2)
    by (metis child.simps(1,2) child_inj node.distinct(1,3) option.distinct(1))
  moreover have "page_table_map p page_no i s = Inr s3"
    using s1(1) w(1) p by (simp add: page_table_map_def a_def [symmetric] Let_def s3_def user_entry_def)
  ultimately show ?thesis using u by blast
qed

text \<open>
  C15: \<open>page_table_map\<close> changes the translation of one page. In a state with well-formed page tables and enough free
  frames it returns, keeps the tables well formed, and afterwards the hardware translates an address of the page to
  the frame, with user access. Any other address of the process translates as before; if the
  process had no tables yet, to itself with supervisor access in the regions of the kernel and the devices, and to a page
  fault elsewhere. No other process is affected.
\<close>

theorem page_table_map_translates:
  assumes "pt_rep s T" "0 \<le> p" "p < 32" "24 \<le> free_frames (mach s)" "unat page_no < 2 ^ 27"
  shows "\<exists>s' T'. page_table_map p page_no i s = Inr s' \<and> pt_rep s' T' \<and>
    (\<forall>va. translate s' p va =
      (if va_page va = unat page_no then Some (user_entry i)
       else if T (p, Root) = None then identity_maps (identity_regions p) (va_page va)
       else translate s p va)) \<and>
    (\<forall>q va. q \<noteq> p \<longrightarrow> T (q, Root) \<noteq> None \<longrightarrow> translate s' q va = translate s q va)"
proof -
  let ?f = "if T (p, Root) = None then identity_maps (identity_regions p) else Map.empty"
  obtain s' T' where s': "page_table_map p page_no i s = Inr s'" "T' (p, Root) \<noteq> None"
    "updated s T p (?f(unat page_no \<mapsto> user_entry i)) 24 s' T'" using page_table_map_ok [OF assms] by blast
  then have r': "pt_rep s' T'" by (simp add: updated_def)
  have leaf: "leaf_pte s' T' q va = (if q = p then (if va_page va = unat page_no then user_entry i
      else case ?f (va_page va) of Some w \<Rightarrow> w | None \<Rightarrow> leaf_pte s T p va) else leaf_pte s T q va)" for q va
    using s'(3) unfolding updated_def by (auto split: option.splits)
  have tr: "translate s' q va = (if leaf_pte s' T' q va AND PTE_V = 0 then None else Some (leaf_pte s' T' q va))"
    if "0 \<le> q" "q < 32" "T' (q, Root) \<noteq> None" for q va
    unfolding translate_def by (rule sv39_walk_leaf [OF r' that])
  have tr0: "translate s q va = (if leaf_pte s T q va AND PTE_V = 0 then None else Some (leaf_pte s T q va))"
    if "0 \<le> q" "q < 32" "T (q, Root) \<noteq> None" for q va
    unfolding translate_def by (rule sv39_walk_leaf [OF assms(1) that])
  have "translate s' p va = (if va_page va = unat page_no then Some (user_entry i)
       else if T (p, Root) = None then identity_maps (identity_regions p) (va_page va) else translate s p va)" for va
  proof (cases "va_page va = unat page_no")
    case False
    show ?thesis
    proof (cases "T (p, Root) = None")
      case True
      then show ?thesis
        using tr [OF assms(2,3) s'(2)] leaf [of p va] False no_root_no_leaf [OF assms(1) True] identity_maps_valid
        by (auto split: option.splits)
    next
      case root: False
      then obtain k where "T (p, Root) = Some k" by blast
      then show ?thesis using tr [OF assms(2,3) s'(2)] tr0 [OF assms(2,3) root] leaf [of p va] False by simp
    qed
  qed (use tr [OF assms(2,3) s'(2)] leaf [of p va] entries_valid in simp)
  moreover have "translate s' q va = translate s q va" if "q \<noteq> p" "T (q, Root) \<noteq> None" for q va
  proof -
    have q: "0 \<le> q" "q < 32" using pt_repD(6) [OF assms(1) that(2)] by simp_all
    have "T' (q, Root) \<noteq> None" using s'(3) that(2) by (simp add: updated_def)
    then show ?thesis using tr [OF q] tr0 [OF q that(2)] leaf [of q va] that(1) by simp
  qed
  ultimately show ?thesis using s'(1) r' by blast
qed

text \<open>The state before any table exists.\<close>

definition vm_empty :: vm where
  "vm_empty = \<lparr>mach = \<lparr>mem = (\<lambda>_. 0), table = replicate 256 frame_none, curr_vm_pid = -1, uart_rx = [], is_reading = False,
     mtime = 0, mtimecmp = 0, QUANTUM = 0\<rparr>, pt_base = replicate 32 0, pt_curr = -1, satp = 0, pmpaddr0 = 0, pmpcfg0 = 0,
     page_tables = True\<rparr>"

lemma vm_empty_ok: "pt_rep vm_empty Map.empty" "free_frames (mach vm_empty) = 256"
proof -
  show "pt_rep vm_empty Map.empty" by (simp add: pt_rep_def vm_empty_def)
  have "{i \<in> {..<256}. \<not> fuse (table (mach vm_empty) ! i)} = {..<256}" by (auto simp: vm_empty_def frame_none_def)
  then show "free_frames (mach vm_empty) = 256" unfolding free_frames_card by simp
qed

theorem page_table_map_translates_witness:
  "\<exists>s. page_table_map 5 0x40027 7 vm_empty = Inr s \<and> translate s 5 0x40027ABC = Some (user_entry 7) \<and>
    translate s 5 0x40024000 = Some (identity_entry OS_XWRV 0x40024) \<and> translate s 5 0x40100000 = None"
proof -
  obtain s where s: "page_table_map 5 0x40027 7 vm_empty = Inr s"
    "\<forall>va. translate s 5 va = (if va_page va = unat (0x40027 :: u64) then Some (user_entry 7)
       else if (Map.empty :: int \<times> node \<rightharpoonup> nat) (5, Root) = None then identity_maps (identity_regions 5) (va_page va) else translate vm_empty 5 va)"
    using page_table_map_translates [OF vm_empty_ok(1), of 5 "0x40027" 7] vm_empty_ok(2) by auto
  have "va_page 0x40027ABC = 0x40027" "va_page 0x40024000 = 0x40024" "va_page 0x40100000 = 0x40100" by (simp_all add: va_page_def)
  moreover have "identity_maps (identity_regions 5) 0x40024 = Some (identity_entry OS_XWRV 0x40024)" "identity_maps (identity_regions 5) 0x40100 = None"
    by (simp_all add: identity_regions_def identity_map_def map_add_def PAGE_CNT_def layout_simps)
  ultimately show ?thesis using s by simp
qed

section \<open>Frames that are never freed\<close>

text \<open>No operation on page tables changes the entry of a frame that is in use.\<close>

definition used_kept :: "vm \<Rightarrow> vm \<Rightarrow> bool" where
  "used_kept s s' \<longleftrightarrow> (\<forall>i. fuse (table (mach s) ! i) \<longrightarrow> table (mach s') ! i = table (mach s) ! i)"

lemma used_kept_trans: "used_kept s s1 \<Longrightarrow> used_kept s1 s2 \<Longrightarrow> used_kept s s2"
  unfolding used_kept_def by simp

lemma used_kept_same: "table (mach s') = table (mach s) \<Longrightarrow> used_kept s s'"
  by (simp add: used_kept_def)

lemma used_kept_new: "new_table p s = Inr (a, s') \<Longrightarrow> used_kept s s'"
  by (auto simp: new_table_def mmu_alloc_def used_kept_def Let_def find_Some_iff split: option.splits)
    (metis nth_list_update_neq)

lemma used_kept_store: "used_kept s (vm_store a w s)"
  by (rule used_kept_same) (simp add: vm_store_def)

lemma used_kept_step: "walk_step p pt v s = Inr (a, s') \<Longrightarrow> used_kept s s'"
  using used_kept_trans [OF used_kept_new used_kept_store]
  by (auto simp: walk_step_def Let_def bindE_eq_Inr_iff used_kept_same split: if_split_asm)

lemma used_kept_walk: "walk_page_tables p va s = Inr (a, s') \<Longrightarrow> used_kept s s'"
proof -
  assume w: "walk_page_tables p va s = Inr (a, s')"
  then obtain root s1 l1 s2 where "walk_root p s = Inr (root, s1)" and k: "walk_step p root (VA_GET_VPN va 2) s1 = Inr (l1, s2)"
    "walk_step p l1 (VA_GET_VPN va 1) s2 = Inr (a, s')"
    by (auto simp: walk_page_tables_def bindE_eq_Inr_iff split: if_split_asm)
  then have "used_kept s s1"
    by (auto simp: walk_root_def bindE_eq_Inr_iff used_kept_same used_kept_def split: if_split_asm dest: used_kept_new)
  then show ?thesis using used_kept_trans used_kept_step k by metis
qed

lemma used_kept_loop: "identity_loop pt a v flag is s = Inr s' \<Longrightarrow> used_kept s s'"
proof (induction pt a v flag "is" s rule: identity_loop.induct)
  case (2 leaf a v flag i "is" s)
  then show ?case using used_kept_trans [OF used_kept_store] by (auto split: if_split_asm)
qed (simp add: used_kept_same)

lemma used_kept_regions: "setup_regions p rs s = Inr s' \<Longrightarrow> used_kept s s'"
proof (induction p rs s rule: setup_regions.induct)
  case (2 p a n rs s)
  then obtain s1 leaf s0 where "walk_page_tables p (word_of_nat a) s = Inr (leaf, s0)"
    "identity_loop leaf (word_of_nat a) (VA_GET_VPN (word_of_nat a) 0) OS_XWRV [0..<n] s0 = Inr s1" and r: "setup_regions p rs s1 = Inr s'"
    "setup_identity_region p (word_of_nat a) n OS_XWRV s = Inr s1"
    by (auto simp: bindE_eq_Inr_iff setup_identity_region_def)
  then have "used_kept s s1" using used_kept_trans used_kept_walk used_kept_loop by metis
  then show ?case using used_kept_trans 2(1) [OF r(1)] by metis
qed (simp add: used_kept_same)

lemma used_kept_map:
  assumes "page_table_map p page_no i s = Inr s'"
  shows "used_kept s s'"
proof -
  obtain s1 leaf s2 where "(if pt_base s ! nat p = 0 then pagetable_identity_mapping p s else Inr s) = Inr s1"
    "walk_page_tables p (push_bit 12 page_no) s1 = Inr (leaf, s2)" and s': "used_kept s2 s'"
    using assms used_kept_store by (auto simp: page_table_map_def Let_def bindE_eq_Inr_iff split: if_split_asm)
  then have "used_kept s s1" "used_kept s1 s2"
    using used_kept_regions used_kept_walk by (auto simp: pagetable_identity_mapping_def used_kept_same split: if_split_asm)
  then show ?thesis using used_kept_trans s' by metis
qed

text \<open>
  C33: Under page tables, the frames of a process are never freed. \<open>mmu_alloc\<close> takes a frame whose entry has pid 0,
  \<open>page_table_map\<close> maps it for process \<open>p\<close> without writing \<open>p\<close> to the entry, and so \<open>mmu_free p\<close> leaves the frame in use.
\<close>

theorem page_table_frames_leak:
  assumes "mmu_alloc (mach s) = Inr ((i, a), m)" "length (table (mach s)) = NFRAMES" "fpid (table (mach s) ! i) = 0" "p \<noteq> 0"
    and "page_table_map p page_no i (s\<lparr>mach := m\<rparr>) = Inr s'" "mmu_free p (mach s') = Inr m'" "i < length (table (mach s'))"
  shows "fuse (table m' ! i)"
proof -
  have t: "fuse (table m ! i)" "fpid (table m ! i) = 0"
    using assms(1-3) by (auto simp: mmu_alloc_def find_Some_iff split: option.splits)
  then have "table (mach s') ! i = table m ! i" using used_kept_map [OF assms(5)] by (simp add: used_kept_def)
  then show ?thesis using t assms(4,6,7) by (auto simp: mmu_free_def)
qed

theorem page_table_frames_leak_witness:
  "\<exists>m s' m'. mmu_alloc (mach vm_empty) = Inr ((0, paging_read 0), m) \<and>
    page_table_map 5 0x40027 0 (vm_empty\<lparr>mach := m\<rparr>) = Inr s' \<and> mmu_free 5 (mach s') = Inr m' \<and> fuse (table m' ! 0)"
proof -
  let ?t = "(replicate 256 frame_none)[0 := frame_none\<lparr>fuse := True\<rparr>]"
  define m where "m = (mach vm_empty)\<lparr>table := ?t\<rparr>"
  have l: "length (table (mach vm_empty)) = NFRAMES" "fpid (table (mach vm_empty) ! 0) = 0"
    by (simp_all add: vm_empty_def NFRAMES_value frame_none_def)
  have a: "mmu_alloc (mach vm_empty) = Inr ((0, paging_read 0), m)"
    unfolding mmu_alloc_def NFRAMES_value upt_conv_Cons [of 0 256, simplified]
    by (simp add: m_def vm_empty_def frame_none_def)
  have "pt_rep (vm_empty\<lparr>mach := m\<rparr>) Map.empty" by (simp add: pt_rep_def vm_empty_def m_def)
  moreover have "{i \<in> {..<256}. \<not> fuse (table m ! i)} = {1..<256}"
    by (auto simp: m_def vm_empty_def frame_none_def nth_list_update)
  then have "free_frames m = 255" unfolding free_frames_card by simp
  ultimately obtain s' T' where s': "page_table_map 5 0x40027 0 (vm_empty\<lparr>mach := m\<rparr>) = Inr s'" "pt_rep s' T'"
    using page_table_map_ok [of "vm_empty\<lparr>mach := m\<rparr>" Map.empty 5 "0x40027" 0] by (auto simp: updated_def)
  have "0 < length (table (mach s'))" using pt_repD(1) [OF s'(2)] by simp
  moreover obtain m' where "mmu_free 5 (mach s') = Inr m'" by (simp add: mmu_free_def)
  ultimately show ?thesis using page_table_frames_leak [OF a l _ s'(1)] a s'(1) by auto
qed

end
