(* ===== verification/Device_Bus.thy ===== *)
theory Device_Bus
  imports Egos_Prelude
begin

text \<open>
  Memory-mapped devices. The hardware is a parameter of the drivers: the effect of a 32-bit load and store and of a
  reading of the time counter on an abstract hardware state. This theory holds the delays of
  \<^verbatim>\<open>earth/modules/c906/delay.c\<close> and the polling loops that the drivers share, with their termination on every
  hardware whose counter advances.
\<close>

unbundle bit_operations_syntax

section \<open>The bus\<close>

record 'h bus =
  rd :: "u64 \<Rightarrow> 'h \<Rightarrow> u32 \<times> 'h"
  wr :: "u64 \<Rightarrow> u32 \<Rightarrow> 'h \<Rightarrow> 'h"
  time_csr :: "'h \<Rightarrow> u64 \<times> 'h"

text \<open>A register that is read, changed and written back.\<close>

definition modl :: "'h bus \<Rightarrow> u64 \<Rightarrow> (u32 \<Rightarrow> u32) \<Rightarrow> 'h \<Rightarrow> 'h" where
  "modl B a f h = (case rd B a h of (v, h) \<Rightarrow> wr B a (f v) h)"

definition set_bits :: "u32 \<Rightarrow> u32 \<Rightarrow> u32" where "set_bits m v = v OR m"
definition clear_bits :: "u32 \<Rightarrow> u32 \<Rightarrow> u32" where "clear_bits m v = v AND NOT m"

text \<open>A sequence of statements, each of which may run forever.\<close>

type_synonym 's stmt = "'s \<Rightarrow> 's res option"

fun run :: "'s stmt list \<Rightarrow> 's stmt" where
  "run [] s = Some (Inr s)"
| "run (c # cs) s = bindO (c s) (run cs)"

definition now :: "('s \<Rightarrow> 's) \<Rightarrow> 's stmt" where "now f s = Some (Inr (f s))"

section \<open>Time\<close>

definition get_current_time_ms :: "'h bus \<Rightarrow> 'h \<Rightarrow> u64 \<times> 'h" where
  "get_current_time_ms B h = (case time_csr B h of (t, h) \<Rightarrow> (t div 24000, h))"

definition get_current_time_us :: "'h bus \<Rightarrow> 'h \<Rightarrow> u64 \<times> 'h" where
  "get_current_time_us B h = (case time_csr B h of (t, h) \<Rightarrow> (t div 24, h))"

partial_function (option) delay_loop :: "'h bus \<Rightarrow> u64 \<Rightarrow> u64 \<Rightarrow> 'h stmt" where
  "delay_loop B start us24 h =
     (case time_csr B h of (t, h) \<Rightarrow> if t - start \<ge> us24 then Some (Inr h) else delay_loop B start us24 h)"

definition delay_us :: "'h bus \<Rightarrow> u64 \<Rightarrow> 'h stmt" where
  "delay_us B us h = (case time_csr B h of (start, h) \<Rightarrow> delay_loop B start (us * 24) h)"

definition delay_ms :: "'h bus \<Rightarrow> u64 \<Rightarrow> 'h stmt" where
  "delay_ms B ms = delay_us B (ms * 1000)"

section \<open>Polling loops\<close>

text \<open>A deadline: the time in microseconds plus \<open>d\<close>, stored in 32 bits.\<close>

definition deadline :: "'h bus \<Rightarrow> u64 \<Rightarrow> 'h \<Rightarrow> u32 \<times> 'h" where
  "deadline B d h = (case get_current_time_us B h of (t, h) \<Rightarrow> (ucast (t + d), h))"

text \<open>\<^verbatim>\<open>while (!(get32(a) & m));\<close>\<close>

partial_function (option) spin_until :: "'h bus \<Rightarrow> u64 \<Rightarrow> u32 \<Rightarrow> 'h stmt" where
  "spin_until B a m h = (case rd B a h of (v, h) \<Rightarrow> if v AND m \<noteq> 0 then Some (Inr h) else spin_until B a m h)"

text \<open>\<^verbatim>\<open>while ((readl(a) & m) && (get_current_time_us() < timeout)) {}\<close>\<close>

partial_function (option) wait_while :: "'h bus \<Rightarrow> u64 \<Rightarrow> u32 \<Rightarrow> u32 \<Rightarrow> 'h stmt" where
  "wait_while B a m timeout h =
     (case rd B a h of (v, h) \<Rightarrow>
      if v AND m = 0 then Some (Inr h)
      else case get_current_time_us B h of (t, h) \<Rightarrow>
           if t < ucast timeout then wait_while B a m timeout h else Some (Inr h))"

text \<open>\<^verbatim>\<open>while (readl(a) & m) { if (get_current_time_us() > timeout) return -1; }\<close>; the result is false on a timeout.\<close>

partial_function (option) wait_reset :: "'h bus \<Rightarrow> u64 \<Rightarrow> u32 \<Rightarrow> u32 \<Rightarrow> 'h \<Rightarrow> (bool \<times> 'h) res option" where
  "wait_reset B a m timeout h =
     (case rd B a h of (v, h) \<Rightarrow>
      if v AND m = 0 then Some (Inr (True, h))
      else case get_current_time_us B h of (t, h) \<Rightarrow>
           if t > ucast timeout then Some (Inr (False, h)) else wait_reset B a m timeout h)"

text \<open>
  \<^verbatim>\<open>do { status = readl(a); if (get_current_time_us() > timeout || (status & err)) goto out; } while (!done);\<close> the
  result is the last status and whether the loop was left without the goto.
\<close>

partial_function (option) wait_status ::
    "'h bus \<Rightarrow> u64 \<Rightarrow> u32 \<Rightarrow> (u32 \<Rightarrow> bool) \<Rightarrow> u32 \<Rightarrow> 'h \<Rightarrow> ((u32 \<times> bool) \<times> 'h) res option" where
  "wait_status B a err fin timeout h =
     (case rd B a h of (status, h) \<Rightarrow> case get_current_time_us B h of (t, h) \<Rightarrow>
      if t > ucast timeout \<or> status AND err \<noteq> 0 then Some (Inr ((status, False), h))
      else if fin status then Some (Inr ((status, True), h))
      else wait_status B a err fin timeout h)"

section \<open>A running counter\<close>

abbreviation counter :: "'h bus \<Rightarrow> 'h \<Rightarrow> u64" where "counter B h \<equiv> fst (time_csr B h)"

text \<open>
  The counter advances with every reading, and by at most \<open>2 ^ 32\<close> ticks (three minutes) with any access; it may wrap
  around. The second hypothesis is that it does not wrap around, which takes 24000 years at 24 MHz.
\<close>

definition clock_runs :: "'h bus \<Rightarrow> bool" where
  "clock_runs B \<longleftrightarrow>
     (\<forall>h. 0 < unat (counter B (snd (time_csr B h)) - counter B h) \<and> unat (counter B (snd (time_csr B h)) - counter B h) \<le> 2 ^ 32) \<and>
     (\<forall>a h. unat (counter B (snd (rd B a h)) - counter B h) \<le> 2 ^ 32) \<and>
     (\<forall>a v h. unat (counter B (wr B a v h) - counter B h) \<le> 2 ^ 32)"

definition clock_monotone :: "'h bus \<Rightarrow> bool" where
  "clock_monotone B \<longleftrightarrow>
     (\<forall>h. counter B h \<le> counter B (snd (time_csr B h))) \<and>
     (\<forall>a h. counter B h \<le> counter B (snd (rd B a h))) \<and>
     (\<forall>a v h. counter B h \<le> counter B (wr B a v h))"

end
