(* ===== verification/Gpio.thy ===== *)
theory Gpio
  imports Device_Bus
begin

text \<open>
  The pins (\<^verbatim>\<open>earth/modules/gpio/gpio.c\<close>): every pin has a field of four or two bits in a group of registers. The
  registers are reached through the bus at the offsets of \<^verbatim>\<open>struct gpio_control\<close> and \<^verbatim>\<open>struct gpio_eint\<close>.
\<close>

unbundle bit_operations_syntax

section \<open>Constants and registers\<close>

definition GPIO_BASE :: u64 where "GPIO_BASE = 0x02000000"
definition GPIO_POW_MODE_REG :: u64 where "GPIO_POW_MODE_REG = 0x0340"

datatype gpio_port = gpio_pb | gpio_pc | gpio_pd | gpio_pe | gpio_pf | gpio_pg

primrec port_code :: "gpio_port \<Rightarrow> nat" where
  "port_code gpio_pb = 1"
| "port_code gpio_pc = 2"
| "port_code gpio_pd = 3"
| "port_code gpio_pe = 4"
| "port_code gpio_pf = 5"
| "port_code gpio_pg = 6"

datatype gpio_pull_state = gpio_pull_disable | gpio_pull_up | gpio_pull_down | gpio_pull_reserved

primrec pull_code :: "gpio_pull_state \<Rightarrow> u32" where
  "pull_code gpio_pull_disable = 0"
| "pull_code gpio_pull_up = 1"
| "pull_code gpio_pull_down = 2"
| "pull_code gpio_pull_reserved = 3"

datatype gpio_multi_driving_state =
  gpio_multi_driving_level0 | gpio_multi_driving_level1 | gpio_multi_driving_level2 | gpio_multi_driving_level3

primrec driving_code :: "gpio_multi_driving_state \<Rightarrow> u32" where
  "driving_code gpio_multi_driving_level0 = 0"
| "driving_code gpio_multi_driving_level1 = 1"
| "driving_code gpio_multi_driving_level2 = 2"
| "driving_code gpio_multi_driving_level3 = 3"

datatype gpio_config_state =
  gpio_config_input | gpio_config_output | gpio_config_function2 | gpio_config_function3 | gpio_config_function4
| gpio_config_function5 | gpio_config_function6 | gpio_config_function7 | gpio_config_function8
| gpio_config_function14 | gpio_config_external_interrupt | gpio_config_io_diable

primrec config_code :: "gpio_config_state \<Rightarrow> u32" where
  "config_code gpio_config_input = 0"
| "config_code gpio_config_output = 1"
| "config_code gpio_config_function2 = 2"
| "config_code gpio_config_function3 = 3"
| "config_code gpio_config_function4 = 4"
| "config_code gpio_config_function5 = 5"
| "config_code gpio_config_function6 = 6"
| "config_code gpio_config_function7 = 7"
| "config_code gpio_config_function8 = 8"
| "config_code gpio_config_function14 = 14"
| "config_code gpio_config_external_interrupt = 14"
| "config_code gpio_config_io_diable = 15"

datatype gpio_interrupt_config_state =
  gpio_interrupt_positive_edge | gpio_interrupt_negative_edge | gpio_interrupt_high_level | gpio_interrupt_low_level
| gpio_interrupt_double_edge | gpio_interrupt_disable

primrec interrupt_code :: "gpio_interrupt_config_state \<Rightarrow> u32" where
  "interrupt_code gpio_interrupt_positive_edge = 0"
| "interrupt_code gpio_interrupt_negative_edge = 1"
| "interrupt_code gpio_interrupt_high_level = 2"
| "interrupt_code gpio_interrupt_low_level = 3"
| "interrupt_code gpio_interrupt_double_edge = 4"
| "interrupt_code gpio_interrupt_disable = 15"

text \<open>The groups of registers of a port and their offsets.\<close>

datatype gpio_group = gpio_cfg | gpio_dat | gpio_drv | gpio_pull

primrec gpio_control :: "gpio_group \<Rightarrow> nat" where
  "gpio_control gpio_cfg = 0"
| "gpio_control gpio_dat = 0x10"
| "gpio_control gpio_drv = 0x14"
| "gpio_control gpio_pull = 0x24"

definition gpio_reg :: "gpio_port \<Rightarrow> gpio_group \<Rightarrow> nat \<Rightarrow> u64" where
  "gpio_reg port g i = GPIO_BASE + word_of_nat (port_code port * 0x30 + gpio_control g + 4 * i)"

datatype gpio_eint_group = eint_cfg | eint_ctl | eint_status | eint_deb

primrec gpio_eint :: "gpio_eint_group \<Rightarrow> nat" where
  "gpio_eint eint_cfg = 0"
| "gpio_eint eint_ctl = 0x10"
| "gpio_eint eint_status = 0x14"
| "gpio_eint eint_deb = 0x18"

definition eint_reg :: "gpio_port \<Rightarrow> gpio_eint_group \<Rightarrow> nat \<Rightarrow> u64" where
  "eint_reg port g i = GPIO_BASE + word_of_nat (0x200 + port_code port * 0x20 + gpio_eint g + 4 * i)"

text \<open>A field of a register.\<close>

definition put_field :: "u32 \<Rightarrow> nat \<Rightarrow> u32 \<Rightarrow> u32 \<Rightarrow> u32" where
  "put_field m off x r = (r AND NOT (push_bit off m)) OR push_bit off (x AND m)"

definition get_field :: "u32 \<Rightarrow> nat \<Rightarrow> u32 \<Rightarrow> u32" where
  "get_field m off r = drop_bit off r AND m"

section \<open>Operations\<close>

definition gpio_set_config :: "'h bus \<Rightarrow> gpio_port \<Rightarrow> nat \<Rightarrow> gpio_config_state \<Rightarrow> 'h \<Rightarrow> 'h" where
  "gpio_set_config B port pin config =
     modl B (gpio_reg port gpio_cfg (pin div 8)) (put_field 15 (pin mod 8 * 4) (config_code config))"

definition gpio_get_config :: "'h bus \<Rightarrow> gpio_port \<Rightarrow> nat \<Rightarrow> 'h \<Rightarrow> u32 \<times> 'h" where
  "gpio_get_config B port pin h =
     (case rd B (gpio_reg port gpio_cfg (pin div 8)) h of (v, h) \<Rightarrow> (get_field 15 (pin mod 8 * 4) v, h))"

definition gpio_write :: "'h bus \<Rightarrow> gpio_port \<Rightarrow> nat \<Rightarrow> int \<Rightarrow> 'h \<Rightarrow> 'h" where
  "gpio_write B port pin x =
     modl B (gpio_reg port gpio_dat 0) (if x > 0 then set_bits (push_bit pin 1) else clear_bits (push_bit pin 1))"

definition gpio_read :: "'h bus \<Rightarrow> gpio_port \<Rightarrow> nat \<Rightarrow> 'h \<Rightarrow> u32 \<times> 'h" where
  "gpio_read B port pin h = (case rd B (gpio_reg port gpio_dat 0) h of (v, h) \<Rightarrow> (drop_bit pin v AND 1, h))"

definition gpio_set_pull :: "'h bus \<Rightarrow> gpio_port \<Rightarrow> nat \<Rightarrow> gpio_pull_state \<Rightarrow> 'h \<Rightarrow> 'h" where
  "gpio_set_pull B port pin p =
     modl B (gpio_reg port gpio_pull (pin div 16)) (put_field 3 (pin mod 16 * 2) (pull_code p))"

definition gpio_get_pull :: "'h bus \<Rightarrow> gpio_port \<Rightarrow> nat \<Rightarrow> 'h \<Rightarrow> u32 \<times> 'h" where
  "gpio_get_pull B port pin h =
     (case rd B (gpio_reg port gpio_pull (pin div 16)) h of (v, h) \<Rightarrow> (get_field 3 (pin mod 16 * 2) v, h))"

definition gpio_set_multi_driving :: "'h bus \<Rightarrow> gpio_port \<Rightarrow> nat \<Rightarrow> gpio_multi_driving_state \<Rightarrow> 'h \<Rightarrow> 'h" where
  "gpio_set_multi_driving B port pin d =
     modl B (gpio_reg port gpio_drv (pin div 8)) (put_field 3 (pin mod 8 * 4) (driving_code d))"

definition gpio_get_multi_driving :: "'h bus \<Rightarrow> gpio_port \<Rightarrow> nat \<Rightarrow> 'h \<Rightarrow> u32 \<times> 'h" where
  "gpio_get_multi_driving B port pin h =
     (case rd B (gpio_reg port gpio_drv (pin div 8)) h of (v, h) \<Rightarrow> (get_field 3 (pin mod 8 * 4) v, h))"

text \<open>The interrupt configuration clears four bits and sets three.\<close>

definition gpio_set_external_interrupt_config ::
    "'h bus \<Rightarrow> gpio_port \<Rightarrow> nat \<Rightarrow> gpio_interrupt_config_state \<Rightarrow> 'h \<Rightarrow> 'h" where
  "gpio_set_external_interrupt_config B port pin c h =
     (if c = gpio_interrupt_disable then modl B (eint_reg port eint_ctl 0) (clear_bits (push_bit pin 1)) h
      else modl B (eint_reg port eint_cfg (pin div 8)) (put_field 15 (pin mod 8 * 4) (interrupt_code c AND 7))
             (modl B (eint_reg port eint_ctl 0) (set_bits (push_bit pin 1)) h))"

definition gpio_get_external_interrupt_config :: "'h bus \<Rightarrow> gpio_port \<Rightarrow> nat \<Rightarrow> 'h \<Rightarrow> u32 \<times> 'h" where
  "gpio_get_external_interrupt_config B port pin h =
     (case rd B (eint_reg port eint_ctl 0) h of (v, h) \<Rightarrow>
      if drop_bit pin v AND 1 = 0 then (interrupt_code gpio_interrupt_disable, h)
      else case rd B (eint_reg port eint_cfg (pin div 8)) h of (v, h) \<Rightarrow> (get_field 15 (pin mod 8 * 4) v, h))"

definition gpio_external_interrupt_irq_pending :: "'h bus \<Rightarrow> gpio_port \<Rightarrow> nat \<Rightarrow> 'h \<Rightarrow> u32 \<times> 'h" where
  "gpio_external_interrupt_irq_pending B port pin h =
     (case rd B (eint_reg port eint_status 0) h of (v, h) \<Rightarrow> (drop_bit pin v AND 1, h))"

definition gpio_external_interrupt_irq_clear :: "'h bus \<Rightarrow> gpio_port \<Rightarrow> nat \<Rightarrow> 'h \<Rightarrow> 'h" where
  "gpio_external_interrupt_irq_clear B port pin = wr B (eint_reg port eint_status 0) (push_bit pin 1)"

text \<open>The result is the prescaler and the clock.\<close>

definition gpio_external_interrupt_debounce_get :: "'h bus \<Rightarrow> gpio_port \<Rightarrow> 'h \<Rightarrow> (u32 \<times> u32) \<times> 'h" where
  "gpio_external_interrupt_debounce_get B port h =
     (case rd B (eint_reg port eint_deb 0) h of (v, h) \<Rightarrow> ((drop_bit 4 v AND 7, v AND 1), h))"

definition gpio_external_interrupt_debounce_set :: "'h bus \<Rightarrow> gpio_port \<Rightarrow> u32 \<Rightarrow> u32 \<Rightarrow> 'h \<Rightarrow> 'h" where
  "gpio_external_interrupt_debounce_set B port prescaler clock =
     wr B (eint_reg port eint_deb 0) ((clock AND 1) OR push_bit 4 (prescaler AND 7))"

section \<open>Fields\<close>

lemma get_put_field_same:
  assumes "off + n \<le> 32"
  shows "get_field (mask n) off (put_field (mask n) off x r) = x AND mask n"
  by (rule bit_word_eqI) (use assms in \<open>auto simp: get_field_def put_field_def bit_simps dest: bit_imp_le_length\<close>)

lemma get_put_field_other:
  assumes "off + n \<le> off' \<or> off' + n \<le> off"
  shows "get_field (mask n) off' (put_field (mask n) off x r) = get_field (mask n) off' r"
  by (rule bit_word_eqI) (use assms in \<open>auto simp: get_field_def put_field_def bit_simps dest: bit_imp_le_length\<close>)

lemma masks: "(15 :: u32) = mask 4" "(3 :: u32) = mask 2"
  by (simp_all add: mask_eq_exp_minus_1)

lemma get_put_slot:
  assumes "j * n + n \<le> 32" "k * n + n \<le> 32"
  shows "get_field (mask n) (j * n) (put_field (mask n) (k * n) x r) =
    (if j = k then x AND mask n else get_field (mask n) (j * n) r)"
proof (cases "j = k")
  case False
  then have "Suc j \<le> k \<or> Suc k \<le> j" by auto
  then have "Suc j * n \<le> k * n \<or> Suc k * n \<le> j * n" by (meson mult_le_mono1)
  then have "k * n + n \<le> j * n \<or> j * n + n \<le> k * n" by auto
  from get_put_field_other [OF this] show ?thesis using False by simp
qed (use assms in \<open>simp add: get_put_field_same\<close>)

section \<open>Pins are independent\<close>

text \<open>
  Registers that hold what is written to them: a set of addresses at which a load returns the last store to the
  address and has no effect on the others.
\<close>

definition plain_regs :: "'h bus \<Rightarrow> u64 set \<Rightarrow> bool" where
  "plain_regs B A \<longleftrightarrow> (\<forall>a \<in> A. \<forall>b \<in> A. \<forall>v h.
     fst (rd B a (wr B b v h)) = (if a = b then v else fst (rd B a h)) \<and> fst (rd B a (snd (rd B b h))) = fst (rd B a h))"

lemma plain_modl:
  assumes "plain_regs B A" "a \<in> A" "b \<in> A"
  shows "fst (rd B a (modl B b f h)) = (if a = b then f (fst (rd B b h)) else fst (rd B a h))"
  using assms by (auto simp: plain_regs_def modl_def case_prod_beta)

definition gpio_regs :: "u64 set" where
  "gpio_regs = {gpio_reg port g i | port g i. i < 4}"

lemma gpio_reg_in: "i < 4 \<Longrightarrow> gpio_reg port g i \<in> gpio_regs"
  unfolding gpio_regs_def by blast


lemma gpio_reg_inj:
  assumes "gpio_reg port gpio_cfg i = gpio_reg port' gpio_cfg i'" "i < 3" "i' < 3"
  shows "port = port' \<and> i = i'"
proof -
  have "unat (word_of_nat (port_code q * 0x30 + 4 * k) :: u64) = port_code q * 0x30 + 4 * k" if "k < 3" for q k
  proof -
    have "port_code q * 0x30 + 4 * k < 2 ^ 64" using that by (cases q) simp_all
    then show ?thesis unfolding unat_of_nat by simp
  qed
  then have "port_code port * 0x30 + 4 * i = port_code port' * 0x30 + 4 * i'"
    using assms by (metis gpio_reg_def gpio_control.simps(1) add_left_cancel Nat.add_0_right)
  moreover from this have "port_code port = port_code port'" using assms(2,3) by linarith
  ultimately have "port_code port = port_code port'" "i = i'" by simp_all
  then show ?thesis by (cases port; cases port') simp_all
qed

text \<open>
  C26: On registers that hold what is written to them, \<^verbatim>\<open>gpio_set_config\<close> sets the function of one pin: afterwards
  \<^verbatim>\<open>gpio_get_config\<close> returns the function for this pin and what it returned before for every other pin of every port.
\<close>

theorem gpio_config_roundtrip:
  assumes "plain_regs B gpio_regs" "pin < 24" "pin' < 24"
  shows "fst (gpio_get_config B port' pin' (gpio_set_config B port pin c h)) =
    (if port' = port \<and> pin' = pin then config_code c else fst (gpio_get_config B port' pin' h))"
proof -
  let ?a = "gpio_reg port gpio_cfg (pin div 8)" and ?b = "gpio_reg port' gpio_cfg (pin' div 8)"
  have in_regs: "?a \<in> gpio_regs" "?b \<in> gpio_regs" using assms(2,3) by (auto intro: gpio_reg_in)
  have code: "config_code c AND mask 4 = config_code c" by (cases c) (simp_all add: mask_eq_exp_minus_1)
  have r: "fst (rd B ?b (gpio_set_config B port pin c h)) =
      (if ?b = ?a then put_field (mask 4) (pin mod 8 * 4) (config_code c) (fst (rd B ?a h)) else fst (rd B ?b h))"
    unfolding gpio_set_config_def masks by (rule plain_modl [OF assms(1) in_regs(2,1)])
  show ?thesis
  proof (cases "?b = ?a")
    case True
    then have p: "port' = port" "pin' div 8 = pin div 8" using gpio_reg_inj [OF True] assms(2,3) by auto
    then have "pin' = pin \<longleftrightarrow> pin' mod 8 = pin mod 8" by (metis div_mult_mod_eq)
    moreover have "pin' mod 8 * 4 + 4 \<le> 32" "pin mod 8 * 4 + 4 \<le> 32"
      using mod_less_divisor [of 8 pin'] mod_less_divisor [of 8 pin] by linarith+
    ultimately show ?thesis
      using r True p by (simp add: gpio_get_config_def case_prod_beta masks get_put_slot code)
  next
    case False
    then have no: "\<not> (port' = port \<and> pin' = pin)" by auto
    show ?thesis unfolding if_not_P [OF no] using r False by (simp add: gpio_get_config_def case_prod_beta)
  qed
qed

text \<open>A memory of registers.\<close>

definition reg_bus :: "(u64 \<Rightarrow> u32) bus" where
  "reg_bus = \<lparr>rd = (\<lambda>a h. (h a, h)), wr = (\<lambda>a v h. h(a := v)), time_csr = (\<lambda>h. (0, h))\<rparr>"

lemma reg_bus_plain: "plain_regs reg_bus A"
  by (simp add: plain_regs_def reg_bus_def)

theorem gpio_config_roundtrip_witness:
  "fst (gpio_get_config reg_bus gpio_pf 5 (gpio_set_config reg_bus gpio_pf 5 gpio_config_function2 (\<lambda>_. 0x77777777))) = 2 \<and>
   fst (gpio_get_config reg_bus gpio_pf 4 (gpio_set_config reg_bus gpio_pf 5 gpio_config_function2 (\<lambda>_. 0x77777777))) = 7"
  using gpio_config_roundtrip [OF reg_bus_plain, of 5 5 gpio_pf gpio_pf gpio_config_function2 "\<lambda>_. 0x77777777"]
    gpio_config_roundtrip [OF reg_bus_plain, of 5 4 gpio_pf gpio_pf gpio_config_function2 "\<lambda>_. 0x77777777"]
  by (simp add: gpio_get_config_def reg_bus_def get_field_def)

end
