(* ===== verification/Device_Wait.thy ===== *)
theory Device_Wait
  imports Device_Bus
begin

text \<open>Termination of delays and polling loops on a hardware whose counter advances.\<close>

unbundle bit_operations_syntax

lemma clock_runsD:
  assumes "clock_runs B"
  shows "0 < unat (counter B (snd (time_csr B h)) - counter B h)" "unat (counter B (snd (time_csr B h)) - counter B h) \<le> 2 ^ 32"
    "unat (counter B (snd (rd B a h)) - counter B h) \<le> 2 ^ 32"
    "unat (counter B (wr B a v h) - counter B h) \<le> 2 ^ 32"
  using assms unfolding clock_runs_def by blast+

lemma advance:
  fixes x y :: u64
  assumes "unat (y - x) \<le> 2 ^ 32" "unat x < 2 ^ 63"
  shows "unat y = unat x + unat (y - x)"
proof -
  have "unat y = (unat x + unat (y - x)) mod 2 ^ 64" using unat_word_ariths(1) [of x "y - x"] by simp
  then show ?thesis using assms by simp
qed

lemma before_deadline:
  fixes d :: u32 and x :: nat
  assumes "x div 24 \<le> unat d" shows "x < 2 ^ 37"
proof -
  have "x div 24 < 2 ^ 32" using assms unsigned_less [of d, where ?'a = nat] by simp
  then have "x < 2 ^ 32 * 24" by (simp add: div_less_iff_less_mult)
  then show ?thesis by simp
qed

lemma next_below: "x < 2 ^ 37 \<Longrightarrow> d \<le> 2 ^ 32 \<Longrightarrow> x + d < (2 ^ 38 :: nat)"
  by simp

text \<open>Computation induction for a loop that reads \<open>a\<close> and ends when the time has passed \<open>d\<close>.\<close>

lemma deadline_induct_small:
  fixes d :: u32
  assumes "clock_runs B"
    and step: "\<And>h. (unat (counter B (snd (rd B a h))) div 24 \<le> unat d \<Longrightarrow> P (snd (time_csr B (snd (rd B a h))))) \<Longrightarrow> P h"
    and "unat (counter B h) < 2 ^ 38"
  shows "P h"
  using assms(3)
proof (induction "2 ^ 38 - unat (counter B h)" arbitrary: h rule: less_induct)
  case less
  show ?case
  proof (rule step)
    define h1 where "h1 = snd (rd B a h)"
    define h2 where "h2 = snd (time_csr B h1)"
    assume "unat (counter B (snd (rd B a h))) div 24 \<le> unat d"
    then have x1: "unat (counter B h1) div 24 \<le> unat d" by (simp add: h1_def)
    then have x1: "unat (counter B h1) < 2 ^ 37" by (rule before_deadline)
    have "unat (counter B h1) = unat (counter B h) + unat (counter B h1 - counter B h)"
      using advance [of "counter B h1" "counter B h"] clock_runsD(3) [OF assms(1), of a h] less(2) by (simp add: h1_def)
    moreover have "unat (counter B h2) = unat (counter B h1) + unat (counter B h2 - counter B h1)"
      "0 < unat (counter B h2 - counter B h1)" "unat (counter B h2 - counter B h1) \<le> 2 ^ 32"
      using advance [of "counter B h2" "counter B h1"] clock_runsD(1,2) [OF assms(1), of h1] x1 by (simp_all add: h2_def)
    ultimately have "unat (counter B h) < unat (counter B h2)" "unat (counter B h2) < 2 ^ 38"
      using x1 next_below [of "unat (counter B h1)" "unat (counter B h2 - counter B h1)"] by linarith+
    then show "P (snd (time_csr B (snd (rd B a h))))"
      using less(1) [of h2] less(2) by (simp add: h1_def h2_def)
  qed
qed

lemma deadline_induct:
  fixes d :: u32
  assumes "clock_runs B"
    and step: "\<And>h. (unat (counter B (snd (rd B a h))) div 24 \<le> unat d \<Longrightarrow> P (snd (time_csr B (snd (rd B a h))))) \<Longrightarrow> P h"
  shows "P h"
proof -
  have small: "P h" if "unat (counter B h) < 2 ^ 38" for h
    using deadline_induct_small [where P = P and a = a and d = d, OF assms(1) _ that] step by blast
  have "P (snd (time_csr B h1))" if "unat (counter B h1) div 24 \<le> unat d" for h1
  proof (rule small)
    have "unat (counter B h1) < 2 ^ 37" using that by (rule before_deadline)
    then show "unat (counter B (snd (time_csr B h1))) < 2 ^ 38"
      using advance [of "counter B (snd (time_csr B h1))" "counter B h1"] clock_runsD(2) [OF assms(1), of h1]
        next_below [of "unat (counter B h1)" "unat (counter B (snd (time_csr B h1)) - counter B h1)"] by simp
  qed
  then show ?thesis using step by blast
qed

lemma time_us_le:
  fixes d :: u32
  shows "\<not> ucast d < (t :: u64) div 24 \<Longrightarrow> unat t div 24 \<le> unat d"
    "t div 24 < ucast d \<Longrightarrow> unat t div 24 \<le> unat d"
  by (simp_all add: word_less_nat_alt unat_ucast_64 not_less unat_div_distrib)

named_theorems returning \<open>operations that return\<close>

definition returns :: "'a res option \<Rightarrow> bool" where
  "returns m \<longleftrightarrow> m \<noteq> None"

lemma returns_Some [returning]: "returns (Some x)"
  by (simp add: returns_def)

lemma returns_bind [returning]: "returns m \<Longrightarrow> (\<And>x. returns (f x)) \<Longrightarrow> returns (bindO m f)"
  by (auto simp: returns_def bindO_def split: sum.splits)

lemma returns_run_nil [returning]: "returns (run [] s)"
  by (simp add: returns_def)

lemma returns_run_cons [returning]: "(\<And>s. returns (c s)) \<Longrightarrow> (\<And>s. returns (run cs s)) \<Longrightarrow> returns (run (c # cs) s)"
  by (simp add: returns_bind)

lemma returns_now [returning]: "returns (now f s)"
  by (simp add: now_def returns_def)

lemma returns_case_prod [returning]: "(\<And>a b. returns (f a b)) \<Longrightarrow> returns (case p of (a, b) \<Rightarrow> f a b)"
  by (cases p) simp

lemma returns_if [returning]: "(b \<Longrightarrow> returns m) \<Longrightarrow> (\<not> b \<Longrightarrow> returns n) \<Longrightarrow> returns (if b then m else n)"
  by simp

lemma returns_wait_while [returning]:
  assumes "clock_runs B" shows "returns (wait_while B a m d h)"
proof (rule deadline_induct [OF assms, of a d "\<lambda>h. returns (wait_while B a m d h)"])
  fix h assume "unat (counter B (snd (rd B a h))) div 24 \<le> unat d \<Longrightarrow> returns (wait_while B a m d (snd (time_csr B (snd (rd B a h)))))"
  then show "returns (wait_while B a m d h)"
    unfolding wait_while.simps [of B a m d h]
    by (auto simp: get_current_time_us_def returns_Some time_us_le split: prod.splits)
qed

lemma returns_wait_reset [returning]:
  assumes "clock_runs B" shows "returns (wait_reset B a m d h)"
proof (rule deadline_induct [OF assms, of a d "\<lambda>h. returns (wait_reset B a m d h)"])
  fix h assume "unat (counter B (snd (rd B a h))) div 24 \<le> unat d \<Longrightarrow> returns (wait_reset B a m d (snd (time_csr B (snd (rd B a h)))))"
  then show "returns (wait_reset B a m d h)"
    unfolding wait_reset.simps [of B a m d h]
    by (auto simp: get_current_time_us_def returns_Some time_us_le split: prod.splits)
qed

lemma returns_wait_status [returning]:
  assumes "clock_runs B" shows "returns (wait_status B a e f d h)"
proof (rule deadline_induct [OF assms, of a d "\<lambda>h. returns (wait_status B a e f d h)"])
  fix h assume "unat (counter B (snd (rd B a h))) div 24 \<le> unat d \<Longrightarrow> returns (wait_status B a e f d (snd (time_csr B (snd (rd B a h)))))"
  then show "returns (wait_status B a e f d h)"
    unfolding wait_status.simps [of B a e f d h]
    by (auto simp: get_current_time_us_def returns_Some time_us_le split: prod.splits)
qed

section \<open>Delays\<close>

lemma delay_loop_waits:
  assumes "clock_runs B" "unat us24 < 2 ^ 63"
  shows "\<exists>h1. delay_loop B start us24 h = Some (Inr (snd (time_csr B h1))) \<and> us24 \<le> counter B h1 - start"
proof (induction "unat us24 - unat (counter B h - start)" arbitrary: h rule: less_induct)
  case less
  show ?case
  proof (cases "us24 \<le> counter B h - start")
    case True
    then show ?thesis
      by (intro exI [of _ h]) (simp add: delay_loop.simps [of B start us24 h] case_prod_beta)
  next
    case False
    define h1 where "h1 = snd (time_csr B h)"
    have e: "unat (counter B h - start) < unat us24" using False by (simp add: word_le_nat_alt)
    have "unat (counter B h1 - start) = unat (counter B h - start) + unat (counter B h1 - counter B h)"
      using advance [of "counter B h1 - start" "counter B h - start"] clock_runsD(2) [OF assms(1), of h] e assms(2)
      by (simp add: h1_def)
    then have "unat us24 - unat (counter B h1 - start) < unat us24 - unat (counter B h - start)"
      using e clock_runsD(1) [OF assms(1), of h] by (simp add: h1_def)
    from less [OF this] show ?thesis
      using False by (simp add: delay_loop.simps [of B start us24 h] h1_def case_prod_beta)
  qed
qed

lemma returns_delay_us [returning]:
  assumes "clock_runs B" "unat (us * 24) < 2 ^ 63" shows "returns (delay_us B us h)"
  using delay_loop_waits [OF assms] by (fastforce simp: delay_us_def returns_def case_prod_beta)

text \<open>
  C27: \<^verbatim>\<open>delay_us\<close> returns, and not before 24 counter ticks per microsecond have passed, from every value of the counter,
  also when the counter wraps around in between.
\<close>

theorem delay_us_waits:
  assumes "clock_runs B" "unat us * 24 < 2 ^ 63"
  shows "\<exists>h1. delay_us B us h = Some (Inr (snd (time_csr B h1))) \<and> unat us * 24 \<le> unat (counter B h1 - counter B h)"
proof -
  have us: "unat (us * 24) = unat us * 24" using assms(2) unat_word_ariths(2) [of us 24] by simp
  obtain h1 where h1: "delay_loop B (counter B h) (us * 24) (snd (time_csr B h)) = Some (Inr (snd (time_csr B h1)))"
    "us * 24 \<le> counter B h1 - counter B h"
    using delay_loop_waits [OF assms(1), of "us * 24"] assms(2) us by metis
  then show ?thesis
    using us by (intro exI [of _ h1]) (simp add: delay_us_def word_le_nat_alt case_prod_beta)
qed

text \<open>A bus without devices, whose counter counts its readings.\<close>

definition idle_bus :: "u64 bus" where
  "idle_bus = \<lparr>rd = (\<lambda>a h. (0, h)), wr = (\<lambda>a v h. h), time_csr = (\<lambda>h. (h, h + 1))\<rparr>"

lemma idle_bus_runs: "clock_runs idle_bus"
  by (simp add: clock_runs_def idle_bus_def)

theorem delay_us_waits_witness:
  "\<exists>h1. delay_us idle_bus 5 0xFFFFFFFFFFFFFFF0 = Some (Inr (snd (time_csr idle_bus h1))) \<and>
     unat (5 :: u64) * 24 \<le> unat (counter idle_bus h1 - counter idle_bus 0xFFFFFFFFFFFFFFF0)"
  using delay_us_waits [OF idle_bus_runs, of 5 "0xFFFFFFFFFFFFFFF0"] by simp

end
