(* ===== verification/Uart.thy ===== *)
theory Uart
  imports Gpio Device_Wait
begin

text \<open>
  The serial port (\<^verbatim>\<open>earth/modules/uart/uart.c\<close>): set-up of clock, pins and baud rate, and output and input of one
  character, which poll the line status. \<^verbatim>\<open>uart0_ctl\<close>, the address of the first port, is part of the state.
\<close>

unbundle bit_operations_syntax

section \<open>Registers\<close>

definition UART0_BASE :: u64 where "UART0_BASE = 0x02500000"
definition CCU_UART_BGR_REG :: u64 where "CCU_UART_BGR_REG = 0x02001000 + 0x90C"
definition CCM_UART_RST_OFFSET :: nat where "CCM_UART_RST_OFFSET = 16"
definition CCM_UART_GATING_OFFSET :: nat where "CCM_UART_GATING_OFFSET = 0"
definition PARITY :: u32 where "PARITY = 0"
definition STOP :: u32 where "STOP = 0"
definition DLEN :: u32 where "DLEN = 3"

text \<open>The registers of a port; some share an address.\<close>

datatype uart_reg = rbr | ier | fcr | lcr | mcr | lsr | msr | sch | thr | dll | dlh | iir | halt

primrec uart_control :: "uart_reg \<Rightarrow> u64" where
  "uart_control rbr = 0x00"
| "uart_control ier = 0x04"
| "uart_control fcr = 0x08"
| "uart_control lcr = 0x0C"
| "uart_control mcr = 0x10"
| "uart_control lsr = 0x14"
| "uart_control msr = 0x18"
| "uart_control sch = 0x1C"
| "uart_control thr = 0x00"
| "uart_control dll = 0x00"
| "uart_control dlh = 0x04"
| "uart_control iir = 0x08"
| "uart_control halt = 0xA4"

record 'h uart =
  uart0_ctl :: u64
  uart_hw :: 'h

section \<open>Set-up\<close>

definition uart_clock_init :: "'h bus \<Rightarrow> nat \<Rightarrow> 'h \<Rightarrow> 'h" where
  "uart_clock_init B port h =
     modl B CCU_UART_BGR_REG (set_bits (push_bit (CCM_UART_RST_OFFSET + port) 1))
       (modl B CCU_UART_BGR_REG (set_bits (push_bit (CCM_UART_GATING_OFFSET + port) 1)) h)"

text \<open>The two pins of a port on \<open>gpio_pb\<close>, and their function.\<close>

definition uart_pins :: "nat \<Rightarrow> (nat \<times> nat \<times> gpio_config_state) option" where
  "uart_pins port =
     (if port = 0 then Some (8, 9, gpio_config_function6)
      else if port = 1 then Some (8, 9, gpio_config_function7)
      else if port = 2 then Some (0, 1, gpio_config_function7)
      else if port = 3 then Some (6, 7, gpio_config_function7)
      else if port = 4 then Some (2, 3, gpio_config_function7)
      else if port = 5 then Some (4, 5, gpio_config_function7)
      else None)"

definition uart_config_gpio :: "'h bus \<Rightarrow> nat \<Rightarrow> 'h \<Rightarrow> 'h" where
  "uart_config_gpio B port h =
     (case uart_pins port of
        None \<Rightarrow> h
      | Some (a, b, f) \<Rightarrow>
          let h = gpio_set_config B gpio_pb a f h;
              h = gpio_set_config B gpio_pb b f h;
              h = gpio_set_pull B gpio_pb a gpio_pull_up h in
          gpio_set_pull B gpio_pb b gpio_pull_up h)"

text \<open>\<^verbatim>\<open>(24000000 + 8 * baud_rate) / (16 * baud_rate)\<close> in 32-bit signed arithmetic.\<close>

definition uart_clock_divisor :: "int \<Rightarrow> u32 res" where
  "uart_clock_divisor baud =
     (if baud = 0 then Inl (Undefined ''uart_init: division by zero'')
      else if \<bar>16 * baud\<bar> \<ge> 2 ^ 31 \<or> 24000000 + 8 * baud \<ge> 2 ^ 31 then Inl (Undefined ''uart_init: signed overflow'')
      else Inr (word_of_int (sgn (24000000 + 8 * baud) * sgn baud * (\<bar>24000000 + 8 * baud\<bar> div \<bar>16 * baud\<bar>))))"

definition uart_set_baud :: "'h bus \<Rightarrow> u64 \<Rightarrow> u32 \<Rightarrow> 'h \<Rightarrow> 'h" where
  "uart_set_baud B ctl d h =
     (let h = modl B (ctl + uart_control fcr) (set_bits 1) h;
          h = modl B (ctl + uart_control halt) (set_bits 1) h;
          h = modl B (ctl + uart_control lcr) (set_bits 0x80) h;
          h = wr B (ctl + uart_control dlh) (drop_bit 8 d AND 0xFF) h;
          h = wr B (ctl + uart_control dll) (d AND 0xFF) h in
      modl B (ctl + uart_control lcr) (clear_bits 0x80) h)"

definition uart_set_line :: "'h bus \<Rightarrow> u64 \<Rightarrow> 'h \<Rightarrow> 'h" where
  "uart_set_line B ctl h =
     (let h = wr B (ctl + uart_control lcr) (push_bit 3 (PARITY AND 3) OR push_bit 2 (STOP AND 1) OR (DLEN AND 3)) h;
          h = wr B (ctl + uart_control fcr) 7 h;
          h = wr B (ctl + uart_control mcr) 3 h in
      modl B (ctl + uart_control halt) (clear_bits 1) h)"

text \<open>The result is the address of the port, or 0.\<close>

definition uart_init :: "'h bus \<Rightarrow> int \<Rightarrow> bool \<Rightarrow> int \<Rightarrow> 'h uart \<Rightarrow> (u64 \<times> 'h uart) res" where
  "uart_init B port configure_gpio baud_rate s =
     (if \<not> (port \<ge> 0 \<and> port \<le> 5) then Inr (0, s)
      else
        let h = uart_clock_init B (nat port) (uart_hw s);
            h = (if configure_gpio then uart_config_gpio B (nat port) h else h);
            ctl = UART0_BASE + word_of_int port * 0x400 in
        bindE (uart_clock_divisor baud_rate) (\<lambda>d.
        let h = uart_set_line B ctl (uart_set_baud B ctl d h) in
        Inr (ctl, s\<lparr>uart_hw := h, uart0_ctl := (if port = 0 then ctl else uart0_ctl s)\<rparr>)))"

definition uart0_init :: "'h bus \<Rightarrow> int \<Rightarrow> 'h uart \<Rightarrow> 'h uart res" where
  "uart0_init B baud_rate s = bindE (uart_init B 0 True baud_rate s) (\<lambda>(_, s). Inr s)"

section \<open>Characters\<close>

definition uart_putc :: "'h bus \<Rightarrow> u64 \<Rightarrow> byte \<Rightarrow> 'h stmt" where
  "uart_putc B ctl c h =
     run [spin_until B (ctl + uart_control lsr) (push_bit 6 1), now (wr B (ctl + uart_control thr) (ucast c))] h"

definition uart_getc :: "'h bus \<Rightarrow> u64 \<Rightarrow> 'h \<Rightarrow> (byte \<times> 'h) res option" where
  "uart_getc B ctl h =
     bindO (spin_until B (ctl + uart_control lsr) 1 h) (\<lambda>h.
     case rd B (ctl + uart_control rbr) h of (v, h) \<Rightarrow> Some (Inr (ucast v, h)))"

definition uart_has_data :: "'h bus \<Rightarrow> u64 \<Rightarrow> 'h \<Rightarrow> u32 \<times> 'h" where
  "uart_has_data B ctl h = (case rd B (ctl + uart_control lsr) h of (v, h) \<Rightarrow> (v AND 1, h))"

definition uart0_putc :: "'h bus \<Rightarrow> byte \<Rightarrow> 'h uart \<Rightarrow> 'h uart res option" where
  "uart0_putc B c s = bindO (uart_putc B (uart0_ctl s) c (uart_hw s)) (\<lambda>h. Some (Inr (s\<lparr>uart_hw := h\<rparr>)))"

definition uart0_getc :: "'h bus \<Rightarrow> 'h uart \<Rightarrow> (byte \<times> 'h uart) res option" where
  "uart0_getc B s = bindO (uart_getc B (uart0_ctl s) (uart_hw s)) (\<lambda>(c, h). Some (Inr (c, s\<lparr>uart_hw := h\<rparr>)))"

definition uart0_has_data :: "'h bus \<Rightarrow> 'h uart \<Rightarrow> u32 \<times> 'h uart" where
  "uart0_has_data B s = (case uart_has_data B (uart0_ctl s) (uart_hw s) of (v, h) \<Rightarrow> (v, s\<lparr>uart_hw := h\<rparr>))"

definition uart_interrupt_enable_set :: "'h bus \<Rightarrow> u64 \<Rightarrow> u32 \<Rightarrow> 'h \<Rightarrow> 'h" where
  "uart_interrupt_enable_set B ctl = wr B (ctl + uart_control ier)"

definition uart_interrupt_enable_get :: "'h bus \<Rightarrow> u64 \<Rightarrow> 'h \<Rightarrow> u32 \<times> 'h" where
  "uart_interrupt_enable_get B ctl = rd B (ctl + uart_control ier)"

definition uart_get_interrupt_identity :: "'h bus \<Rightarrow> u64 \<Rightarrow> 'h \<Rightarrow> (u32 \<times> u32) \<times> 'h" where
  "uart_get_interrupt_identity B ctl h =
     (case rd B (ctl + uart_control iir) h of (v, h) \<Rightarrow> ((drop_bit 6 v AND 3, v AND 15), h))"

section \<open>The baud rate\<close>

text \<open>
  C30: The divisor of a baud rate between 23 and 1500000 is the nearest one: sixteen times the divisor times the
  baud rate differs from the 24 MHz of the clock by at most half a step, and it fits in the two divisor registers.
\<close>

theorem uart_divisor_nearest:
  assumes "23 \<le> baud" "baud \<le> 1500000"
  shows "\<exists>d. uart_clock_divisor baud = Inr d \<and> \<bar>16 * baud * uint d - 24000000\<bar> \<le> 8 * baud \<and> 0 < uint d \<and> uint d < 2 ^ 16"
proof -
  define d where "d = (24000000 + 8 * baud) div (16 * baud)"
  define r where "r = (24000000 + 8 * baud) mod (16 * baud)"
  have e: "24000000 + 8 * baud = 16 * baud * d + r" unfolding d_def r_def by simp
  have r: "0 \<le> r" "r < 16 * baud" using assms by (simp_all add: r_def)
  have "16 * baud \<le> 24000000 + 8 * baud" using assms by linarith
  then have d1: "1 \<le> d" unfolding d_def using assms pos_imp_zdiv_pos_iff [of "16 * baud" "24000000 + 8 * baud"] by linarith
  have "16 * baud * d < 16 * baud * 65536" using e r assms by linarith
  then have d2: "d < 2 ^ 16" using assms by simp
  have "uart_clock_divisor baud = Inr (word_of_int d)" using assms by (simp add: uart_clock_divisor_def d_def)
  moreover have "uint (word_of_int d :: u32) = d" using d1 d2 by (simp add: uint_word_of_int)
  moreover have "\<bar>16 * baud * d - 24000000\<bar> \<le> 8 * baud" using e r by linarith
  ultimately show ?thesis using d1 d2 by auto
qed

theorem uart_divisor_nearest_witness:
  "\<exists>d. uart_clock_divisor 115200 = Inr d \<and> \<bar>16 * 115200 * uint d - 24000000\<bar> \<le> 8 * 115200 \<and> 0 < uint d"
  using uart_divisor_nearest [of 115200] by auto

end
