(* ===== verification/Clock_Init.thy ===== *)
theory Clock_Init
  imports Device_Wait
begin

text \<open>
  The clock control unit (\<^verbatim>\<open>earth/modules/ccu/clock-init.c\<close>): the PLLs and bus clocks. Each PLL is enabled and then
  polled until it reports that it is stable.
\<close>

unbundle bit_operations_syntax

section \<open>Registers\<close>

definition CCU_BASE :: u64 where "CCU_BASE = 0x02001000"

datatype ccu_reg =
  CCU_PLL_CPU_CTRL_REG | CCU_PLL_PERI0_CTRL_REG | CCU_PLL_VIDEO0_CTRL_REG | CCU_PLL_VIDEO1_CTRL_REG | CCU_PLL_VE_CTRL
| CCU_PLL_AUDIO0_CTRL_REG | CCU_PLL_AUDIO1_CTRL_REG
| CCU_PSI_CLK_REG | CCU_APB0_CLK_REG | CCU_MBUS_CLK_REG | CCU_DMA_BGR_REG
| CCU_SDMMC0_CLK_REG | CCU_SDMMC2_CLK_REG | CCU_SMHC_BGR_REG | CCU_RISCV_CLK_REG

primrec ccu :: "ccu_reg \<Rightarrow> u64" where
  "ccu CCU_PLL_CPU_CTRL_REG = CCU_BASE + 0x000"
| "ccu CCU_PLL_PERI0_CTRL_REG = CCU_BASE + 0x020"
| "ccu CCU_PLL_VIDEO0_CTRL_REG = CCU_BASE + 0x040"
| "ccu CCU_PLL_VIDEO1_CTRL_REG = CCU_BASE + 0x048"
| "ccu CCU_PLL_VE_CTRL = CCU_BASE + 0x058"
| "ccu CCU_PLL_AUDIO0_CTRL_REG = CCU_BASE + 0x078"
| "ccu CCU_PLL_AUDIO1_CTRL_REG = CCU_BASE + 0x080"
| "ccu CCU_PSI_CLK_REG = CCU_BASE + 0x510"
| "ccu CCU_APB0_CLK_REG = CCU_BASE + 0x520"
| "ccu CCU_MBUS_CLK_REG = CCU_BASE + 0x540"
| "ccu CCU_DMA_BGR_REG = CCU_BASE + 0x70c"
| "ccu CCU_SDMMC0_CLK_REG = CCU_BASE + 0x830"
| "ccu CCU_SDMMC2_CLK_REG = CCU_BASE + 0x838"
| "ccu CCU_SMHC_BGR_REG = CCU_BASE + 0x84c"
| "ccu CCU_RISCV_CLK_REG = CCU_BASE + 0xd00"

section \<open>Operations\<close>

definition set_pll_cpux_axi :: "'h bus \<Rightarrow> 'h stmt" where
  "set_pll_cpux_axi B =
     (let clk = ccu CCU_RISCV_CLK_REG; pll = ccu CCU_PLL_CPU_CTRL_REG in
      run [now (wr B clk (push_bit 24 0 OR push_bit 8 3 OR push_bit 0 1)),
           delay_us B 1,
           now (modl B pll (clear_bits (push_bit 27 1))),
           now (modl B pll (set_bits (push_bit 30 1))),
           delay_us B 5,
           now (modl B pll (\<lambda>v. set_bits (push_bit 8 41) (clear_bits (push_bit 16 0x3 OR push_bit 8 0xff OR push_bit 0 0x3) v))),
           now (modl B pll (set_bits (push_bit 29 1))),
           now (modl B pll (set_bits (push_bit 31 1))),
           spin_until B pll (push_bit 28 0x1),
           delay_us B 20,
           now (modl B pll (set_bits (push_bit 27 1))),
           now (modl B pll (clear_bits (push_bit 29 1))),
           delay_us B 1,
           now (modl B clk (\<lambda>v. set_bits (push_bit 24 0x05 OR push_bit 8 0x1)
                              (clear_bits (push_bit 24 0x07 OR push_bit 8 0x3 OR push_bit 0 0xf) v))),
           delay_us B 1])"

definition set_pll_periph0 :: "'h bus \<Rightarrow> 'h stmt" where
  "set_pll_periph0 B h =
     (let pll = ccu CCU_PLL_PERI0_CTRL_REG in
      case rd B pll h of (v, h) \<Rightarrow>
      if v AND push_bit 31 1 \<noteq> 0 then Some (Inr h)
      else run [now (modl B (ccu CCU_PSI_CLK_REG) (clear_bits (push_bit 24 0x3))),
                now (wr B pll (push_bit 8 0x63)),
                now (modl B pll (set_bits (push_bit 29 1))),
                now (modl B pll (set_bits (push_bit 31 1))),
                spin_until B pll (push_bit 28 0x1),
                delay_us B 20,
                now (modl B pll (clear_bits (push_bit 29 1)))] h)"

definition set_ahb :: "'h bus \<Rightarrow> 'h stmt" where
  "set_ahb B =
     run [now (wr B (ccu CCU_PSI_CLK_REG) (push_bit 0 2 OR push_bit 8 0)),
          now (modl B (ccu CCU_PSI_CLK_REG) (set_bits (push_bit 24 0x03))),
          delay_us B 1]"

definition set_apb :: "'h bus \<Rightarrow> 'h stmt" where
  "set_apb B =
     run [now (wr B (ccu CCU_APB0_CLK_REG) (push_bit 0 2 OR push_bit 8 1)),
          now (modl B (ccu CCU_APB0_CLK_REG) (set_bits (push_bit 24 0x03))),
          delay_us B 1]"

definition set_dma :: "'h bus \<Rightarrow> 'h stmt" where
  "set_dma B =
     run [now (modl B (ccu CCU_DMA_BGR_REG) (set_bits (push_bit 16 1))),
          delay_us B 20,
          now (modl B (ccu CCU_DMA_BGR_REG) (set_bits (push_bit 0 1)))]"

definition set_mbus :: "'h bus \<Rightarrow> 'h stmt" where
  "set_mbus B = run [now (modl B (ccu CCU_MBUS_CLK_REG) (set_bits (push_bit 30 0x1))), delay_us B 1]"

definition set_module :: "'h bus \<Rightarrow> u64 \<Rightarrow> 'h stmt" where
  "set_module B a h =
     (case rd B a h of (v, h) \<Rightarrow>
      if v AND push_bit 31 1 = 0 then
        run [now (modl B a (\<lambda>v. v OR push_bit 31 1 OR push_bit 30 1)),
             now (modl B a (set_bits (push_bit 29 1))),
             spin_until B a (push_bit 28 0x1),
             delay_us B 20,
             now (modl B a (clear_bits (push_bit 29 1)))] h
      else Some (Inr h))"

definition clk_enable_module_uart :: "'h bus \<Rightarrow> u64 \<Rightarrow> nat \<Rightarrow> 'h \<Rightarrow> 'h" where
  "clk_enable_module_uart B a uart_num h =
     modl B a (set_bits (push_bit (16 + uart_num) 1)) (modl B a (set_bits (push_bit (0 + uart_num) 1)) h)"

definition sys_clock_init :: "'h bus \<Rightarrow> 'h stmt" where
  "sys_clock_init B =
     run [set_pll_cpux_axi B, set_pll_periph0 B, set_ahb B, set_apb B, set_dma B, set_mbus B,
          set_module B (ccu CCU_PLL_PERI0_CTRL_REG), set_module B (ccu CCU_PLL_VIDEO0_CTRL_REG),
          set_module B (ccu CCU_PLL_VIDEO1_CTRL_REG), set_module B (ccu CCU_PLL_VE_CTRL),
          set_module B (ccu CCU_PLL_AUDIO0_CTRL_REG), set_module B (ccu CCU_PLL_AUDIO1_CTRL_REG)]"

section \<open>The clocks come up\<close>

definition plls :: "u64 set" where
  "plls = ccu ` {CCU_PLL_CPU_CTRL_REG, CCU_PLL_PERI0_CTRL_REG, CCU_PLL_VIDEO0_CTRL_REG, CCU_PLL_VIDEO1_CTRL_REG,
     CCU_PLL_VE_CTRL, CCU_PLL_AUDIO0_CTRL_REG, CCU_PLL_AUDIO1_CTRL_REG}"

text \<open>A PLL locks: from every state, after finitely many loads of its register, it reports that it is stable.\<close>

definition after_reads :: "'h bus \<Rightarrow> u64 \<Rightarrow> nat \<Rightarrow> 'h \<Rightarrow> 'h" where
  "after_reads B a n h = ((\<lambda>h. snd (rd B a h)) ^^ n) h"

definition locks :: "'h bus \<Rightarrow> u64 \<Rightarrow> bool" where
  "locks B a \<longleftrightarrow> (\<forall>h. \<exists>n. fst (rd B a (after_reads B a n h)) AND push_bit 28 1 \<noteq> 0)"

lemma spin_after_reads:
  "fst (rd B a (after_reads B a n h)) AND m \<noteq> 0 \<Longrightarrow> returns (spin_until B a m h)"
proof (induction n arbitrary: h)
  case 0
  then show ?case by (simp add: spin_until.simps [of B a m h] after_reads_def returns_def case_prod_beta)
next
  case (Suc n)
  have "after_reads B a (Suc n) h = after_reads B a n (snd (rd B a h))"
    by (simp add: after_reads_def funpow_Suc_right del: funpow.simps)
  then have "returns (spin_until B a m (snd (rd B a h)))" using Suc by simp
  then show ?case by (simp add: spin_until.simps [of B a m h] returns_def case_prod_beta)
qed

lemma returns_spin: "locks B a \<Longrightarrow> returns (spin_until B a (push_bit 28 1) h)"
  using spin_after_reads unfolding locks_def by metis

lemma returns_set_module:
  assumes "clock_runs B" "locks B a" shows "returns (set_module B a h)"
  unfolding set_module_def by (intro returning returns_spin assms) simp

lemma returns_set_pll:
  assumes "clock_runs B" "\<And>a. a \<in> plls \<Longrightarrow> locks B a"
  shows "returns (set_pll_cpux_axi B h)" "returns (set_pll_periph0 B h)"
  unfolding set_pll_cpux_axi_def set_pll_periph0_def Let_def
  by (intro returning returns_spin assms; simp add: plls_def)+


text \<open>A clock unit that holds its registers and reports every PLL as stable.\<close>

definition pll_bus :: "(u64 \<times> (u64 \<Rightarrow> u32)) bus" where
  "pll_bus = \<lparr>rd = (\<lambda>a h. (snd h a OR push_bit 28 1, h)), wr = (\<lambda>a v (c, r). (c, r(a := v))),
     time_csr = (\<lambda>(c, r). (c, (c + 24, r)))\<rparr>"

lemma pll_bus_ok: "clock_runs pll_bus" "locks pll_bus a"
proof -
  show "clock_runs pll_bus" by (auto simp: clock_runs_def pll_bus_def)
  have "bit ((r OR push_bit 28 1) AND push_bit 28 1) 28" for r :: u32 by (simp add: bit_simps)
  then have "(r OR push_bit 28 1) AND push_bit 28 1 \<noteq> 0" for r :: u32 by (metis bit_0_eq bot_apply bot_bool_def)
  then show "locks pll_bus a" by (simp add: locks_def pll_bus_def after_reads_def)
qed


end
