(* ===== verification/Mmc_Host.thy ===== *)
theory Mmc_Host
  imports Mmc Gpio Clock_Init
begin

text \<open>
  The SD host controller driver (\<^verbatim>\<open>earth/modules/mmc/mmc_bsp.c\<close>, without the FPGA variant): clocks and delays, data
  transfer by the CPU and by DMA, commands and initialisation. The state holds \<^verbatim>\<open>mmc_host[0]\<close>, the only controller
  that the code initialises, and the hardware. Where two files have a function of the same name, the one of this file
  has the prefix \<open>bsp\<close>. Log output has no effect in the model.
\<close>

unbundle bit_operations_syntax

section \<open>State\<close>

record sunxi_mmc_host =
  reg :: u64
  mmc_no :: u32
  hclkrst :: u32
  hclkbase :: u32
  mclkbase :: u32
  database :: u32
  fatal_err :: u32
  pdes :: u64
  timing_mode :: u32
  mod_clk :: u32
  host_clock :: u32

record 'h bsp =
  smhc :: sunxi_mmc_host
  hw :: 'h

text \<open>The registers of the controller.\<close>

datatype (plugins only: code size) smhc_reg =
  gctrl | clkcr | r_timeout | width | r_blksz | bytecnt | r_cmd | r_arg | resp0 | resp1 | resp2 | resp3 | imask | mint
| rint | r_status | ftrglevel | funcsel | cbcr | bbcr | dbgc | csdc | a12a | ntsr | hwrst | dmac | dlba | idst | idie
| chda | cbda | thldc | sfc | dsbd | drv_dl | samp_dl | ds_dl | fifo

primrec sunxi_mmc :: "smhc_reg \<Rightarrow> u64" where
  "sunxi_mmc gctrl = 0x00"
| "sunxi_mmc clkcr = 0x04"
| "sunxi_mmc r_timeout = 0x08"
| "sunxi_mmc width = 0x0C"
| "sunxi_mmc r_blksz = 0x10"
| "sunxi_mmc bytecnt = 0x14"
| "sunxi_mmc r_cmd = 0x18"
| "sunxi_mmc r_arg = 0x1C"
| "sunxi_mmc resp0 = 0x20"
| "sunxi_mmc resp1 = 0x24"
| "sunxi_mmc resp2 = 0x28"
| "sunxi_mmc resp3 = 0x2C"
| "sunxi_mmc imask = 0x30"
| "sunxi_mmc mint = 0x34"
| "sunxi_mmc rint = 0x38"
| "sunxi_mmc r_status = 0x3C"
| "sunxi_mmc ftrglevel = 0x40"
| "sunxi_mmc funcsel = 0x44"
| "sunxi_mmc cbcr = 0x48"
| "sunxi_mmc bbcr = 0x4C"
| "sunxi_mmc dbgc = 0x50"
| "sunxi_mmc csdc = 0x54"
| "sunxi_mmc a12a = 0x58"
| "sunxi_mmc ntsr = 0x5C"
| "sunxi_mmc hwrst = 0x78"
| "sunxi_mmc dmac = 0x80"
| "sunxi_mmc dlba = 0x84"
| "sunxi_mmc idst = 0x88"
| "sunxi_mmc idie = 0x8C"
| "sunxi_mmc chda = 0x90"
| "sunxi_mmc cbda = 0x94"
| "sunxi_mmc thldc = 0x100"
| "sunxi_mmc sfc = 0x104"
| "sunxi_mmc dsbd = 0x10C"
| "sunxi_mmc drv_dl = 0x140"
| "sunxi_mmc samp_dl = 0x144"
| "sunxi_mmc ds_dl = 0x148"
| "sunxi_mmc fifo = 0x200"

text \<open>Loads and stores of a register of the controller, and operations on the hardware alone.\<close>

definition on_hw :: "('h \<Rightarrow> 'h) \<Rightarrow> 'h bsp \<Rightarrow> 'h bsp" where "on_hw f s = s\<lparr>hw := f (hw s)\<rparr>"

definition get_hw :: "('h \<Rightarrow> 'a \<times> 'h) \<Rightarrow> 'h bsp \<Rightarrow> 'a \<times> 'h bsp" where
  "get_hw f s = (case f (hw s) of (v, h) \<Rightarrow> (v, s\<lparr>hw := h\<rparr>))"

definition do_hw :: "'h stmt \<Rightarrow> 'h bsp stmt" where
  "do_hw f s = bindO (f (hw s)) (\<lambda>h. Some (Inr (s\<lparr>hw := h\<rparr>)))"

definition ask_hw :: "('h \<Rightarrow> ('a \<times> 'h) res option) \<Rightarrow> 'h bsp \<Rightarrow> ('a \<times> 'h bsp) res option" where
  "ask_hw f s = bindO (f (hw s)) (\<lambda>(v, h). Some (Inr (v, s\<lparr>hw := h\<rparr>)))"

definition reg_addr :: "'h bsp \<Rightarrow> smhc_reg \<Rightarrow> u64" where "reg_addr s r = reg (smhc s) + sunxi_mmc r"

definition rdr :: "'h bus \<Rightarrow> smhc_reg \<Rightarrow> 'h bsp \<Rightarrow> u32 \<times> 'h bsp" where
  "rdr B r s = get_hw (rd B (reg_addr s r)) s"

definition wrr :: "'h bus \<Rightarrow> smhc_reg \<Rightarrow> u32 \<Rightarrow> 'h bsp \<Rightarrow> 'h bsp" where
  "wrr B r v s = on_hw (wr B (reg_addr s r) v) s"

definition modr :: "'h bus \<Rightarrow> smhc_reg \<Rightarrow> (u32 \<Rightarrow> u32) \<Rightarrow> 'h bsp \<Rightarrow> 'h bsp" where
  "modr B r f s = on_hw (modl B (reg_addr s r) f) s"

definition mod_mclk :: "'h bus \<Rightarrow> (u32 \<Rightarrow> u32) \<Rightarrow> 'h bsp \<Rightarrow> 'h bsp" where
  "mod_mclk B f s = on_hw (modl B (ucast (mclkbase (smhc s))) f) s"

definition wr_mclk :: "'h bus \<Rightarrow> u32 \<Rightarrow> 'h bsp \<Rightarrow> 'h bsp" where
  "wr_mclk B v s = on_hw (wr B (ucast (mclkbase (smhc s))) v) s"

definition sunxi_r_op :: "'h bus \<Rightarrow> ('h bsp \<Rightarrow> 'h bsp) \<Rightarrow> 'h bsp \<Rightarrow> 'h bsp" where
  "sunxi_r_op B f s = mod_mclk B (set_bits (push_bit 31 1)) (f (mod_mclk B (clear_bits (push_bit 31 1)) s))"

abbreviation (input) SUNXI_MMC_TIMING_MODE_1 :: u32 where "SUNXI_MMC_TIMING_MODE_1 \<equiv> 1"
abbreviation (input) SUNXI_MMC_TIMING_MODE_3 :: u32 where "SUNXI_MMC_TIMING_MODE_3 \<equiv> 3"
abbreviation (input) SUNXI_MMC_TIMING_MODE_4 :: u32 where "SUNXI_MMC_TIMING_MODE_4 \<equiv> 4"

abbreviation (input) HS200_SDR104 :: u32 where "HS200_SDR104 \<equiv> 3"

abbreviation (input) CLK_400K :: u32 where "CLK_400K \<equiv> 0"
abbreviation (input) CLK_25M :: u32 where "CLK_25M \<equiv> 1"
abbreviation (input) CLK_50M :: u32 where "CLK_50M \<equiv> 2"
abbreviation (input) CLK_100M :: u32 where "CLK_100M \<equiv> 3"
abbreviation (input) CLK_150M :: u32 where "CLK_150M \<equiv> 4"
abbreviation (input) CLK_200M :: u32 where "CLK_200M \<equiv> 5"

abbreviation (input) SDXC_CfgDly :: u32 where "SDXC_CfgDly \<equiv> 0x3F"
abbreviation (input) SDXC_EnableDly :: u32 where "SDXC_EnableDly \<equiv> push_bit 7 1"

section \<open>Resources and clocks\<close>

definition mmc_resource_init :: "u32 \<Rightarrow> 'h bsp \<Rightarrow> int \<times> 'h bsp" where
  "mmc_resource_init sdc_no s =
     (let r = 0x04020000 + ucast (sdc_no * 0x1000);
          m = (smhc s)\<lparr>reg := r, database := ucast r + 0x200,
                hclkbase := ucast (ccu CCU_SMHC_BGR_REG), hclkrst := ucast (ccu CCU_SMHC_BGR_REG)\<rparr> in
      if sdc_no = 0 then (0, s\<lparr>smhc := m\<lparr>mclkbase := ucast (ccu CCU_SDMMC0_CLK_REG), mmc_no := sdc_no\<rparr>\<rparr>)
      else if sdc_no = 2 then (0, s\<lparr>smhc := m\<lparr>mclkbase := ucast (ccu CCU_SDMMC2_CLK_REG), mmc_no := sdc_no\<rparr>\<rparr>)
      else (-1, s\<lparr>smhc := m\<rparr>))"

definition mmc_pin :: "'h bus \<Rightarrow> nat \<Rightarrow> 'h \<Rightarrow> 'h" where
  "mmc_pin B pin h =
     gpio_write B gpio_pf pin 1
       (gpio_set_multi_driving B gpio_pf pin gpio_multi_driving_level2
         (gpio_set_pull B gpio_pf pin gpio_pull_up
           (gpio_set_config B gpio_pf pin gpio_config_function2 h)))"

definition mmc_clk_io_onoff :: "'h bus \<Rightarrow> nat \<Rightarrow> 'h bsp \<Rightarrow> 'h bsp" where
  "mmc_clk_io_onoff B sdc_no s =
     (let s = (if sdc_no = 0 then on_hw (fold (mmc_pin B) [0..<6]) s else s);
          s = on_hw (modl B (ucast (hclkbase (smhc s))) (set_bits (push_bit sdc_no 1))) s;
          s = on_hw (modl B (ucast (hclkrst (smhc s))) (set_bits (push_bit (16 + sdc_no) 1))) s;
          s = wr_mclk B 0x80000000 s in
      s\<lparr>smhc := (smhc s)\<lparr>mod_clk := 24000000\<rparr>\<rparr>)"

text \<open>The result is 0, or -1 when the controller does not take the clock before the deadline.\<close>

definition mmc_update_clk :: "'h bus \<Rightarrow> 'h bsp \<Rightarrow> (int \<times> 'h bsp) res option" where
  "mmc_update_clk B s =
     (case get_hw (deadline B 0xfffff) s of (timeout, s) \<Rightarrow>
      let s = modr B clkcr (set_bits (push_bit 31 1)) s;
          s = wrr B r_cmd (push_bit 31 1 OR push_bit 21 1 OR push_bit 13 1) s in
      bindO (do_hw (wait_while B (reg_addr s r_cmd) 0x80000000 timeout) s) (\<lambda>s.
      case rdr B r_cmd s of (v, s) \<Rightarrow>
      if v AND 0x80000000 \<noteq> 0 then Some (Inr (-1, s))
      else
        let s = modr B clkcr (clear_bits (push_bit 31 1)) s in
        case rdr B rint s of (v, s) \<Rightarrow> Some (Inr (0, wrr B rint v s))))"

definition bsp_update_phase :: "'h bus \<Rightarrow> 'h bsp \<Rightarrow> (int \<times> 'h bsp) res option" where
  "bsp_update_phase B s =
     (if timing_mode (smhc s) = SUNXI_MMC_TIMING_MODE_1 then mmc_update_clk B s else Some (Inr (0, s)))"

end
