(* ===== verification/Mmc_Clock.thy ===== *)
theory Mmc_Clock
  imports Mmc_Host
begin

text \<open>
  The clock and the bus of the card (\<^verbatim>\<open>earth/modules/mmc/mmc_bsp.c\<close>): delays, the module clock and its divider, and
  \<^verbatim>\<open>mmc_set_ios\<close>.
\<close>

unbundle bit_operations_syntax

section \<open>Timing parameters\<close>

text \<open>The fields of \<^verbatim>\<open>struct boot_sdmmc_private_info_t\<close> in the parameter region.\<close>

definition tm4_smx_fx :: "byte list \<Rightarrow> nat \<Rightarrow> u32" where "tm4_smx_fx b i = get32 b (12 + i)"

definition boot_mmc_cfg :: "byte list \<Rightarrow> nat \<Rightarrow> byte" where "boot_mmc_cfg b i = b ! (96 + i)"

abbreviation boot0_para :: "byte list \<Rightarrow> byte" where "boot0_para b \<equiv> boot_mmc_cfg b 0"
abbreviation boot_odly_50M :: "byte list \<Rightarrow> byte" where "boot_odly_50M b \<equiv> boot_mmc_cfg b 1"
abbreviation boot_sdly_50M :: "byte list \<Rightarrow> byte" where "boot_sdly_50M b \<equiv> boot_mmc_cfg b 2"
abbreviation boot_odly_50M_ddr :: "byte list \<Rightarrow> byte" where "boot_odly_50M_ddr b \<equiv> boot_mmc_cfg b 3"
abbreviation boot_sdly_50M_ddr :: "byte list \<Rightarrow> byte" where "boot_sdly_50M_ddr b \<equiv> boot_mmc_cfg b 4"
abbreviation boot_hs_f_max :: "byte list \<Rightarrow> byte" where "boot_hs_f_max b \<equiv> boot_mmc_cfg b 5"
abbreviation ext_para0 :: "byte list \<Rightarrow> u32" where "ext_para0 b \<equiv> get32 b 27"
abbreviation ext_para1 :: "byte list \<Rightarrow> u32" where "ext_para1 b \<equiv> get32 b 28"

text \<open>The branches return the result and the new delays, or the old ones \<open>d\<close> where the code leaves them.\<close>

definition tm4_internal :: "u32 \<Rightarrow> u32 \<Rightarrow> byte \<times> byte \<Rightarrow> int \<times> byte \<times> byte" where
  "tm4_internal spd_md_id freq_id d =
     (if spd_md_id = DS26_SDR12 then
        if freq_id \<le> CLK_25M then (0, 0, 2) else (-1, d)
      else if spd_md_id = HSSDR52_SDR25 then
        if freq_id \<le> CLK_25M then (0, 0, 3) else if freq_id = CLK_50M then (0, 0, 4) else (-1, d)
      else (-1, d))"

definition tm4_external :: "byte list \<Rightarrow> u32 \<Rightarrow> u32 \<Rightarrow> byte \<times> byte \<Rightarrow> int \<times> byte \<times> byte" where
  "tm4_external b spd_md_id freq_id d =
     (if spd_md_id = DS26_SDR12 then
        if freq_id \<le> CLK_25M then (0, 0, 2) else (-1, d)
      else if spd_md_id = HSSDR52_SDR25 then
        if freq_id \<le> CLK_25M then (0, 0, 3)
        else if freq_id = CLK_50M then (0, boot_odly_50M b, boot_sdly_50M b) else (-1, d)
      else if spd_md_id = HSDDR52_DDR50 then
        if freq_id \<le> CLK_25M then (0, 0, 2)
        else if freq_id = CLK_50M then (0, boot_odly_50M_ddr b, boot_sdly_50M_ddr b) else (-1, d)
      else (-1, d))"

definition tm4_default_dly :: "u32 \<Rightarrow> u32 \<Rightarrow> u32 \<Rightarrow> int \<times> u32" where
  "tm4_default_dly spd_md_id freq_id dly =
     (if spd_md_id = DS26_SDR12 then if freq_id \<le> CLK_25M then (0, 0) else (-1, dly)
      else if spd_md_id = HSSDR52_SDR25 then
        if freq_id \<le> CLK_25M then (0, 0) else if freq_id = CLK_50M then (0, 15) else (-1, dly)
      else if spd_md_id = HSDDR52_DDR50 then if freq_id \<le> CLK_25M then (0, 0) else (-1, dly)
      else (-1, dly))"

definition tm4_tuned :: "byte list \<Rightarrow> u32 \<Rightarrow> u32 \<Rightarrow> u32 \<Rightarrow> byte \<times> byte \<Rightarrow> int \<times> byte \<times> byte" where
  "tm4_tuned b sdc_no spd_md_id freq_id d =
     (if sdc_no \<noteq> 2 \<or> spd_md_id > 4 \<or> freq_id > 5 then (-1, d)
      else
        let spd_md_sdly = tm4_smx_fx b (unat spd_md_id * 2 + unat freq_id div 4);
            dly = drop_bit (unat freq_id mod 4 * 8) spd_md_sdly AND 0xff;
            (ret, dly) = (if dly = 0xff \<or> dly = 0 then tm4_default_dly spd_md_id freq_id dly else (0, dly)) in
        (ret, (if spd_md_id = HSDDR52_DDR50 then 1 else 0), ucast dly))"

definition mmc_get_timing_cfg_tm4 :: "byte list \<Rightarrow> u32 \<Rightarrow> u32 \<Rightarrow> u32 \<Rightarrow> byte \<times> byte \<Rightarrow> int \<times> byte \<times> byte" where
  "mmc_get_timing_cfg_tm4 b sdc_no spd_md_id freq_id d =
     (let para = (if region_magic b \<noteq> SDMMC_PARAMETER_MAGIC then 0 else boot0_para b) in
      if para AND 1 \<noteq> 0 then tm4_internal spd_md_id freq_id d
      else if para AND 2 \<noteq> 0 then tm4_external b spd_md_id freq_id d
      else tm4_tuned b sdc_no spd_md_id freq_id d)"

definition mmc_get_timing_cfg ::
    "byte list \<Rightarrow> u32 \<Rightarrow> u32 \<Rightarrow> u32 \<Rightarrow> u32 \<Rightarrow> byte \<times> byte \<Rightarrow> int \<times> byte \<times> byte" where
  "mmc_get_timing_cfg b tm sdc_no spd_md_id freq_id d =
     (if sdc_no = 2 \<and> tm = SUNXI_MMC_TIMING_MODE_4 then mmc_get_timing_cfg_tm4 b sdc_no spd_md_id freq_id d
      else if sdc_no = 0 \<and> tm = SUNXI_MMC_TIMING_MODE_1 then
        if spd_md_id \<le> HSSDR52_SDR25 \<and> freq_id \<le> CLK_50M then (0, 0, 0) else (-1, d)
      else (-1, d))"

section \<open>The module clock\<close>

text \<open>Twice the peripheral PLL in Hz, in 32-bit signed arithmetic.\<close>

definition get_pll_periph0 :: "u32 \<Rightarrow> nat" where
  "get_pll_periph0 v =
     (let factor_n = unat (drop_bit 8 v AND 0xff) + 1; factor_m = unat (drop_bit 1 v AND 1) + 1;
          factor_p0 = unat (drop_bit 16 v AND 7) + 1 in
      24 * factor_n div factor_m div factor_p0 div 2)"

definition pll_hz :: "u32 \<Rightarrow> u32 res" where
  "pll_hz v =
     (if get_pll_periph0 v * 2 * 1000000 \<ge> 2 ^ 31 then Inl (Undefined ''_get_pll_periph0: signed overflow'')
      else Inr (word_of_nat (get_pll_periph0 v * 2 * 1000000)))"

text \<open>The divider: the shift \<open>n\<close> and the factor \<open>m\<close>.\<close>

definition mclk_div :: "u32 \<Rightarrow> u32 \<times> u32" where
  "mclk_div d =
     (if d > 128 then (0, 1) else if d > 64 then (3, drop_bit 3 d) else if d > 32 then (2, drop_bit 2 d)
      else if d > 16 then (1, drop_bit 1 d) else (0, d))"

definition mclk_word :: "u32 \<Rightarrow> u32 \<Rightarrow> u32 \<Rightarrow> u32 res" where
  "mclk_word src sclk_hz clk_hz =
     (if 2 * clk_hz = 0 then Inl (Undefined ''mmc_set_mclk: division by zero'')
      else
        let d = (2 * sclk_hz + clk_hz) div (2 * clk_hz); (n, m) = mclk_div (if d = 0 then 1 else d) in
        Inr (push_bit 24 src OR push_bit 8 n OR (m - 1)))"

definition rd_pll :: "'h bus \<Rightarrow> 'h bsp \<Rightarrow> u32 \<times> 'h bsp" where
  "rd_pll B s = get_hw (rd B (ccu CCU_PLL_PERI0_CTRL_REG)) s"

definition mmc_set_mclk :: "'h bus \<Rightarrow> u32 \<Rightarrow> 'h bsp \<Rightarrow> 'h bsp res" where
  "mmc_set_mclk B clk_hz s =
     (if clk_hz \<le> 4000000 then bindE (mclk_word 0 24000000 clk_hz) (\<lambda>w. Inr (wr_mclk B w s))
      else
        case rd_pll B s of (v, s) \<Rightarrow>
        bindE (pll_hz v) (\<lambda>sclk_hz. bindE (mclk_word 2 sclk_hz clk_hz) (\<lambda>w. Inr (wr_mclk B w s))))"

definition mclk_rate :: "u32 \<Rightarrow> u32 \<Rightarrow> u32" where
  "mclk_rate sclk_hz v =
     sclk_hz div (push_bit (unat (drop_bit 8 v AND 3)) 1) div ((v AND 0xf) + 1)"

definition mmc_get_mclk :: "'h bus \<Rightarrow> 'h bsp \<Rightarrow> (u32 \<times> 'h bsp) res" where
  "mmc_get_mclk B s =
     (case get_hw (rd B (ucast (mclkbase (smhc s)))) s of (v, s) \<Rightarrow>
      let src = drop_bit 24 v AND 3 in
      if src = 0 then Inr (mclk_rate 24000000 v, s)
      else if src = 2 then
        case rd_pll B s of (p, s) \<Rightarrow> bindE (pll_hz p) (\<lambda>sclk_hz. Inr (mclk_rate sclk_hz v, s))
      else Inr (mclk_rate 0 v, s))"

section \<open>Delays\<close>

definition set_drv_dl :: "'h bus \<Rightarrow> byte \<Rightarrow> 'h bsp \<Rightarrow> 'h bsp" where
  "set_drv_dl B odly s =
     (case rdr B drv_dl s of (v, s) \<Rightarrow>
      let o1 = ucast odly AND 1 in
      sunxi_r_op B (wrr B drv_dl ((v AND NOT (push_bit 16 3)) OR (push_bit 16 o1 OR push_bit 17 o1))) s)"

definition set_dl :: "'h bus \<Rightarrow> smhc_reg \<Rightarrow> byte \<Rightarrow> 'h bsp \<Rightarrow> 'h bsp" where
  "set_dl B r dly = modr B r (\<lambda>v. (v AND NOT SDXC_CfgDly) OR ((ucast dly AND SDXC_CfgDly) OR SDXC_EnableDly))"

definition mmc_config_delay :: "'h bus \<Rightarrow> byte list \<Rightarrow> u32 \<Rightarrow> u32 \<Rightarrow> 'h bsp \<Rightarrow> int \<times> 'h bsp" where
  "mmc_config_delay B b spd_md_id freq_id s =
     (let mode = timing_mode (smhc s); cfg = mmc_get_timing_cfg b mode (mmc_no (smhc s)) in
      if mode = SUNXI_MMC_TIMING_MODE_1 then
        let s = set_drv_dl B 0 s in (0, modr B ntsr (clear_bits (push_bit 4 3)) s)
      else if mode = SUNXI_MMC_TIMING_MODE_3 then
        let s = set_drv_dl B 0 s in (0, set_dl B samp_dl 0 s)
      else if mode = SUNXI_MMC_TIMING_MODE_4 then
        let spd_md = (if spd_md_id = HS400 then HS200_SDR104 else spd_md_id);
            (e, odly, sdly) = cfg spd_md freq_id (0xff, 0xff) in
        if e \<noteq> 0 \<or> odly = 0xff \<or> sdly = 0xff then (-1, s)
        else
          let s = set_drv_dl B odly s; s = set_dl B samp_dl sdly s in
          if spd_md_id = HS400 then
            let (e, odly, dsdly) = cfg spd_md_id freq_id (0xff, 0xff) in
            if e \<noteq> 0 \<or> odly = 0xff \<or> dsdly = 0xff then (-1, s) else (0, set_dl B ds_dl dsdly s)
          else (0, s)
      else (0, s))"

section \<open>The card clock\<close>

text \<open>Whether the module clock is four times the card clock, and not twice.\<close>

definition quad_clock :: "u32 \<Rightarrow> mmc \<Rightarrow> bool" where
  "quad_clock mode m \<longleftrightarrow>
     speed_mode m = HSDDR52_DDR50 \<and>
     (mode = SUNXI_MMC_TIMING_MODE_1 \<or> mode = SUNXI_MMC_TIMING_MODE_3 \<or> mode = SUNXI_MMC_TIMING_MODE_4 \<and> bus_width m = 8)"

definition freq_point :: "u32 \<Rightarrow> u32" where
  "freq_point clk =
     (if clk \<le> 400000 then CLK_400K else if clk \<le> 26000000 then CLK_25M else if clk \<le> 52000000 then CLK_50M
      else if clk \<le> 100000000 then CLK_100M else if clk \<le> 150000000 then CLK_150M
      else if clk \<le> 200000000 then CLK_200M else CLK_25M)"

text \<open>The module clock is turned off, set and turned on again; the result is the card clock.\<close>

definition set_module_clock :: "'h bus \<Rightarrow> mmc \<Rightarrow> u32 \<Rightarrow> 'h bsp \<Rightarrow> (u32 \<times> 'h bsp) res" where
  "set_module_clock B m clk s =
     (let mode = timing_mode (smhc s); k = (if quad_clock mode m then 4 else 2);
          s = wr_mclk B 0 s;
          s = (if mode = SUNXI_MMC_TIMING_MODE_1 then modr B ntsr (set_bits (push_bit 31 1)) s else wrr B ntsr 0 s);
          s = s\<lparr>smhc := (smhc s)\<lparr>mod_clk := clk * k\<rparr>\<rparr> in
      bindE (mmc_set_mclk B (mod_clk (smhc s)) s) (\<lambda>s.
      bindE (mmc_get_mclk B s) (\<lambda>(c, s).
      let s = s\<lparr>smhc := (smhc s)\<lparr>host_clock := c div k\<rparr>\<rparr>;
          s = mod_mclk B (set_bits (push_bit 31 1)) s in
      Inr (c div k, modr B clkcr (\<lambda>v. (v AND NOT 0xFF) OR (if quad_clock mode m then 1 else 0)) s))))"

text \<open>The result is the return value and the new \<^verbatim>\<open>mmc->clock\<close>.\<close>

definition mmc_config_clock_modex :: "'h bus \<Rightarrow> byte list \<Rightarrow> mmc \<Rightarrow> u32 \<Rightarrow> 'h bsp \<Rightarrow> ((int \<times> u32) \<times> 'h bsp) res option" where
  "mmc_config_clock_modex B b m clk s =
     bindO (Some (set_module_clock B m clk s)) (\<lambda>(c, s).
     bindO (mmc_update_clk B s) (\<lambda>(e, s).
     if e \<noteq> 0 then Some (Inr ((-1, c), s))
     else case mmc_config_delay B b (speed_mode m) (freq_point clk) s of (_, s) \<Rightarrow> Some (Inr ((0, c), s))))"

definition mmc_config_clock :: "'h bus \<Rightarrow> byte list \<Rightarrow> mmc \<Rightarrow> u32 \<Rightarrow> 'h bsp \<Rightarrow> ((int \<times> u32) \<times> 'h bsp) res option" where
  "mmc_config_clock B b m clk s =
     (let clk = (if (speed_mode m = HSDDR52_DDR50 \<or> speed_mode m = HS400) \<and> clk > f_max_ddr m then f_max_ddr m else clk);
          s = modr B clkcr (clear_bits (push_bit 16 1)) s in
      bindO (mmc_update_clk B s) (\<lambda>(e, s).
      if e \<noteq> 0 then Some (Inr ((-1, clock m), s))
      else if timing_mode (smhc s) \<in> {SUNXI_MMC_TIMING_MODE_1, SUNXI_MMC_TIMING_MODE_3, SUNXI_MMC_TIMING_MODE_4} then
        bindO (mmc_config_clock_modex B b m clk s) (\<lambda>((_, c), s).
        let s = modr B clkcr (set_bits (push_bit 16 1)) s in
        bindO (mmc_update_clk B s) (\<lambda>(e, s). Some (Inr ((if e \<noteq> 0 then -1 else 0, c), s))))
      else Some (Inr ((-1, clock m), s))))"

section \<open>Bus modes\<close>

definition mmc_ddr_mode_onoff :: "'h bus \<Rightarrow> bool \<Rightarrow> 'h bsp \<Rightarrow> 'h bsp" where
  "mmc_ddr_mode_onoff B on s =
     (case rdr B gctrl s of (v, s) \<Rightarrow>
      let v = v AND NOT (push_bit 10 1);
          s = mod_mclk B (clear_bits (push_bit 31 1)) s;
          s = wrr B gctrl (if on then v OR push_bit 10 1 else v) s in
      mod_mclk B (set_bits (push_bit 31 1)) s)"

definition mmc_hs400_mode_onoff :: "'h bus \<Rightarrow> bool \<Rightarrow> 'h bsp \<Rightarrow> 'h bsp" where
  "mmc_hs400_mode_onoff B on s =
     (if mmc_no (smhc s) \<noteq> 2 then s
      else
        let s = modr B dsbd (\<lambda>v. (v AND NOT (push_bit 31 1)) OR (if on then push_bit 31 1 else 0)) s in
        modr B csdc (\<lambda>v. (v AND NOT 0xF) OR (if on then 0x6 else 0x3)) s)"

definition bsp_set_ios :: "'h bus \<Rightarrow> byte list \<Rightarrow> mmc \<Rightarrow> 'h bsp \<Rightarrow> (u32 \<times> 'h bsp) res option" where
  "bsp_set_ios B b m s =
     bindO (if clock m = 0 then Some (Inr ((0, clock m), s)) else mmc_config_clock B b m (clock m) s) (\<lambda>((e, c), s).
     if e \<noteq> 0 then Some (Inr (c, s\<lparr>smhc := (smhc s)\<lparr>fatal_err := 1\<rparr>\<rparr>))
     else
       let s = wrr B width (if bus_width m = 8 then 2 else if bus_width m = 4 then 1 else 0) s;
           s = mmc_ddr_mode_onoff B (speed_mode m = HSDDR52_DDR50) s in
       Some (Inr (c, mmc_hs400_mode_onoff B (speed_mode m = HS400) s)))"

section \<open>Host capabilities\<close>

text \<open>\<^verbatim>\<open>mmc_update_host_caps_r\<close> restricts the clocks by the parameters that the parameter region gives.\<close>

definition caps_f_max :: "byte list \<Rightarrow> u32 \<Rightarrow> u32 \<Rightarrow> mmc \<Rightarrow> mmc" where
  "caps_f_max b tm sdc_no m =
     (let bad = (\<lambda>(e, odly, sdly). e \<noteq> 0 \<or> odly = 0xff \<or> sdly = 0xff);
          c1 = mmc_get_timing_cfg b tm sdc_no 1 2 (0xff, 0xff);
          m = (if bad c1 then m\<lparr>f_max := 25000000\<rparr> else m);
          c2 = mmc_get_timing_cfg b tm sdc_no 2 2 (snd c1);
          m = (if bad c2 then m\<lparr>f_max_ddr := 25000000\<rparr> else m);
          x = ucast (boot_hs_f_max b);
          m = (if x \<noteq> 0 \<and> f_max_ddr m div 1000000 > x then m\<lparr>f_max_ddr := x * 1000000\<rparr> else m);
          m = (if x \<noteq> 0 \<and> f_max m div 1000000 > x then m\<lparr>f_max := x * 1000000\<rparr> else m) in
      if ext_para0 b AND 0xFF000000 \<noteq> EXT_PARA0_ID \<or> ext_para0 b AND EXT_PARA0_TUNING_SUCCESS_FLAG = 0
      then m\<lparr>f_max := 25000000, f_max_ddr := 25000000\<rparr> else m)"

definition mmc_update_host_caps_r :: "'h bus \<Rightarrow> byte list \<Rightarrow> u32 \<Rightarrow> mmc \<Rightarrow> 'h bsp \<Rightarrow> mmc \<times> 'h bsp" where
  "mmc_update_host_caps_r B b sdc_no m s =
     (let a = GPIO_BASE + GPIO_POW_MODE_REG;
          s' = (if ext_para1 b AND EXT_PARA1_1V8_GPIO_BIAS \<noteq> 0 then on_hw (modl B a (set_bits (push_bit 2 1))) s else s) in
      (caps_f_max b (timing_mode (smhc s)) sdc_no m, snd (get_hw (rd B a) s')))"

end
