(* ===== verification/Mmc_Transfer.thy ===== *)
theory Mmc_Transfer
  imports Mmc_Clock
begin

text \<open>
  Commands and data of the SD host controller (\<^verbatim>\<open>earth/modules/mmc/mmc_bsp.c\<close>): reset, transfer by the CPU and by DMA,
  \<^verbatim>\<open>mmc_send_cmd\<close> and the initialisation. The data buffer is memory on the bus, at the address \<open>dest\<close>.
\<close>

unbundle bit_operations_syntax

section \<open>Reset\<close>

definition release_reset :: "'h bus \<Rightarrow> 'h bsp stmt" where
  "release_reset B =
     run [now (wrr B r_timeout (push_bit 8 0xffffff OR 0xff)),
          now (wrr B thldc (push_bit 16 512 OR push_bit 2 1 OR push_bit 0 1)),
          now (wrr B csdc 3),
          now (wrr B dbgc 0xdeb),
          now (wrr B hwrst 1),
          now (wrr B hwrst 0),
          do_hw (delay_ms B 1),
          now (wrr B hwrst 1),
          do_hw (delay_ms B 1)]"

definition default_phase :: "'h bus \<Rightarrow> mmc \<Rightarrow> 'h bsp \<Rightarrow> 'h bsp" where
  "default_phase B m s =
     (let s = (if control_num m = 0 then modr B ntsr (set_bits (push_bit 31 1)) s
               else modr B samp_dl (\<lambda>v. (v AND NOT 0x3F) OR push_bit 7 1) s) in
      case rdr B drv_dl s of (v, s) \<Rightarrow> sunxi_r_op B (wrr B drv_dl v) s)"

definition mmc_core_init :: "'h bus \<Rightarrow> mmc \<Rightarrow> 'h bsp \<Rightarrow> (int \<times> 'h bsp) res option" where
  "mmc_core_init B m s =
     (case get_hw (deadline B 0xffff) s of (timeout, s) \<Rightarrow>
      let s = wrr B gctrl 7 s in
      bindO (ask_hw (wait_reset B (reg_addr s gctrl) 7 timeout) s) (\<lambda>(ok, s).
      if \<not> ok then Some (Inr (-1, s))
      else bindO (release_reset B s) (\<lambda>s. Some (Inr (0, default_phase B m s)))))"

section \<open>Transfer by the CPU\<close>

abbreviation byte_cnt :: "mmc_data \<Rightarrow> u32" where "byte_cnt d \<equiv> blocksize d * blocks d"

text \<open>The words of the buffer, in order; a transfer stops when the FIFO is not ready at the deadline.\<close>

fun cpu_loop :: "'h bus \<Rightarrow> bool \<Rightarrow> u64 \<Rightarrow> nat list \<Rightarrow> u32 \<Rightarrow> 'h bsp \<Rightarrow> (u32 \<times> 'h bsp) res option" where
  "cpu_loop B rd_dir dest [] timeout s = Some (Inr (timeout, s))"
| "cpu_loop B rd_dir dest (i # is) timeout s =
     (let busy = (if rd_dir then push_bit 2 1 else push_bit 3 1); a = dest + word_of_nat (4 * i);
          io = ucast (database (smhc s)) in
      bindO (do_hw (wait_while B (reg_addr s r_status) busy timeout) s) (\<lambda>s.
      case rdr B r_status s of (v, s) \<Rightarrow>
      if v AND busy \<noteq> 0 then Some (Inr (timeout, s))
      else
        let s = (case get_hw (rd B (if rd_dir then io else a)) s of (w, s) \<Rightarrow> on_hw (wr B (if rd_dir then a else io) w) s) in
        case get_hw (deadline B 0xffffff) s of (timeout, s) \<Rightarrow> cpu_loop B rd_dir dest is timeout s))"

definition mmc_trans_data_by_cpu :: "'h bus \<Rightarrow> u64 \<Rightarrow> mmc_data \<Rightarrow> 'h bsp \<Rightarrow> (int \<times> 'h bsp) res option" where
  "mmc_trans_data_by_cpu B dest d s =
     (case get_hw (deadline B 0xffffff) s of (timeout, s) \<Rightarrow>
      bindO (cpu_loop B (data_flags d AND MMC_DATA_READ \<noteq> 0) dest [0..<unat (drop_bit 2 (byte_cnt d))] timeout s) (\<lambda>(timeout, s).
      case get_hw (get_current_time_us B) s of (t, s) \<Rightarrow> Some (Inr (if t \<ge> ucast timeout then -1 else 0, s))))"

section \<open>Transfer by DMA\<close>

record sunxi_mmc_des =
  dic :: bool
  last_des :: bool
  first_des :: bool
  des_chain :: bool
  end_of_ring :: bool
  own :: bool
  data_buf1_sz :: u32
  buf_addr_ptr1 :: u32
  buf_addr_ptr2 :: u32

text \<open>A descriptor in memory: four words, the bit fields in the first one.\<close>

definition des_words :: "sunxi_mmc_des \<Rightarrow> u32 list" where
  "des_words d =
     [push_bit 1 (of_bool (dic d)) OR push_bit 2 (of_bool (last_des d)) OR push_bit 3 (of_bool (first_des d)) OR
        push_bit 4 (of_bool (des_chain d)) OR push_bit 5 (of_bool (end_of_ring d)) OR push_bit 31 (of_bool (own d)),
      data_buf1_sz d AND 0xffff, buf_addr_ptr1 d, buf_addr_ptr2 d]"

definition SDXC_DES_NUM_SHIFT :: nat where "SDXC_DES_NUM_SHIFT = 12"
definition SDXC_DES_BUFFER_MAX_LEN :: u32 where "SDXC_DES_BUFFER_MAX_LEN = push_bit SDXC_DES_NUM_SHIFT 1"

definition frag_count :: "u32 \<Rightarrow> u32" where
  "frag_count n = drop_bit SDXC_DES_NUM_SHIFT n + (if n AND (SDXC_DES_BUFFER_MAX_LEN - 1) \<noteq> 0 then 1 else 0)"

definition frag_remain :: "u32 \<Rightarrow> u32" where
  "frag_remain n =
     (if n AND (SDXC_DES_BUFFER_MAX_LEN - 1) \<noteq> 0 then n AND (SDXC_DES_BUFFER_MAX_LEN - 1) else SDXC_DES_BUFFER_MAX_LEN)"

definition make_des :: "u64 \<Rightarrow> u64 \<Rightarrow> u32 \<Rightarrow> nat \<Rightarrow> sunxi_mmc_des" where
  "make_des pd buff n i =
     (let final = (i = unat (frag_count n) - 1) in
      \<lparr>dic = \<not> final, last_des = final, first_des = (i = 0), des_chain = True, end_of_ring = final, own = True,
       data_buf1_sz = (if frag_count n > 1 \<and> \<not> final then SDXC_DES_BUFFER_MAX_LEN else frag_remain n),
       buf_addr_ptr1 = ucast (drop_bit 2 (buff + ucast (word_of_nat i * SDXC_DES_BUFFER_MAX_LEN))),
       buf_addr_ptr2 = (if final then 0 else ucast (drop_bit 2 (pd + 16 * word_of_nat (i + 1))))\<rparr>)"

fun store_words :: "'h bus \<Rightarrow> u64 \<Rightarrow> u32 list \<Rightarrow> 'h \<Rightarrow> 'h" where
  "store_words B a [] h = h"
| "store_words B a (w # ws) h = store_words B (a + 4) ws (wr B a w h)"

definition store_des :: "'h bus \<Rightarrow> u64 \<Rightarrow> u64 \<Rightarrow> u32 \<Rightarrow> nat \<Rightarrow> 'h \<Rightarrow> 'h" where
  "store_des B pd buff n i = store_words B (pd + 16 * word_of_nat i) (des_words (make_des pd buff n i))"

text \<open>The two cache operations of \<^verbatim>\<open>mmc.c\<close> that the code calls here have empty bodies.\<close>

definition mmc_trans_data_by_dma :: "'h bus \<Rightarrow> u64 \<Rightarrow> mmc_data \<Rightarrow> 'h bsp \<Rightarrow> (int \<times> 'h bsp) res option" where
  "mmc_trans_data_by_dma B buff d s =
     (let n = byte_cnt d; pd = pdes (smhc s);
          s = on_hw (fold (store_des B pd buff n) [0..<unat (frag_count n)]) s;
          s = modr B gctrl (\<lambda>v. v OR push_bit 5 1 OR push_bit 2 1) s in
      case get_hw (deadline B 0xffff) s of (timeout, s) \<Rightarrow>
      bindO (ask_hw (wait_reset B (reg_addr s gctrl) (push_bit 2 1) timeout) s) (\<lambda>(ok, s).
      if \<not> ok then Some (Inr (-1, s))
      else
        let s = wrr B dmac (push_bit 0 1) s in
        case get_hw (deadline B 0xffff) s of (timeout, s) \<Rightarrow>
        bindO (ask_hw (wait_reset B (reg_addr s dmac) (push_bit 0 1) timeout) s) (\<lambda>(ok, s).
        if \<not> ok then Some (Inr (-1, s))
        else
          let s = wrr B dmac (push_bit 1 1 OR push_bit 7 1) s;
              s = modr B idie (\<lambda>v. (v AND NOT 3) OR (if data_flags d AND MMC_DATA_WRITE \<noteq> 0 then push_bit 0 1 else push_bit 1 1)) s;
              s = wrr B dlba (ucast (drop_bit 2 pd)) s in
          Some (Inr (0, wrr B ftrglevel (push_bit 28 3 OR push_bit 16 15 OR 240) s)))))"

section \<open>Commands\<close>

definition cmd_word :: "mmc_cmd \<Rightarrow> mmc_data option \<Rightarrow> u32" where
  "cmd_word c d =
     (let v = 0x80000000;
          v = (if cmdidx c = 0 then v OR push_bit 15 1 else v);
          v = (if resp_type c AND MMC_RSP_PRESENT \<noteq> 0 then v OR push_bit 6 1 else v);
          v = (if resp_type c AND MMC_RSP_136 \<noteq> 0 then v OR push_bit 7 1 else v);
          v = (if resp_type c AND MMC_RSP_CRC \<noteq> 0 then v OR push_bit 8 1 else v) in
      (case d of
         Some d \<Rightarrow>
           let v = v OR (push_bit 9 1 OR push_bit 13 1);
               v = (if data_flags d AND MMC_DATA_WRITE \<noteq> 0 then v OR push_bit 10 1 else v) in
           if blocks d > 1 then v OR push_bit 12 1 else v
       | None \<Rightarrow>
           if cmdidx c = 12 \<and> cmd_flags c AND MMC_CMD_MANUAL \<noteq> 0
           then (v OR push_bit 14 1) AND NOT (push_bit 13 1) else v) OR cmdidx c)"

text \<open>The error of a status word; \<open>0xffffffff\<close> stands for a timeout.\<close>

definition status_error :: "u32 \<Rightarrow> u32 \<Rightarrow> u32" where
  "status_error m v = (if v AND m = 0 then 0xffffffff else v AND m)"

text \<open>The result of the start of a command is the error and whether DMA is in use.\<close>

definition issue_data :: "'h bus \<Rightarrow> u64 \<Rightarrow> mmc_cmd \<Rightarrow> mmc_data \<Rightarrow> 'h bsp \<Rightarrow> ((u32 \<times> bool) \<times> 'h bsp) res option" where
  "issue_data B dest c d s =
     (let go = wrr B r_cmd (cmd_word c (Some d)); usedma = (blocksize d * blocks d > 512) in
      bindO (if usedma then
               let s = modr B gctrl (clear_bits 0x80000000) s in
               bindO (mmc_trans_data_by_dma B dest d s) (\<lambda>(ret, s). Some (Inr (ret, go s)))
             else
               let s = modr B gctrl (set_bits 0x80000000) s in
               mmc_trans_data_by_cpu B dest d (go s)) (\<lambda>(ret, s).
      if ret \<noteq> 0 then case rdr B rint s of (v, s) \<Rightarrow> Some (Inr ((status_error 0xbbc2 v, usedma), s))
      else Some (Inr ((0, usedma), s))))"

definition issue_cmd :: "'h bus \<Rightarrow> u64 \<Rightarrow> mmc_cmd \<Rightarrow> mmc_data option \<Rightarrow> 'h bsp \<Rightarrow> ((u32 \<times> bool) \<times> 'h bsp) res option" where
  "issue_cmd B dest c data s =
     (case data of
        None \<Rightarrow> Some (Inr ((0, False), wrr B r_cmd (cmd_word c None) (wrr B r_arg (cmdarg c) s)))
      | Some d \<Rightarrow>
          if (ucast dest :: u32) AND 3 \<noteq> 0 then Some (Inr ((-1, False), s))
          else
            let s = wrr B r_blksz (blocksize d) s;
                s = wrr B bytecnt (blocks d * blocksize d) s in
            issue_data B dest c d (wrr B r_arg (cmdarg c) s))"

text \<open>Waiting for a register before a deadline; the result is 0 or the error.\<close>

definition await :: "'h bus \<Rightarrow> smhc_reg \<Rightarrow> u32 \<Rightarrow> u32 \<Rightarrow> (u32 \<Rightarrow> bool) \<Rightarrow> u64 \<Rightarrow> 'h bsp \<Rightarrow> (u32 \<times> 'h bsp) res option" where
  "await B r stop errs fin d s =
     (case get_hw (deadline B d) s of (timeout, s) \<Rightarrow>
      bindO (ask_hw (wait_status B (reg_addr s r) stop fin timeout) s) (\<lambda>((v, ok), s).
      Some (Inr (if ok then 0 else status_error errs v, s))))"

text \<open>The goto: a step is skipped when there is an error.\<close>

definition unless_error :: "(u32 \<times> 's) res option \<Rightarrow> ('s \<Rightarrow> (u32 \<times> 's) res option) \<Rightarrow> (u32 \<times> 's) res option" where
  "unless_error m f = bindO m (\<lambda>(e, s). if e \<noteq> 0 then Some (Inr (e, s)) else f s)"

definition await_data :: "'h bus \<Rightarrow> bool \<Rightarrow> mmc_data option \<Rightarrow> 'h bsp \<Rightarrow> (u32 \<times> 'h bsp) res option" where
  "await_data B usedma data s =
     (case data of
        None \<Rightarrow> Some (Inr (0, s))
      | Some d \<Rightarrow>
          unless_error (await B rint 0xbbc2 0xbbc2 (\<lambda>v. v AND (if blocks d > 1 then push_bit 14 1 else push_bit 3 1) \<noteq> 0)
                          (if usedma then 0xffffff else 0xffff) s) (\<lambda>s.
          if data_flags d AND MMC_DATA_READ \<noteq> 0 \<and> usedma
          then await B idst 0x234 0x1E34 (\<lambda>v. v AND push_bit 1 1 \<noteq> 0) 0xffffff s else Some (Inr (0, s))))"

definition await_cmd :: "'h bus \<Rightarrow> mmc_cmd \<Rightarrow> bool \<Rightarrow> mmc_data option \<Rightarrow> 'h bsp \<Rightarrow> (u32 \<times> 'h bsp) res option" where
  "await_cmd B c usedma data s =
     unless_error (await B rint 0xbbc2 0xbbc2 (\<lambda>v. v AND 0x4 \<noteq> 0) 0xffffff s) (\<lambda>s.
     unless_error (await_data B usedma data s) (\<lambda>s.
     if resp_type c AND MMC_RSP_BUSY \<noteq> 0
     then await B r_status 0 0 (\<lambda>v. v AND push_bit 9 1 = 0) 0x4ffffff s else Some (Inr (0, s))))"

definition read_response :: "'h bus \<Rightarrow> mmc_cmd \<Rightarrow> 'h bsp \<Rightarrow> u32 list \<times> 'h bsp" where
  "read_response B c s =
     (if resp_type c AND MMC_RSP_136 \<noteq> 0 then
        case rdr B resp3 s of (a, s) \<Rightarrow> case rdr B resp2 s of (b, s) \<Rightarrow>
        case rdr B resp1 s of (c, s) \<Rightarrow> case rdr B resp0 s of (d, s) \<Rightarrow> ([a, b, c, d], s)
      else case rdr B resp0 s of (a, s) \<Rightarrow> ([a], s))"

definition stop_dma :: "'h bus \<Rightarrow> 'h bsp \<Rightarrow> 'h bsp" where
  "stop_dma B s =
     (case rdr B idst s of (v, s) \<Rightarrow>
      modr B gctrl (clear_bits (push_bit 5 1)) (wrr B dmac 0 (wrr B idie 0 (wrr B idst v s))))"

text \<open>The label \<^verbatim>\<open>out\<close>.\<close>

definition end_cmd :: "'h bus \<Rightarrow> u32 \<Rightarrow> bool \<Rightarrow> 'h bsp \<Rightarrow> (int \<times> 'h bsp) res option" where
  "end_cmd B error usedma s =
     (let s = (if usedma then stop_dma B s else s) in
      if error = 0 then Some (Inr (0, wrr B rint 0xffffffff s))
      else
        case get_hw (deadline B 0xffff) (wrr B gctrl 7 s) of (timeout, s) \<Rightarrow>
        bindO (ask_hw (wait_reset B (reg_addr s gctrl) 7 timeout) s) (\<lambda>(ok, s).
        if \<not> ok then Some (Inr (-1, s))
        else bindO (mmc_update_clk B s) (\<lambda>(_, s). Some (Inr (-1, wrr B rint 0xffffffff s)))))"

definition bsp_send_cmd ::
    "'h bus \<Rightarrow> u64 \<Rightarrow> mmc_cmd \<Rightarrow> mmc_data option \<Rightarrow> 'h bsp \<Rightarrow> ((int \<times> u32 list) \<times> 'h bsp) res option" where
  "bsp_send_cmd B dest c data s =
     (if fatal_err (smhc s) \<noteq> 0 then Some (Inr ((-1, []), s))
      else if cmdidx c = 12 \<and> cmd_flags c AND MMC_CMD_MANUAL = 0 then Some (Inr ((0, []), s))
      else
        bindO (issue_cmd B dest c data s) (\<lambda>((e, usedma), s).
        bindO (if e \<noteq> 0 then Some (Inr (e, s)) else await_cmd B c usedma data s) (\<lambda>(e, s).
        case (if e = 0 then read_response B c s else ([], s)) of (r, s) \<Rightarrow>
        bindO (end_cmd B e usedma s) (\<lambda>(x, s). Some (Inr ((x, r), s))))))"

end
