(* ===== verification/Mmc_Board.thy ===== *)
theory Mmc_Board
  imports Mmc_Transfer Fs_Disk
begin

text \<open>
  The controller driver below the SD core: the function pointers that \<^verbatim>\<open>sunxi_mmc_init\<close> stores in \<^verbatim>\<open>struct mmc\<close>, the
  initialisation of the card, and \<^verbatim>\<open>disk_init\<close>. \<open>dest\<close> is the address of the data buffer, \<open>b\<close> the parameter region.
\<close>

unbundle bit_operations_syntax

section \<open>The function pointers\<close>

text \<open>The bytes of the buffer after a transfer.\<close>

fun load_words :: "'h bus \<Rightarrow> u64 \<Rightarrow> nat \<Rightarrow> 'h \<Rightarrow> byte list \<times> 'h" where
  "load_words B a 0 h = ([], h)"
| "load_words B a (Suc n) h =
     (case rd B a h of (w, h) \<Rightarrow> case load_words B (a + 4) n h of (bs, h) \<Rightarrow>
      (map (byte_of w) [0..<4] @ bs, h))"

definition bsp_ops :: "'h bus \<Rightarrow> u64 \<Rightarrow> byte list \<Rightarrow> 'h bsp mmc_ops" where
  "bsp_ops B dest b =
     \<lparr>send_cmd_fn = (\<lambda>m c data s.
        bindE (stop_or (bsp_send_cmd B dest c data s)) (\<lambda>((e, r), s).
        case data of
          None \<Rightarrow> Inr ((e, r, []), s)
        | Some d \<Rightarrow>
            case get_hw (load_words B dest (unat (drop_bit 2 (byte_cnt d)))) s of (bs, s) \<Rightarrow> Inr ((e, r, bs), s))),
      set_ios_fn = (\<lambda>m s. stop_or (bsp_set_ios B b m s)),
      init_fn = (\<lambda>m s. stop_or (mmc_core_init B m s)),
      update_phase_fn = Some (\<lambda>m s. stop_or (bsp_update_phase B s)),
      host_caps_r_fn = (\<lambda>b m s. Inr (mmc_update_host_caps_r B b (control_num m) m s))\<rparr>"

section \<open>Initialisation\<close>

definition mmc_zero :: mmc where
  "mmc_zero = \<lparr>voltages = 0, version = 0, has_init = False, control_num = 0, f_min = 0, f_max = 0, f_max_ddr = 0,
     high_capacity = False, bus_width = 0, clock = 0, card_caps = 0, host_caps = 0, ocr = 0, scr = [0, 0],
     csd = [0, 0, 0, 0], cid = [0, 0, 0, 0], rca = 0, part_config = 0, part_num = 0, tran_speed = 0, read_bl_len = 0,
     write_bl_len = 0, erase_grp_size = 0, capacity = 0, b_max = 0, lba = 0, blksz = 0, speed_mode = 0\<rparr>"

definition host_zero :: sunxi_mmc_host where
  "host_zero = \<lparr>reg = 0, mmc_no = 0, hclkrst = 0, hclkbase = 0, mclkbase = 0, database = 0, fatal_err = 0, pdes = 0,
     timing_mode = 0, mod_clk = 0, host_clock = 0\<rparr>"

text \<open>The device as \<^verbatim>\<open>sunxi_mmc_init\<close> sets it up for controller 0.\<close>

definition init_dev :: "u32 \<Rightarrow> mmc" where
  "init_dev bw = mmc_zero\<lparr>
     voltages := MMC_VDD_29_30 OR MMC_VDD_30_31 OR MMC_VDD_31_32 OR MMC_VDD_32_33 OR MMC_VDD_33_34 OR MMC_VDD_34_35 OR MMC_VDD_35_36,
     host_caps := MMC_MODE_HS_52MHz OR MMC_MODE_HS OR MMC_MODE_HC OR (if bw \<ge> 4 then MMC_MODE_4BIT else 0),
     f_min := 400000, f_max := 50000000, f_max_ddr := 50000000, control_num := 0\<rparr>"

definition init_host :: sunxi_mmc_host where
  "init_host = host_zero\<lparr>timing_mode := SUNXI_MMC_TIMING_MODE_1, pdes := 0x42000000\<rparr>"

definition sunxi_mmc_init ::
    "'h bus \<Rightarrow> u64 \<Rightarrow> byte list \<Rightarrow> int \<Rightarrow> u32 \<Rightarrow> 'h \<Rightarrow> 'h bsp mmcs option list \<Rightarrow> (int \<times> 'h bsp mmcs option list) res" where
  "sunxi_mmc_init B dest b n bw h devs =
     (if n \<noteq> 0 then Inl (Fatal ''Only SMHC0 (Secure Digital Memory v3.0) is supported on the D1'')
      else
        case mmc_resource_init 0 \<lparr>smhc = init_host, hw = h\<rparr> of (e, s) \<Rightarrow>
        if e \<noteq> 0 then Inr (-1, devs)
        else
          let s = mmc_clk_io_onoff B 0 s in
          bindE (mmc_register (bsp_ops B dest b) n \<lparr>dev = init_dev bw, host = s, mmc_arg_addr = b\<rparr> devs) (\<lambda>(ret, devs).
          Inr (if ret < 0 then -1 else case devs ! 0 of None \<Rightarrow> 0 | Some s \<Rightarrow> sint (lba (dev s)), devs)))"

definition sunxi_mmc_exit ::
    "'h bus \<Rightarrow> int \<Rightarrow> 'h bsp \<Rightarrow> 'h bsp mmcs option list \<Rightarrow> ((int \<times> 'h bsp) \<times> 'h bsp mmcs option list) res" where
  "sunxi_mmc_exit B n s devs =
     (let s = mmc_clk_io_onoff B (nat n) s in
      bindE (mmc_unregister n devs) (\<lambda>(_, devs). Inr ((0, s\<lparr>smhc := host_zero\<rparr>), devs)))"

definition sdc_bus_width :: u32 where "sdc_bus_width = 4"

definition disk_init ::
    "'h bus \<Rightarrow> u64 \<Rightarrow> byte list \<Rightarrow> 'h \<Rightarrow> 'h bsp mmcs option list \<Rightarrow> 'h bsp mmcs option list res" where
  "disk_init B dest b h devs = bindE (sunxi_mmc_init B dest b sdc_no sdc_bus_width h devs) (\<lambda>(_, devs). Inr devs)"

end
