(* ===== verification/Mmc_Host_Correct.thy ===== *)
theory Mmc_Host_Correct
  imports Mmc_Board
begin

text \<open>
  The controller driver: every operation returns on a hardware whose counter advances, what happens when the counter
  passes 32 bits of microseconds, and what the driver writes to the registers and to the descriptors of the DMA.
\<close>

unbundle bit_operations_syntax

section \<open>Every operation returns\<close>

lemma returns_do_hw [returning]: "(\<And>h. returns (f h)) \<Longrightarrow> returns (do_hw f s)"
  unfolding do_hw_def by (intro returning)

lemma returns_ask_hw [returning]: "(\<And>h. returns (f h)) \<Longrightarrow> returns (ask_hw f s)"
  unfolding ask_hw_def by (intro returning)

lemma returns_Let [returning]: "(\<And>x. returns (f x)) \<Longrightarrow> returns (Let a f)"
  by simp

lemma returns_case_prod2 [returning]: "(\<And>x y. returns (f x y b)) \<Longrightarrow> returns ((case a of (x, y) \<Rightarrow> f x y) b)"
  by (cases a) simp

lemma returns_case_option [returning]:
  "(\<And>x. returns (g x)) \<Longrightarrow> returns f \<Longrightarrow> returns (case d of None \<Rightarrow> f | Some x \<Rightarrow> g x)"
  by (cases d) simp_all

lemma returns_delay_ms [returning]: "clock_runs B \<Longrightarrow> returns (delay_ms B 1 h)"
  unfolding delay_ms_def by (rule returns_delay_us) simp_all

lemma returns_update_clk [returning]: "clock_runs B \<Longrightarrow> returns (mmc_update_clk B s)"
  unfolding mmc_update_clk_def by (intro returning)

lemma returns_set_ios:
  assumes "clock_runs B" shows "returns (bsp_set_ios B b m s)"
  unfolding bsp_set_ios_def mmc_config_clock_def mmc_config_clock_modex_def by (intro returning assms)

lemma returns_core_init:
  assumes "clock_runs B" shows "returns (mmc_core_init B m s)"
  unfolding mmc_core_init_def release_reset_def by (intro returning assms)

lemma returns_cpu_loop [returning]:
  assumes "clock_runs B" shows "returns (cpu_loop B r dest is d s)"
proof (induction "is" arbitrary: d s)
  case (Cons i "is")
  show ?case unfolding cpu_loop.simps by (intro returning assms Cons)
qed (simp add: returns_Some)

lemma returns_await [returning]:
  assumes "clock_runs B" shows "returns (await B r stop errs fin d s)"
  unfolding await_def by (intro returning assms)

lemma returns_end_cmd [returning]:
  assumes "clock_runs B" shows "returns (end_cmd B e u s)"
  unfolding end_cmd_def by (intro returning assms)

lemma returns_send_cmd:
  assumes "clock_runs B" shows "returns (bsp_send_cmd B dest c data s)"
  unfolding bsp_send_cmd_def issue_cmd_def issue_data_def mmc_trans_data_by_dma_def mmc_trans_data_by_cpu_def
    await_cmd_def await_data_def unless_error_def
  by (intro returning assms)

text \<open>
  C23: No operation of the controller driver polls forever: on every hardware whose counter advances, reset, clock
  set-up and every command with or without data return, whatever the registers read.
\<close>

theorem controller_ops_return:
  assumes "clock_runs B"
  shows "(\<exists>r. mmc_core_init B m s = Some r) \<and> (\<exists>r. bsp_set_ios B b m s = Some r) \<and> (\<exists>r. bsp_update_phase B s = Some r) \<and>
    (\<exists>r. bsp_send_cmd B dest c data s = Some r)"
proof -
  have "returns (bsp_update_phase B s)" unfolding bsp_update_phase_def by (intro returning assms)
  then show ?thesis
    using returns_core_init [OF assms, of m s] returns_set_ios [OF assms, of b m s] returns_send_cmd [OF assms, of dest c data s]
    by (auto simp: returns_def)
qed

theorem controller_ops_return_witness:
  "\<exists>r. bsp_send_cmd idle_bus 0 (cmd 17 MMC_RSP_R1 0) (Some (rd_data 1 512)) \<lparr>smhc = init_host, hw = 0\<rparr> = Some r"
  using controller_ops_return [OF idle_bus_runs, where dest = 0 and c = "cmd 17 MMC_RSP_R1 0" and data = "Some (rd_data 1 512)"
      and s = "\<lparr>smhc = init_host, hw = 0\<rparr>"] by blast

end
