(* ===== verification/Mmc_Late.thy ===== *)
theory Mmc_Late
  imports Mmc_Host_Correct
begin

text \<open>
  The deadlines of the controller driver are kept in 32 bits, but the time has 64 bits. From \<open>2 ^ 32\<close> microseconds on,
  71 minutes and 35 seconds after the start, every deadline has passed when it is set.
\<close>

unbundle bit_operations_syntax

definition late :: "'h bus \<Rightarrow> 'h \<Rightarrow> bool" where
  "late B h \<longleftrightarrow> 24 * 2 ^ 32 \<le> unat (counter B h)"

lemma late_step:
  assumes "clock_monotone B" "late B h"
  shows "late B (snd (time_csr B h))" "late B (snd (rd B a h))" "late B (wr B a v h)"
  using assms unfolding clock_monotone_def late_def word_le_nat_alt by (meson order_trans)+

lemma late_us:
  fixes d :: u32
  assumes "late B h" shows "ucast d < counter B h div 24"
proof -
  have "2 ^ 32 \<le> unat (counter B h) div 24" using assms by (simp add: late_def less_eq_div_iff_mult_less_eq)
  moreover have "unat d < 2 ^ 32" using unsigned_less [of d, where ?'a = nat] by simp
  ultimately show ?thesis by (simp add: word_less_nat_alt unat_ucast_64 unat_div_distrib)
qed

lemma late_loops:
  assumes "clock_monotone B" "late B h"
  shows "\<exists>h'. wait_while B a m d h = Some (Inr h') \<and> late B h'"
    "\<exists>ok h'. wait_reset B a m d h = Some (Inr (ok, h')) \<and> late B h'"
    "\<exists>v h'. wait_status B a e fin d h = Some (Inr ((v, False), h')) \<and> late B h'"
proof -
  have l: "late B (snd (rd B a h))" "late B (snd (time_csr B (snd (rd B a h))))"
    using late_step [OF assms(1)] assms(2) by blast+
  have t: "ucast d < counter B (snd (rd B a h)) div 24" by (rule late_us [OF l(1)])
  show "\<exists>h'. wait_while B a m d h = Some (Inr h') \<and> late B h'"
    using l order.strict_implies_not_eq [OF t] less_not_sym [OF t] unfolding wait_while.simps [of B a m d h] by (simp add: get_current_time_us_def case_prod_beta)
  show "\<exists>ok h'. wait_reset B a m d h = Some (Inr (ok, h')) \<and> late B h'"
    using l t unfolding wait_reset.simps [of B a m d h] by (auto simp: get_current_time_us_def case_prod_beta)
  show "\<exists>v h'. wait_status B a e fin d h = Some (Inr ((v, False), h')) \<and> late B h'"
    using l t unfolding wait_status.simps [of B a e fin d h] by (simp add: get_current_time_us_def case_prod_beta)
qed

text \<open>An operation that ends late, with a result that satisfies \<open>P\<close>.\<close>

definition ends :: "'h bus \<Rightarrow> ('a \<Rightarrow> bool) \<Rightarrow> ('a \<times> 'h bsp) res option \<Rightarrow> bool" where
  "ends B P m \<longleftrightarrow> (\<exists>r s'. m = Some (Inr (r, s')) \<and> P r \<and> late B (hw s'))"

lemma ends_bind: "ends B P m \<Longrightarrow> (\<And>r s. P r \<Longrightarrow> late B (hw s) \<Longrightarrow> ends B Q (f (r, s))) \<Longrightarrow> ends B Q (bindO m f)"
  unfolding ends_def by fastforce

lemma ends_Some: "P r \<Longrightarrow> late B (hw s) \<Longrightarrow> ends B P (Some (Inr (r, s)))"
  by (simp add: ends_def)

lemma ends_prod: "late B (hw s) \<Longrightarrow> late B (hw (snd (g s))) \<Longrightarrow> (\<And>a s. late B (hw s) \<Longrightarrow> ends B Q (f a s)) \<Longrightarrow> ends B Q (case g s of (a, s) \<Rightarrow> f a s)"
  by (cases "g s") simp

lemma late_ops [simp]:
  assumes "clock_monotone B" "late B (hw s)"
  shows "late B (hw (wrr B r v s))" "late B (hw (modr B r f s))" "late B (hw (snd (rdr B r s)))"
    "late B (hw (snd (get_hw (deadline B d) s)))" "late B (hw (snd (get_hw (get_current_time_us B) s)))"
    "late B (hw (snd (get_hw (rd B a) s)))" "late B (hw (on_hw (wr B a v) s))"
  using assms(2) late_step [OF assms(1)]
  by (simp_all add: wrr_def modr_def rdr_def on_hw_def get_hw_def modl_def deadline_def get_current_time_us_def case_prod_beta)

lemma late_mclk [simp]:
  assumes "clock_monotone B" "late B (hw s)"
  shows "late B (hw (wr_mclk B v s))" "late B (hw (mod_mclk B f s))"
  using assms(2) late_step [OF assms(1)] by (simp_all add: wr_mclk_def mod_mclk_def on_hw_def modl_def case_prod_beta)

lemma ends_wait_reset:
  assumes "clock_monotone B" "late B (hw s)" shows "ends B (\<lambda>_. True) (ask_hw (wait_reset B a m d) s)"
proof -
  obtain ok h' where "wait_reset B a m d (hw s) = Some (Inr (ok, h'))" "late B h'" using late_loops(2) [OF assms] by blast
  then show ?thesis by (simp add: ends_def ask_hw_def)
qed

lemma ends_wait_while:
  assumes "clock_monotone B" "late B (hw s)" "\<And>s. late B (hw s) \<Longrightarrow> ends B P (f s)"
  shows "ends B P (bindO (do_hw (wait_while B a m d) s) f)"
proof -
  obtain h' where "wait_while B a m d (hw s) = Some (Inr h')" "late B h'" using late_loops(1) [OF assms(1,2)] by blast
  then show ?thesis using assms(3) by (simp add: do_hw_def)
qed

lemma ends_await:
  fixes B :: "'h bus"
  assumes "clock_monotone B" "late B (hw s)"
  shows "ends B (\<lambda>e. e \<noteq> 0) (await B r stop errs fin d s)"
  unfolding await_def
proof (rule ends_prod [OF assms(2)])
  fix t and s1 :: "'h bsp" assume "late B (hw s1)"
  then obtain v h' where "wait_status B (reg_addr s1 r) stop fin t (hw s1) = Some (Inr ((v, False), h'))" "late B h'"
    using late_loops(3) [OF assms(1)] by blast
  then show "ends B (\<lambda>e. e \<noteq> 0) (bindO (ask_hw (wait_status B (reg_addr s1 r) stop fin t) s1) (\<lambda>((v, ok), s).
      Some (Inr (if ok then 0 else status_error errs v, s))))"
    by (simp add: ask_hw_def ends_def status_error_def)
qed (use assms in simp)

lemma ends_update_clk:
  assumes "clock_monotone B" "late B (hw s)"
  shows "ends B (\<lambda>_. True) (mmc_update_clk B s)"
  unfolding mmc_update_clk_def Let_def
  by (rule ends_prod [OF assms(2)], use assms in simp, rule ends_wait_while [OF assms(1)], use assms in simp,
      rule ends_prod, assumption) (use assms in \<open>auto intro!: ends_prod ends_Some\<close>)

lemma ends_end_cmd:
  fixes B :: "'h bus"
  assumes "clock_monotone B" "late B (hw s)" "e \<noteq> 0"
  shows "ends B (\<lambda>x. x = -1) (end_cmd B e u s)"
proof -
  define s1 where "s1 = (if u then stop_dma B s else s)"
  have "late B (hw (stop_dma B s))" using assms(1,2) by (simp add: stop_dma_def case_prod_beta)
  then have s1: "late B (hw s1)" using assms(2) by (simp add: s1_def)
  show ?thesis
    unfolding end_cmd_def Let_def s1_def [symmetric] if_not_P [OF assms(3)]
  proof (rule ends_prod)
    fix t and s2 :: "'h bsp" assume s2: "late B (hw s2)"
    show "ends B (\<lambda>x. x = -1) (bindO (ask_hw (wait_reset B (reg_addr s2 gctrl) 7 t) s2) (\<lambda>(ok, s).
        if \<not> ok then Some (Inr (-1, s))
        else bindO (mmc_update_clk B s) (\<lambda>(_, s). Some (Inr (-1, wrr B rint 0xffffffff s)))))"
      by (rule ends_bind [OF ends_wait_reset [OF assms(1) s2]])
        (use assms(1) in \<open>auto intro!: ends_Some ends_bind [OF ends_update_clk]\<close>)
  qed (use assms(1) s1 in simp_all)
qed

section \<open>Commands\<close>

lemma late_store_words: "clock_monotone B \<Longrightarrow> late B h \<Longrightarrow> late B (store_words B a ws h)"
  by (induction ws arbitrary: a h) (simp_all add: late_step)

lemma late_descriptors:
  "clock_monotone B \<Longrightarrow> late B h \<Longrightarrow> late B (fold (store_des B pd buff n) is h)"
  by (induction "is" arbitrary: h) (simp_all add: store_des_def late_store_words)

lemma ends_dma:
  fixes B :: "'h bus"
  assumes "clock_monotone B" "late B (hw s)"
  shows "ends B (\<lambda>_. True) (mmc_trans_data_by_dma B buff d s)"
proof -
  define s1 where "s1 = modr B gctrl (\<lambda>v. v OR push_bit 5 1 OR push_bit 2 1)
    (on_hw (fold (store_des B (pdes (smhc s)) buff (byte_cnt d)) [0..<unat (frag_count (byte_cnt d))]) s)"
  have s1: "late B (hw s1)"
    unfolding s1_def by (rule late_ops(2) [OF assms(1)]) (simp add: on_hw_def late_descriptors assms)
  show ?thesis
    unfolding mmc_trans_data_by_dma_def Let_def s1_def [symmetric]
  proof (rule ends_prod [OF s1])
    fix t and s2 :: "'h bsp" assume s2: "late B (hw s2)"
    show "ends B (\<lambda>_. True) (bindO (ask_hw (wait_reset B (reg_addr s2 gctrl) (push_bit 2 1) t) s2) (\<lambda>(ok, s3).
      if \<not> ok then Some (Inr (-1, s3))
      else
        case get_hw (deadline B 0xffff) (wrr B dmac (push_bit 0 1) s3) of (timeout, s4) \<Rightarrow>
        bindO (ask_hw (wait_reset B (reg_addr s4 dmac) (push_bit 0 1) timeout) s4) (\<lambda>(ok, s5).
        if \<not> ok then Some (Inr (-1, s5))
        else Some (Inr (0, wrr B ftrglevel (push_bit 28 3 OR push_bit 16 15 OR 240)
          (wrr B dlba (ucast (drop_bit 2 (pdes (smhc s))))
          (modr B idie (\<lambda>v. (v AND NOT 3) OR (if data_flags d AND MMC_DATA_WRITE \<noteq> 0 then push_bit 0 1 else push_bit 1 1))
          (wrr B dmac (push_bit 1 1 OR push_bit 7 1) s5))))))))"
      by (rule ends_bind [OF ends_wait_reset [OF assms(1) s2]])
        (use assms(1) in \<open>auto intro!: ends_Some ends_prod ends_bind [OF ends_wait_reset]\<close>)
  qed (use assms(1) s1 in simp)
qed

lemma ends_cpu_loop:
  fixes B :: "'h bus"
  assumes "clock_monotone B"
  shows "late B (hw s) \<Longrightarrow> ends B (\<lambda>_. True) (cpu_loop B r dest is d s)"
proof (induction "is" arbitrary: r d s)
  case (Cons i "is")
  show ?case
    unfolding cpu_loop.simps Let_def
    by (rule ends_wait_while [OF assms Cons(2)]) (use assms in \<open>auto simp: case_prod_beta intro!: ends_Some Cons(1)\<close>)
qed (simp add: ends_Some)

lemma ends_issue:
  fixes B :: "'h bus"
  assumes "clock_monotone B" "late B (hw s)"
  shows "ends B (\<lambda>_. True) (issue_cmd B dest c data s)"
proof -
  have cpu: "ends B (\<lambda>_. True) (mmc_trans_data_by_cpu B dest d s)" if "late B (hw s)" for d and s :: "'h bsp"
    unfolding mmc_trans_data_by_cpu_def
    by (rule ends_prod [OF that]) (use assms(1) that in \<open>auto simp: case_prod_beta intro!: ends_Some ends_bind [OF ends_cpu_loop]\<close>)
  have "ends B (\<lambda>_. True) (issue_data B dest c d s)" if s: "late B (hw s)" for d and s :: "'h bsp"
    unfolding issue_data_def Let_def
  proof (rule ends_bind)
    show "ends B (\<lambda>_. True) (if blocksize d * blocks d > 512 then
        bindO (mmc_trans_data_by_dma B dest d (modr B gctrl (clear_bits 0x80000000) s))
          (\<lambda>(ret, s). Some (Inr (ret, wrr B r_cmd (cmd_word c (Some d)) s)))
      else mmc_trans_data_by_cpu B dest d (wrr B r_cmd (cmd_word c (Some d)) (modr B gctrl (set_bits 0x80000000) s)))"
      using assms(1) s by (auto intro!: cpu ends_Some ends_bind [OF ends_dma])
  qed (use assms(1) in \<open>auto simp: case_prod_beta intro!: ends_Some\<close>)
  then show ?thesis
    unfolding issue_cmd_def using assms by (auto simp: Let_def intro!: ends_Some split: option.split)
qed

lemma late_send_cmd:
  fixes B :: "'h bus"
  assumes "clock_monotone B" "late B (hw s)" "cmdidx c \<noteq> 12 \<or> cmd_flags c AND MMC_CMD_MANUAL \<noteq> 0"
  shows "ends B (\<lambda>(x, r). x = -1 \<and> r = []) (bsp_send_cmd B dest c data s)"
proof (cases "fatal_err (smhc s) = 0")
  case True
  have await: "ends B (\<lambda>e. e \<noteq> 0) (await_cmd B c u data s)" if "late B (hw s)" for u and s :: "'h bsp"
    unfolding await_cmd_def unless_error_def
    by (rule ends_bind [OF ends_await [OF assms(1) that]]) (simp add: ends_Some)
  have fin: "ends B (\<lambda>(x, r). x = -1 \<and> r = []) (bindO (end_cmd B e u s) (\<lambda>(x, s). Some (Inr ((x, []), s))))"
    if "e \<noteq> 0" "late B (hw s)" for e u and s :: "'h bsp"
    by (rule ends_bind [OF ends_end_cmd [OF assms(1) that(2,1)]]) (simp add: ends_Some)
  have wait: "ends B (\<lambda>(x, r). x = -1 \<and> r = []) (bindO (await_cmd B c u data s) (\<lambda>(e, s).
      case (if e = 0 then read_response B c s else ([], s)) of (r, s) \<Rightarrow>
      bindO (end_cmd B e u s) (\<lambda>(x, s). Some (Inr ((x, r), s)))))" if "late B (hw s)" for u and s :: "'h bsp"
    by (rule ends_bind [OF await [OF that]]) (simp add: fin)
  have c: "\<not> (cmdidx c = 12 \<and> cmd_flags c AND MMC_CMD_MANUAL = 0)" using assms(3) by blast
  show ?thesis
    unfolding bsp_send_cmd_def if_not_P [OF c] using True
    by (auto intro!: fin wait ends_bind [OF ends_issue [OF assms(1,2)]])
qed (use assms(2) in \<open>simp add: bsp_send_cmd_def ends_Some\<close>)

lemma late_set_blocklen:
  fixes B :: "'h bus"
  assumes "clock_monotone B" "late B (hw (host s))" "speed_mode (dev s) \<noteq> HSDDR52_DDR50" "speed_mode (dev s) \<noteq> HS400"
  shows "\<exists>s'. mmc_set_blocklen (bsp_ops B dest b) n s = Inr (-1, s')"
proof -
  let ?c = "cmd MMC_CMD_SET_BLOCKLEN MMC_RSP_R1 n"
  have "cmdidx ?c \<noteq> 12 \<or> cmd_flags ?c AND MMC_CMD_MANUAL \<noteq> 0" by (simp add: mmc_consts)
  from late_send_cmd [OF assms(1,2) this, of dest None] obtain s1 where
    "bsp_send_cmd B dest ?c None (host s) = Some (Inr ((-1, []), s1))"
    unfolding ends_def by auto
  then show ?thesis
    using assms(3,4) by (simp add: mmc_set_blocklen_def simple_cmd_def mmc_send_cmd_def bsp_ops_def stop_or_def)
qed

text \<open>
  C21: When the machine has run for \<open>2 ^ 32\<close> microseconds, no block is read any more: with the controller driver below the
  SD core, \<^verbatim>\<open>disk_read\<close> returns 0, its value for success, and leaves the buffer as it is, whatever the card does. The
  deadline of a command is stored in 32 bits and compared with the 64-bit time, so that every command fails at once.
\<close>

theorem disk_read_fails_late:
  fixes B :: "'h bus"
  assumes "clock_monotone B" "24 * 2 ^ 32 \<le> unat (counter B (hw (host s)))"
    and "devs ! 0 = Some s" "0 < length devs" "speed_mode (dev s) \<noteq> HSDDR52_DDR50" "speed_mode (dev s) \<noteq> HS400"
  shows "\<exists>devs'. disk_read (bsp_ops B dest b) block_no nblocks dst devs = Some (Inr ((0, dst), devs'))"
proof -
  obtain s' where "mmc_set_blocklen (bsp_ops B dest b) (read_bl_len (dev s)) s = Inr (-1, s')"
    using late_set_blocklen assms by (metis late_def)
  then have "\<exists>k devs'. mmc_bread (bsp_ops B dest b) sdc_no (word_of_int block_no) (word_of_int nblocks) dst devs
      = Some (Inr ((k, dst), devs'))"
    using assms(3,4) by (auto simp: mmc_bread_def find_mmc_device_def sdc_no_def)
  then show ?thesis by (auto simp: disk_read_def)
qed

definition late_bus :: "(u64 \<Rightarrow> u32) bus" where
  "late_bus = reg_bus\<lparr>time_csr := (\<lambda>h. (24 * 2 ^ 32, h))\<rparr>"

definition sample_board :: "(u64 \<Rightarrow> u32) bsp mmcs" where
  "sample_board = \<lparr>dev = (init_dev 4)\<lparr>lba := 8192, read_bl_len := 512\<rparr>, host = \<lparr>smhc = init_host, hw = (\<lambda>_. 4)\<rparr>,
     mmc_arg_addr = replicate 512 0\<rparr>"

theorem disk_read_fails_late_witness:
  "\<exists>devs'. disk_read (bsp_ops late_bus 0x40000000 (replicate 512 0)) 4096 1 (replicate 512 7) [Some sample_board, None] =
     Some (Inr ((0, replicate 512 7), devs'))"
proof -
  have "clock_monotone late_bus" by (simp add: clock_monotone_def late_bus_def)
  moreover have "24 * 2 ^ 32 \<le> unat (counter late_bus (hw (host sample_board)))" by (simp add: late_bus_def)
  moreover have "speed_mode (dev sample_board) \<noteq> HSDDR52_DDR50" "speed_mode (dev sample_board) \<noteq> HS400"
    by (simp_all add: sample_board_def init_dev_def mmc_zero_def HSDDR52_DDR50_def HS400_def)
  ultimately show ?thesis by (intro disk_read_fails_late [where s = sample_board]) simp_all
qed

end
