(* ===== verification/Mmc_Dma.thy ===== *)
theory Mmc_Dma
  imports Mmc_Transfer
begin

text \<open>
  The descriptors that \<^verbatim>\<open>mmc_trans_data_by_dma\<close> writes to memory, as the controller reads them: a chain of fragments
  of at most 4096 bytes that covers the buffer.
\<close>

unbundle bit_operations_syntax

section \<open>Words in memory\<close>

lemma store_words_append:
  "store_words B a (xs @ ys) h = store_words B (a + word_of_nat (4 * length xs)) ys (store_words B a xs h)"
  by (induction xs arbitrary: a h) (simp_all add: algebra_simps)

lemma length_des_words [simp]: "length (des_words d) = 4"
  by (simp add: des_words_def)

definition des_list :: "u64 \<Rightarrow> u64 \<Rightarrow> u32 \<Rightarrow> nat \<Rightarrow> u32 list" where
  "des_list pd buff n k = concat (map (\<lambda>i. des_words (make_des pd buff n i)) [0..<k])"

lemma length_des_list [simp]: "length (des_list pd buff n k) = 4 * k"
  by (induction k) (simp_all add: des_list_def)

lemma nth_des_list: "i < k \<Longrightarrow> c < 4 \<Longrightarrow> des_list pd buff n k ! (4 * i + c) = des_words (make_des pd buff n i) ! c"
proof (induction k)
  case (Suc k)
  have e: "des_list pd buff n (Suc k) = des_list pd buff n k @ des_words (make_des pd buff n k)" by (simp add: des_list_def)
  show ?case
  proof (cases "i < k")
    case True
    then have "4 * i + c < 4 * k" using Suc(3) by linarith
    then show ?thesis using Suc(1) True Suc(3) by (simp add: e nth_append)
  next
    case False
    then have "i = k" using Suc(2) by simp
    then show ?thesis by (simp add: e nth_append)
  qed
qed simp

lemma fold_store_des: "fold (store_des B pd buff n) [0..<k] h = store_words B pd (des_list pd buff n k) h"
proof (induction k)
  case (Suc k)
  have "des_list pd buff n (Suc k) = des_list pd buff n k @ des_words (make_des pd buff n k)" by (simp add: des_list_def)
  then show ?case using Suc by (simp add: store_words_append store_des_def algebra_simps)
qed (simp add: des_list_def)

definition word_area :: "u64 \<Rightarrow> nat \<Rightarrow> u64 set" where
  "word_area a k = (\<lambda>j. a + word_of_nat (4 * j)) ` {..<k}"

lemma word_area_inj:
  assumes "i < 2 ^ 34" "j < 2 ^ 34" "a + word_of_nat (4 * i) = a + (word_of_nat (4 * j) :: u64)" shows "i = j"
proof -
  have "unat (word_of_nat (4 * k) :: u64) = 4 * k" if "k < 2 ^ 34" for k
    using that unfolding unat_of_nat by simp
  moreover have "word_of_nat (4 * i) = (word_of_nat (4 * j) :: u64)" using assms(3) by simp
  ultimately show ?thesis using assms(1,2) by (metis mult_cancel1 zero_neq_numeral)
qed

lemma rd_store_words_other:
  assumes "plain_regs B A" "b \<in> A" "word_area a (length ws) \<subseteq> A" "b \<notin> word_area a (length ws)"
  shows "fst (rd B b (store_words B a ws h)) = fst (rd B b h)"
  using assms(3,4)
proof (induction ws arbitrary: a h)
  case (Cons w ws)
  have area: "word_area a (length (w # ws)) = insert a (word_area (a + 4) (length ws))"
    by (force simp: word_area_def lessThan_Suc_eq_insert_0 image_image algebra_simps)
  then have "fst (rd B b (store_words B (a + 4) ws (wr B a w h))) = fst (rd B b (wr B a w h))" using Cons by auto
  moreover have "a \<in> A" "b \<noteq> a" using Cons(2,3) area by auto
  ultimately show ?case using assms(1,2) by (simp add: plain_regs_def)
qed simp

lemma rd_store_words:
  assumes "plain_regs B A"
  shows "word_area a (length ws) \<subseteq> A \<Longrightarrow> length ws \<le> 2 ^ 34 \<Longrightarrow> j < length ws \<Longrightarrow>
    fst (rd B (a + word_of_nat (4 * j)) (store_words B a ws h)) = ws ! j"
proof (induction ws arbitrary: a h j)
  case (Cons w ws)
  have area: "word_area a (length (w # ws)) = insert a (word_area (a + 4) (length ws))"
    by (force simp: word_area_def lessThan_Suc_eq_insert_0 image_image algebra_simps)
  show ?case
  proof (cases j)
    case 0
    have "a \<notin> word_area (a + 4) (length ws)"
    proof
      assume "a \<in> word_area (a + 4) (length ws)"
      then obtain k where "k < length ws" "a + word_of_nat (4 * 0) = a + (word_of_nat (4 * Suc k) :: u64)"
        by (auto simp: word_area_def algebra_simps)
      then show False using word_area_inj [of 0 "Suc k" a] Cons(3) by simp
    qed
    then have "fst (rd B a (store_words B (a + 4) ws (wr B a w h))) = fst (rd B a (wr B a w h))"
      using rd_store_words_other [OF assms] Cons(2) area by auto
    then show ?thesis using assms Cons(2) area 0 by (auto simp: plain_regs_def)
  next
    case (Suc k)
    then have "fst (rd B (a + 4 + word_of_nat (4 * k)) (store_words B (a + 4) ws (wr B a w h))) = ws ! k"
      using Cons area by auto
    then show ?thesis using Suc by (simp add: algebra_simps)
  qed
qed simp

section \<open>Fragments\<close>

lemma buffer_len: "SDXC_DES_BUFFER_MAX_LEN = 4096" "SDXC_DES_BUFFER_MAX_LEN - 1 = mask 12"
  by (simp_all add: SDXC_DES_BUFFER_MAX_LEN_def SDXC_DES_NUM_SHIFT_def mask_eq_exp_minus_1)

lemma unat_fragment:
  fixes n :: u32
  shows "unat (n AND mask 12) = unat n mod 4096" "unat (drop_bit 12 n) = unat n div 4096"
  by (simp_all add: take_bit_eq_mask [symmetric] take_bit_eq_mod drop_bit_eq_div unat_mod_distrib unat_div_distrib)

lemma fragment_zero: "(n :: u32) AND mask 12 \<noteq> 0 \<longleftrightarrow> unat n mod 4096 \<noteq> 0"
  using unat_fragment(1) [of n] by (metis unsigned_eq_0_iff)

lemma unat_frag_count: "unat (frag_count n) = (unat n + 4095) div 4096"
proof -
  define N where "N = unat n"
  have N: "N < 2 ^ 32" using unsigned_less [of n, where ?'a = nat] by (simp add: N_def)
  have "N div 4096 < 2 ^ 20" using N by (simp add: div_less_iff_less_mult)
  then have "unat (frag_count n) = N div 4096 + (if N mod 4096 \<noteq> 0 then 1 else 0)"
    unfolding frag_count_def buffer_len(2) fragment_zero N_def [symmetric] SDXC_DES_NUM_SHIFT_def
    using unat_fragment(2) [of n] unat_word_ariths(1) [of "drop_bit 12 n" 1] by (simp add: N_def)
  also have "\<dots> = (N + 4095) div 4096"
  proof -
    define q where "q = N div 4096"
    define r where "r = N mod 4096"
    have r: "r < 4096" "N = 4096 * q + r" by (simp_all add: q_def r_def)
    have "(N + 4095) div 4096 = q + (if r \<noteq> 0 then 1 else 0)" by (rule div_nat_eqI) (use r in auto)
    then show ?thesis by (simp add: q_def r_def)
  qed
  finally show ?thesis by (simp add: N_def)
qed

lemma unat_frag_remain: "unat (frag_remain n) = (if unat n mod 4096 = 0 then 4096 else unat n mod 4096)"
  unfolding frag_remain_def buffer_len(2) fragment_zero using unat_fragment(1) [of n] by (simp add: buffer_len(1))

lemma make_des_size:
  assumes "i < unat (frag_count n)"
  shows "unat (data_buf1_sz (make_des pd buff n i)) = min 4096 (unat n - 4096 * i)"
proof -
  define N where "N = unat n"
  define k where "k = (N + 4095) div 4096"
  have k: "unat (frag_count n) = k" by (simp add: unat_frag_count k_def N_def)
  have bounds: "4096 * (k - 1) < N" "N \<le> 4096 * k" "0 < k"
    using assms k by (auto simp: k_def)
  show ?thesis
  proof (cases "i = k - 1")
    case True
    have "N - 4096 * (k - 1) = (if N mod 4096 = 0 then 4096 else N mod 4096)"
    proof -
      define q where "q = N div 4096"
      define r where "r = N mod 4096"
      have r: "r < 4096" "N = 4096 * q + r" by (simp_all add: q_def r_def)
      then have "4096 * (k - 1) < 4096 * q + r" "4096 * q + r \<le> 4096 * k" using bounds by simp_all
      then have "k - 1 = (if r = 0 then q - 1 else q)" "r = 0 \<longrightarrow> 0 < q" using r(1) by auto
      then show ?thesis unfolding r_def [symmetric] using r by (auto simp: algebra_simps)
    qed
    then show ?thesis
      using True k bounds by (simp add: make_des_def Let_def unat_frag_remain N_def [symmetric])
  next
    case False
    then have "Suc i < k" using assms k by simp
    then have "4096 * i + 4096 \<le> 4096 * (k - 1)" by (cases k) auto
    then have "4096 \<le> N - 4096 * i" using bounds by linarith
    moreover have "frag_count n > 1" using \<open>Suc i < k\<close> k by (simp add: word_less_nat_alt)
    ultimately show ?thesis using False k by (simp add: make_des_def Let_def buffer_len N_def)
  qed
qed

lemma word_address:
  fixes a :: u64
  assumes "unat a mod 4 = 0" "unat a < 2 ^ 34"
  shows "4 * unat (ucast (drop_bit 2 a) :: u32) = unat a"
proof -
  have "unat (drop_bit 2 a) = unat a div 4" by (simp add: drop_bit_eq_div unat_div_distrib)
  moreover have "unat a div 4 < 2 ^ 32" using assms(2) by (simp add: div_less_iff_less_mult)
  ultimately have "unat (ucast (drop_bit 2 a) :: u32) = unat a div 4" by (simp add: unat_ucast_32)
  then show ?thesis using assms(1) by auto
qed

lemma unat_offset:
  fixes a :: u64
  assumes "unat a + d < 2 ^ 34" shows "unat (a + word_of_nat d) = unat a + d"
  using assms unat_word_ariths(1) [of a "word_of_nat d"] by (simp add: unat_of_nat)

lemma make_des_address:
  assumes "i < unat (frag_count n)" "unat buff mod 4 = 0" "unat buff + unat n \<le> 2 ^ 34"
  shows "4 * unat (buf_addr_ptr1 (make_des pd buff n i)) = unat buff + 4096 * i"
proof -
  have i: "4096 * i < unat n" using assms(1) by (simp add: unat_frag_count)
  have n: "unat n < 2 ^ 32" using unsigned_less [of n, where ?'a = nat] by simp
  have "unat (word_of_nat i * 4096 :: u32) = 4096 * i"
    using i n unat_word_ariths(2) [of "word_of_nat i :: u32" 4096] by (simp add: unat_of_nat)
  then have "ucast (word_of_nat i * 4096 :: u32) = (word_of_nat (4096 * i) :: u64)"
    using i n unfolding word_unat_eq_iff unat_ucast_64 unat_of_nat by simp
  then have "unat (buff + ucast (word_of_nat i * 4096 :: u32)) = unat buff + 4096 * i"
    using unat_offset [of buff "4096 * i"] i assms(3) by simp
  then show ?thesis
    using word_address [of "buff + ucast (word_of_nat i * 4096 :: u32)"] assms(2,3) i
    by (simp add: make_des_def Let_def buffer_len mod_add_left_eq [symmetric])
qed

lemma make_des_next:
  assumes "Suc i < unat (frag_count n)" "unat pd mod 4 = 0" "unat pd + 16 * unat (frag_count n) \<le> 2 ^ 34"
  shows "4 * ucast (buf_addr_ptr2 (make_des pd buff n i)) = pd + 16 * word_of_nat (Suc i)"
proof -
  have a: "unat (pd + word_of_nat (16 * Suc i)) = unat pd + 16 * Suc i" using assms(1,3) by (intro unat_offset) simp
  let ?w = "ucast (drop_bit 2 (pd + word_of_nat (16 * Suc i))) :: u32"
  have "4 * unat ?w = unat pd + 16 * Suc i"
    using word_address [of "pd + word_of_nat (16 * Suc i)"] a assms by presburger
  then have "unat (4 * ucast ?w :: u64) = unat (pd + word_of_nat (16 * Suc i))"
    using unat_word_ariths(2) [of 4 "ucast ?w :: u64"] a assms(1,3) by (simp add: unat_ucast_64)
  then have "4 * ucast ?w = pd + (word_of_nat (16 * Suc i) :: u64)" using word_unat_eq_iff by blast
  moreover have "word_of_nat (16 * Suc i) = 16 * (word_of_nat (Suc i) :: u64)" by simp
  moreover have "buf_addr_ptr2 (make_des pd buff n i) = ?w" using assms(1) by (simp add: make_des_def Let_def algebra_simps)
  ultimately show ?thesis by simp
qed

section \<open>What the controller reads\<close>

text \<open>
  The controller's view of a descriptor list in memory \<open>m\<close>: the addresses of the bytes that a transfer touches, in order.
  It takes a descriptor that it owns, its first buffer, and goes on with the next descriptor up to the last one.
\<close>

fun dma_walk :: "(u64 \<Rightarrow> u32) \<Rightarrow> nat \<Rightarrow> u64 \<Rightarrow> nat list" where
  "dma_walk m 0 a = []"
| "dma_walk m (Suc f) a =
     (let p = 4 * unat (m (a + 8)); sz = unat (m (a + 4) AND 0xffff) in
      if \<not> bit (m a) 31 then []
      else [p..<p + sz] @ (if bit (m a) 2 then [] else dma_walk m f (4 * ucast (m (a + 12)))))"

lemma des_flags: "bit (des_words d ! 0) 31 = own d" "bit (des_words d ! 0) 2 = last_des d"
  by (simp_all add: des_words_def bit_simps)

lemma des_size: "unat (data_buf1_sz d) \<le> 4096 \<Longrightarrow> unat (des_words d ! 1 AND 0xffff) = unat (data_buf1_sz d)"
proof -
  assume "unat (data_buf1_sz d) \<le> 4096"
  moreover have "des_words d ! 1 AND 0xffff = data_buf1_sz d AND mask 16"
    by (simp add: des_words_def mask_eq_exp_minus_1 and.assoc)
  moreover have "unat (x AND mask 16) = unat x mod 2 ^ 16" for x :: u32
    by (simp add: take_bit_eq_mask [symmetric] take_bit_eq_mod unat_mod_distrib)
  ultimately show ?thesis by simp
qed

lemma walk_from:
  assumes m: "\<And>i c. i < k \<Longrightarrow> c < 4 \<Longrightarrow> m (pd + word_of_nat (4 * (4 * i + c))) = des_words (make_des pd buff n i) ! c"
    and k: "k = unat (frag_count n)" and buff: "unat buff mod 4 = 0" "unat buff + unat n \<le> 2 ^ 34"
    and pd: "unat pd mod 4 = 0" "unat pd + 16 * k \<le> 2 ^ 34"
  shows "f = k - i \<Longrightarrow> i < k \<Longrightarrow> dma_walk m f (pd + 16 * word_of_nat i) = [unat buff + 4096 * i..<unat buff + unat n]"
proof (induction f arbitrary: i)
  case (Suc f)
  define d where "d = make_des pd buff n i"
  have w: "m (pd + 16 * word_of_nat i) = des_words d ! 0" "m (pd + 16 * word_of_nat i + 4) = des_words d ! 1"
    "m (pd + 16 * word_of_nat i + 8) = des_words d ! 2" "m (pd + 16 * word_of_nat i + 12) = des_words d ! 3"
    using m [OF Suc(3), of 0] m [OF Suc(3), of 1] m [OF Suc(3), of 2] m [OF Suc(3), of 3] by (simp_all add: d_def algebra_simps)
  have i: "i < unat (frag_count n)" using Suc(3) k by simp
  have sz: "unat (data_buf1_sz d) = min 4096 (unat n - 4096 * i)" unfolding d_def by (rule make_des_size [OF i])
  have p: "4 * unat (des_words d ! 2) = unat buff + 4096 * i"
    using make_des_address [OF i buff] by (simp add: des_words_def d_def)
  have "4096 * i < unat n" using i by (simp add: unat_frag_count)
  note piece = sz p des_size [of d, unfolded sz] \<open>4096 * i < unat n\<close>
  have own: "own d" by (simp add: d_def make_des_def Let_def)
  show ?case
  proof (cases "i = k - 1")
    case True
    then have "last_des d" by (simp add: d_def make_des_def Let_def k)
    moreover have "unat n \<le> 4096 * k" using k by (simp add: unat_frag_count)
    then have "min 4096 (unat n - 4096 * i) = unat n - 4096 * i" using True Suc(3) by auto
    ultimately show ?thesis using piece own by (simp add: w des_flags Let_def)
  next
    case False
    then have si: "Suc i < k" using Suc(3) by simp
    then have last: "\<not> last_des d" by (simp add: d_def make_des_def Let_def k)
    have "4096 * Suc i < unat n" using si k by (simp add: unat_frag_count)
    then have sz: "min 4096 (unat n - 4096 * i) = 4096" by simp
    have "4 * ucast (des_words d ! 3) = pd + 16 * word_of_nat (Suc i)"
      using make_des_next [of i n pd buff] si k pd by (simp add: des_words_def d_def)
    moreover have "dma_walk m f (pd + 16 * word_of_nat (Suc i)) = [unat buff + 4096 * Suc i..<unat buff + unat n]"
      by (rule Suc(1)) (use Suc(2) si in simp_all)
    moreover have "[unat buff + 4096 * i..<unat buff + unat n] =
        [unat buff + 4096 * i..<unat buff + 4096 * i + 4096] @ [unat buff + 4096 * Suc i..<unat buff + unat n]"
      using upt_add_eq_append [of "unat buff + 4096 * i" "unat buff + 4096 * i + 4096" "unat n - 4096 * Suc i"]
        \<open>4096 * Suc i < unat n\<close> by (simp add: algebra_simps)
    ultimately show ?thesis using piece own last sz by (simp add: w des_flags Let_def)
  qed
qed simp



end
