(* ===== verification/Mmc_Host_Words.thy ===== *)
theory Mmc_Host_Words
  imports Mmc_Transfer
begin

text \<open>What the controller driver writes to the command register and to the module clock register.\<close>

unbundle bit_operations_syntax

section \<open>The command register\<close>

lemma small_index:
  fixes c :: u32
  assumes "c < 64" shows "take_bit 6 c = c" "6 \<le> k \<Longrightarrow> \<not> bit c k"
proof -
  have "unat (c mod 64) = unat c" using assms by (simp add: unat_mod_distrib word_less_nat_alt)
  then have "c mod 64 = c" by (simp add: word_unat_eq_iff)
  then show t: "take_bit 6 c = c" by (simp add: take_bit_eq_mod)
  then show "6 \<le> k \<Longrightarrow> \<not> bit c k" by (metis bit_take_bit_iff not_le)
qed

lemma take_bit_if: "take_bit n (if p then x else y) = (if p then take_bit n x else take_bit n y)"
  by simp

lemma take_bit_clear: "take_bit 6 (v AND NOT (push_bit 13 1)) = take_bit 6 (v :: u32)"
  by (rule bit_word_eqI) (auto simp only: bit_take_bit_iff bit_and_iff bit_not_iff bit_push_bit_iff possible_bit_word)

lemma take_bit_flags:
  "take_bit 6 (push_bit 6 1) = (0 :: u32)" "take_bit 6 (push_bit 7 1) = (0 :: u32)" "take_bit 6 (push_bit 8 1) = (0 :: u32)"
  "take_bit 6 (push_bit 9 1) = (0 :: u32)" "take_bit 6 (push_bit 10 1) = (0 :: u32)" "take_bit 6 (push_bit 12 1) = (0 :: u32)"
  "take_bit 6 (push_bit 13 1) = (0 :: u32)" "take_bit 6 (push_bit 14 1) = (0 :: u32)" "take_bit 6 (push_bit 15 1) = (0 :: u32)"
  "take_bit 6 0x80000000 = (0 :: u32)"
  by simp_all

lemma bit_if: "bit (if p then x else y) k \<longleftrightarrow> (if p then bit x k else bit y k)"
  by simp

text \<open>
  C25: The command word has the fields that the controller expects: the index of the command in its low six bits, one
  bit each for a response, a long response and the check of its CRC, for data, a write and an automatic stop after
  several blocks, and for the first command after power-on; the load bit is always set.
\<close>

theorem cmd_word_fields:
  assumes "cmdidx c < 64"
  shows "take_bit 6 (cmd_word c d) = cmdidx c \<and>
    (bit (cmd_word c d) 6 \<longleftrightarrow> resp_type c AND MMC_RSP_PRESENT \<noteq> 0) \<and>
    (bit (cmd_word c d) 7 \<longleftrightarrow> resp_type c AND MMC_RSP_136 \<noteq> 0) \<and>
    (bit (cmd_word c d) 8 \<longleftrightarrow> resp_type c AND MMC_RSP_CRC \<noteq> 0) \<and>
    (bit (cmd_word c d) 9 \<longleftrightarrow> d \<noteq> None) \<and>
    (bit (cmd_word c d) 10 \<longleftrightarrow> (\<exists>x. d = Some x \<and> data_flags x AND MMC_DATA_WRITE \<noteq> 0)) \<and>
    (bit (cmd_word c d) 12 \<longleftrightarrow> (\<exists>x. d = Some x \<and> blocks x > 1)) \<and>
    (bit (cmd_word c d) 15 \<longleftrightarrow> cmdidx c = 0) \<and> bit (cmd_word c d) 31"
proof -
  note i = small_index(2) [OF assms]
  have b: "bit (0x80000000 :: u32) k \<longleftrightarrow> k = 31" for k
    using bit_push_bit_iff [of 31 "1 :: u32" k] by (auto simp: bit_simps)
  have hi: "take_bit 6 (cmd_word c d) = take_bit 6 (cmdidx c)"
    unfolding cmd_word_def Let_def
    by (cases d) (simp_all only: option.case take_bit_or take_bit_if take_bit_clear take_bit_flags if_cancel or.left_neutral or.right_neutral)
  have rest: "bit (cmd_word c d) 6 \<longleftrightarrow> resp_type c AND MMC_RSP_PRESENT \<noteq> 0"
    "bit (cmd_word c d) 7 \<longleftrightarrow> resp_type c AND MMC_RSP_136 \<noteq> 0"
    "bit (cmd_word c d) 8 \<longleftrightarrow> resp_type c AND MMC_RSP_CRC \<noteq> 0"
    "bit (cmd_word c d) 9 \<longleftrightarrow> d \<noteq> None"
    "bit (cmd_word c d) 10 \<longleftrightarrow> (\<exists>x. d = Some x \<and> data_flags x AND MMC_DATA_WRITE \<noteq> 0)"
    "bit (cmd_word c d) 12 \<longleftrightarrow> (\<exists>x. d = Some x \<and> blocks x > 1)"
    "bit (cmd_word c d) 15 \<longleftrightarrow> cmdidx c = 0" "bit (cmd_word c d) 31"
    unfolding cmd_word_def Let_def
    by (cases d; simp only: option.case bit_or_iff bit_and_iff bit_not_iff bit_if bit_push_bit_iff b possible_bit_word; simp add: i)+
  show ?thesis using hi small_index(1) [OF assms] rest by simp
qed

theorem cmd_word_fields_witness:
  "take_bit 6 (cmd_word (cmd 18 MMC_RSP_R1 4096) (Some (rd_data 8 512))) = 18 \<and>
   bit (cmd_word (cmd 18 MMC_RSP_R1 4096) (Some (rd_data 8 512))) 12"
  using cmd_word_fields [of "cmd 18 MMC_RSP_R1 4096" "Some (rd_data 8 512)"] by simp

section \<open>The module clock register\<close>

lemma small_bits:
  fixes x :: u32
  assumes "unat x < 2 ^ j" "j \<le> k" shows "\<not> bit x k"
proof -
  have "unat (take_bit j x) = unat x" using assms(1) by (simp add: unsigned_take_bit_eq take_bit_nat_eq_self)
  then have "take_bit j x = x" by (simp add: word_unat_eq_iff)
  then show ?thesis using assms(2) by (metis bit_take_bit_iff not_le)
qed

lemma mclk_fields:
  fixes src n x :: u32
  assumes "unat src < 2 ^ 2" "unat n < 2 ^ 2" "unat x < 2 ^ 4"
  shows "(push_bit 24 src OR push_bit 8 n OR x) AND 0xf = x" "drop_bit 8 (push_bit 24 src OR push_bit 8 n OR x) AND 3 = n"
    "drop_bit 24 (push_bit 24 src OR push_bit 8 n OR x) AND 3 = src"
proof -
  have m: "(0xf :: u32) = mask 4" "(3 :: u32) = mask 2" by (simp_all add: mask_eq_exp_minus_1)
  note bits = small_bits [OF assms(1)] small_bits [OF assms(2)] small_bits [OF assms(3)]
  have k: "bit x k \<Longrightarrow> k < 4" "bit n k \<Longrightarrow> k < 2" "bit src k \<Longrightarrow> k < 2" for k
    using bits [of k] by (meson not_le)+
  show "(push_bit 24 src OR push_bit 8 n OR x) AND 0xf = x"
    unfolding m by (rule bit_word_eqI) (auto simp: bit_simps dest: k)
  show "drop_bit 8 (push_bit 24 src OR push_bit 8 n OR x) AND 3 = n"
    unfolding m by (rule bit_word_eqI) (auto simp: bit_simps dest: k)
  show "drop_bit 24 (push_bit 24 src OR push_bit 8 n OR x) AND 3 = src"
    unfolding m by (rule bit_word_eqI) (auto simp: bit_simps dest: k)
qed

lemma mclk_div_nat:
  assumes "1 \<le> unat d" "unat d \<le> 128"
  shows "\<exists>j q. mclk_div d = (word_of_nat j, word_of_nat q) \<and> j < 4 \<and> 1 \<le> q \<and> q \<le> 16 \<and>
    2 ^ j * q \<le> unat d \<and> 8 * unat d \<le> 9 * (2 ^ j * q)"
proof -
  define D where "D = unat d"
  have d: "d = word_of_nat D" by (simp add: D_def)
  have D: "1 \<le> D" "D \<le> 128" using assms by (simp_all add: D_def)
  have small: "unat (word_of_nat k :: u32) = k" if "k \<le> 128" for k unfolding unat_of_nat using that by simp
  have shift: "drop_bit 1 d = word_of_nat (D div 2)" "drop_bit 2 d = word_of_nat (D div 4)" "drop_bit 3 d = word_of_nat (D div 8)"
    using D unfolding D_def word_unat_eq_iff by (simp_all add: drop_bit_eq_div unat_div_distrib small)
  have less: "(d > 128) = (D > 128)" "(d > 64) = (D > 64)" "(d > 32) = (D > 32)" "(d > 16) = (D > 16)"
    by (simp_all add: word_less_nat_alt D_def)
  have e: "mclk_div d = (if D > 64 then (3, word_of_nat (D div 8)) else if D > 32 then (2, word_of_nat (D div 4))
      else if D > 16 then (1, word_of_nat (D div 2)) else (0, word_of_nat D))"
    using D unfolding mclk_div_def less shift d [symmetric] by simp
  define P where "P j q \<longleftrightarrow> mclk_div d = (word_of_nat j, word_of_nat q) \<and> j < 4 \<and> 1 \<le> q \<and> q \<le> 16 \<and>
    2 ^ j * q \<le> D \<and> 8 * D \<le> 9 * (2 ^ j * q)" for j q
  consider "D > 64" | "D \<le> 64" "D > 32" | "D \<le> 32" "D > 16" | "D \<le> 16" by linarith
  then have "\<exists>j q. P j q"
  proof cases
    case 1
    then have "P 3 (D div 8)" using D unfolding P_def e by auto
    then show ?thesis by blast
  next
    case 2
    then have "P 2 (D div 4)" using D unfolding P_def e by auto
    then show ?thesis by blast
  next
    case 3
    then have "P 1 (D div 2)" using D unfolding P_def e by auto
    then show ?thesis by blast
  next
    case 4
    then have "P 0 D" using D unfolding P_def e by auto
    then show ?thesis by blast
  qed
  then show ?thesis unfolding P_def D_def .
qed

text \<open>
  C28: The module clock register stores a clock that is close to the requested one. For a source clock and a requested
  clock without overflow, whose rounded quotient \<open>D\<close> is at most 128, reading the register back gives a rate between the
  source clock divided by \<open>D\<close> and nine eighths of it.
\<close>

theorem mclk_rate_bounds:
  assumes "0 < clk_hz" "2 * unat sclk_hz + unat clk_hz < 2 ^ 32" "2 * unat clk_hz < 2 ^ 32" "unat src < 4"
    and "D = max 1 ((2 * unat sclk_hz + unat clk_hz) div (2 * unat clk_hz))" "D \<le> 128"
  shows "\<exists>w. mclk_word src sclk_hz clk_hz = Inr w \<and> drop_bit 24 w AND 3 = src \<and>
    unat sclk_hz div D \<le> unat (mclk_rate sclk_hz w) \<and> 8 * D * unat (mclk_rate sclk_hz w) \<le> 9 * unat sclk_hz"
proof -
  define S where "S = unat sclk_hz"
  define C where "C = unat clk_hz"
  have C: "0 < C" using assms(1) by (simp add: C_def word_less_nat_alt)
  have u: "unat (2 * clk_hz) = 2 * C" "unat (2 * sclk_hz + clk_hz) = 2 * S + C"
    using assms(2,3) unat_word_ariths(2) [of 2 clk_hz] unat_word_ariths(2) [of 2 sclk_hz] unat_word_ariths(1) [of "2 * sclk_hz" clk_hz]
    by (simp_all add: S_def C_def)
  define x where "x = (2 * sclk_hz + clk_hz) div (2 * clk_hz)"
  define d where "d = (if x = 0 then 1 else x)"
  have x: "unat x = (2 * S + C) div (2 * C)" by (simp add: x_def unat_div_distrib u)
  have "D = max 1 (unat x)" unfolding x using assms(5) by (simp add: S_def C_def)
  then have d: "unat d = D" using unsigned_eq_0_iff [of x, where ?'a = nat] by (auto simp: d_def max_def)
  obtain j q where jq: "mclk_div d = (word_of_nat j, word_of_nat q)" "j < 4" "1 \<le> q" "q \<le> 16"
      "2 ^ j * q \<le> D" "8 * D \<le> 9 * (2 ^ j * q)"
    using mclk_div_nat [of d] d assms(5,6) by auto
  define w where "w = push_bit 24 src OR push_bit 8 (word_of_nat j) OR (word_of_nat q - 1 :: u32)"
  have "2 * clk_hz \<noteq> 0" using u(1) C by (metis mult_is_0 neq0_conv unat_0 zero_neq_numeral)
  then have w: "mclk_word src sclk_hz clk_hz = Inr w"
    using jq(1) unfolding mclk_word_def Let_def x_def [symmetric] d_def [symmetric] by (simp add: w_def)
  have small: "unat (word_of_nat k :: u32) = k" if "k \<le> 128" for k unfolding unat_of_nat using that by simp
  have q: "unat (word_of_nat q - 1 :: u32) = q - 1"
    using unat_sub [of 1 "word_of_nat q :: u32"] jq(3,4) by (simp add: word_le_nat_alt small)
  have f: "w AND 0xf = word_of_nat q - 1" "drop_bit 8 w AND 3 = word_of_nat j" "drop_bit 24 w AND 3 = src"
    unfolding w_def by (rule mclk_fields; use assms(4) jq(2-4) q small in simp)+
  have "j = 0 \<or> j = 1 \<or> j = 2 \<or> j = 3" using jq(2) by linarith
  then have "unat (push_bit j 1 :: u32) = 2 ^ j" by auto
  then have r: "unat (mclk_rate sclk_hz w) = S div 2 ^ j div q"
    unfolding mclk_rate_def f S_def using jq(2-4) small [of q] small [of j] by (simp add: unat_div_distrib)
  have "S div D \<le> S div (2 ^ j * q)" using jq(3,5) by (intro div_le_mono2) auto
  moreover have "8 * D * (S div (2 ^ j * q)) \<le> 9 * S"
  proof -
    have "8 * D * (S div (2 ^ j * q)) \<le> 9 * (2 ^ j * q) * (S div (2 ^ j * q))" using jq(6) by (rule mult_le_mono1)
    also have "\<dots> \<le> 9 * S" using times_div_less_eq_dividend [of "2 ^ j * q" S] by (simp add: mult.assoc)
    finally show ?thesis .
  qed
  ultimately show ?thesis using w f(3) by (simp add: r S_def div_mult2_eq)
qed

theorem mclk_rate_bounds_witness:
  "\<exists>w. mclk_word 2 1200000000 50000000 = Inr w \<and> 50000000 \<le> unat (mclk_rate 1200000000 w) \<and>
     unat (mclk_rate 1200000000 w) \<le> 56250000"
proof -
  have "(0 :: u32) < 50000000" "2 * unat (1200000000 :: u32) + unat (50000000 :: u32) < 2 ^ 32"
    "2 * unat (50000000 :: u32) < 2 ^ 32" "unat (2 :: u32) < 4"
    "(24 :: nat) = max 1 ((2 * unat (1200000000 :: u32) + unat (50000000 :: u32)) div (2 * unat (50000000 :: u32)))"
    by simp_all
  from mclk_rate_bounds [OF this] obtain w where w: "mclk_word 2 1200000000 50000000 = Inr w"
    "unat (1200000000 :: u32) div 24 \<le> unat (mclk_rate 1200000000 w)"
    "8 * 24 * unat (mclk_rate 1200000000 w) \<le> 9 * unat (1200000000 :: u32)" by fastforce
  then show ?thesis by (intro exI [of _ w] conjI) simp_all
qed

end
