(* ===== verification/Spec2Isabelle.thy ===== *)
theory Spec2Isabelle
  imports Mkfs_Correct Kernel_System Mmc_Startup Servers_Correct Proc_Correct Page_Table_Map
    Uart Mmc_Late Mmc_Dma Mmc_Host_Words
begin

text \<open>
  \<^bold>\<open>egos-2000 on the Allwinner D1: a model of the operating system and its correctness.\<close>

  The system has three layers. The earth layer (\<^verbatim>\<open>src/earth\<close>) drives the hardware and exports its
  operations in \<^verbatim>\<open>struct earth\<close>. The grass layer (\<^verbatim>\<open>src/grass\<close>) is the kernel: a process table, traps,
  a round-robin scheduler and synchronous messages. Servers and applications (\<^verbatim>\<open>src/apps\<close>) run on top
  and use the library (\<^verbatim>\<open>src/library\<close>); \<^verbatim>\<open>src/tools/mkfs.c\<close> builds the disk image on the host.

  \<^bold>\<open>Conventions.\<close> An operation that changes state takes the state last and returns it with its result in
  \<open>'a res\<close>, where \<open>Inl\<close> is a stop of the machine (\<open>Fatal\<close>, with the message of the source) or behaviour
  that C leaves undefined (\<open>Undefined\<close>). A negative status of a read is \<open>None\<close>. A loop that need not end
  is a \<^verbatim>\<open>partial_function\<close> into \<open>option\<close>. Machine integers are words. Hardware, host files and the
  function pointers of an interface are parameters.

  \<^bold>\<open>Theories.\<close>
  \<^item> \<open>Egos_Prelude\<close>: words, cells of byte blocks, the error sum. \<open>Egos_Layout\<close>: the constants of
    \<^verbatim>\<open>library/egos.h\<close> and \<^verbatim>\<open>library/file/disk.h\<close>.
  \<^item> \<open>Inode_Store\<close>: the block-store interface of \<^verbatim>\<open>library/file/inode.h\<close> and its locales \<open>readable_store\<close>
    and \<open>writable_store\<close>. \<open>Treedisk\<close>: the file system \<^verbatim>\<open>library/file/file.c\<close> over any store.
    \<open>Treedisk_Tree\<close>, \<open>Treedisk_Correct\<close>, \<open>Treedisk_Files\<close>, \<open>Treedisk_Create\<close>: block trees, the free list,
    the abstraction to files, and that every operation implements it.
  \<^item> \<open>Mkfs\<close>, \<open>Mkfs_Correct\<close>: \<^verbatim>\<open>tools/mkfs.c\<close>, whose RAM disk interprets \<open>writable_store\<close>.
  \<^item> \<open>Earth_Interface\<close>: \<^verbatim>\<open>struct earth\<close> and the locale \<open>address_spaces\<close>. \<open>Process\<close>, \<open>Kernel\<close>: the grass
    layer. \<open>Kernel_Correct\<close>, \<open>Kernel_Traps\<close>, \<open>Kernel_Fair\<close>: message delivery, the kernel invariant over
    the step relation \<open>kernel_step\<close>, and absence of starvation, all proved in the locale.
  \<^item> \<open>Mmu\<close>, \<open>Mmu_Correct\<close>, \<open>Mmu_Spaces\<close>: frames and the software TLB of \<^verbatim>\<open>earth/cpu_mmu.c\<close>, which
    interprets \<open>address_spaces\<close>. \<open>Kernel_System\<close>: the kernel's theorems for that instance.
  \<^item> \<open>Mmc_Defs\<close>, \<open>Mmc\<close>, \<open>Mmc_Correct\<close>, \<open>Mmc_Startup\<close>: the SD/MMC core of \<^verbatim>\<open>earth/modules/mmc/mmc.c\<close> over the
    operations of a controller. \<open>Fs_Disk\<close>: the disk driver and the inode store over it, with the locale
    \<open>reading_store\<close>, which the RAM disk interprets and the card satisfies.
  \<^item> \<open>C_Strings\<close>, \<open>Servers\<close>, \<open>Servers_Correct\<close>: the file and directory servers and their clients, down to
    the disk image that \<^verbatim>\<open>mkfs\<close> writes. \<open>Elf\<close>, \<open>Elf_Correct\<close>: the loader.
\<close>

end
